(* ===== verification/Prelude.thy ===== *)
theory Prelude
  imports Main "HOL-Library.Word" "HOL-Library.Multiset"
begin

text \<open>
  Shared ground of the development: the collections of simplification facts the components
  extend, the types of the Rust values that occur everywhere (strings as lists of Unicode
  scalar values, machine integers as words), and generic lemmas on lists and options.
\<close>

named_theorems std_simps \<open>facts about the standard-library operations\<close>
named_theorems boot_simps \<open>unfoldings of the boot timeline's operations\<close>
named_theorems log_simps \<open>unfoldings of the log bridge's operations\<close>
named_theorems init_simps \<open>unfoldings of the initialisation pipeline\<close>

section \<open>Types\<close>

text \<open>
  A Rust \<open>char\<close> is a Unicode scalar value and a Rust \<open>String\<close> is read
  character by character in all of this program, so a string is the list of its code points.
  Literals of the source are ASCII and are written \<open>lit ''...''\<close>.
\<close>

type_synonym rchar = nat
type_synonym rstring = "rchar list"
type_synonym u64 = "64 word"
type_synonym i64 = "64 word"

definition lit :: "string \<Rightarrow> rstring" where
  "lit s = map of_char s"

lemma lit_inject [simp]: "lit a = lit b \<longleftrightarrow> a = b"
  unfolding lit_def by (rule inj_map_eq_map) (simp add: inj_on_def)

lemma lit_Nil [simp]: "lit [] = []"
  by (simp add: lit_def)

lemma lit_eq_Nil [simp]: "lit a = [] \<longleftrightarrow> a = []"
  by (simp add: lit_def)

lemma Nil_eq_lit [simp]: "[] = lit a \<longleftrightarrow> a = []"
  by (auto simp: lit_def)

lemma lit_append: "lit (a @ b) = lit a @ lit b"
  by (simp add: lit_def)

section \<open>Lists\<close>

text \<open>Splitting a list at the first element that fails a test.\<close>

lemma takeWhile_append_stop:
  assumes "\<forall>x\<in>set xs. P x" and "\<not> P y"
  shows "takeWhile P (xs @ y # ys) = xs" "dropWhile P (xs @ y # ys) = y # ys"
  using assms by (induction xs) auto

lemma takeWhile_all: "\<forall>x\<in>set xs. P x \<Longrightarrow> takeWhile P xs = xs"
  by (simp add: takeWhile_eq_all_conv)

lemma dropWhile_all: "\<forall>x\<in>set xs. P x \<Longrightarrow> dropWhile P xs = []"
  by simp

lemma length_dropWhile_less: "xs \<noteq> [] \<Longrightarrow> P (hd xs) \<Longrightarrow> length (dropWhile P xs) < length xs"
  by (cases xs) (auto intro: le_imp_less_Suc length_dropWhile_le)

lemma filter_cong_set: "(\<And>x. x \<in> set xs \<Longrightarrow> P x = Q x) \<Longrightarrow> filter P xs = filter Q xs"
  by (rule filter_cong) auto

lemma count_list_append_one [simp]:
  "count_list (xs @ [y]) x = count_list xs x + (if y = x then 1 else 0)"
  by simp

text \<open>Selecting and reading the same of two lists that correspond entry by entry.\<close>

lemma list_all2_filter_map:
  assumes "list_all2 R xs ys" and "\<And>x y. x \<in> set xs \<Longrightarrow> R x y \<Longrightarrow> Q y = P x \<and> (P x \<longrightarrow> g y = f x)"
  shows "map g (filter Q ys) = map f (filter P xs)"
  using assms
proof (induction rule: list_all2_induct)
  case (Cons x xs y ys)
  from Cons.prems [of x y] Cons.hyps(1) have "Q y = P x \<and> (P x \<longrightarrow> g y = f x)" by simp
  moreover have "map g (filter Q ys) = map f (filter P xs)"
    by (rule Cons.IH) (use Cons.prems in auto)
  ultimately show ?case by simp
qed simp

lemma list_all2_snoc: "list_all2 R (xs @ [x]) (ys @ [y]) \<longleftrightarrow> list_all2 R xs ys \<and> R x y"
  by (auto simp: list_all2_conv_all_nth nth_append less_Suc_eq)

text \<open>Concatenating a list of queues, one of which loses its head or is added.\<close>

lemma mset_concat_update:
  assumes "i < length qs" and "qs ! i = e # q"
  shows "mset (concat qs) = add_mset e (mset (concat (qs[i := q])))"
proof -
  from assms(1) have "qs = take i qs @ qs ! i # drop (Suc i) qs"
    by (rule id_take_nth_drop)
  then have "concat qs = concat (take i qs) @ (qs ! i) @ concat (drop (Suc i) qs)"
    by (metis concat.simps(2) concat_append)
  moreover have "concat (qs[i := q]) = concat (take i qs) @ q @ concat (drop (Suc i) qs)"
    using assms(1) by (simp add: upd_conv_take_nth_drop)
  ultimately show ?thesis
    using assms(2) by simp
qed

section \<open>Options\<close>

definition or_else :: "'a option \<Rightarrow> 'a option \<Rightarrow> 'a option" where
  "or_else a b = (case a of Some x \<Rightarrow> Some x | None \<Rightarrow> b)"

definition unwrap_or :: "'a option \<Rightarrow> 'a \<Rightarrow> 'a" where
  "unwrap_or a d = (case a of Some x \<Rightarrow> x | None \<Rightarrow> d)"

definition filter_opt :: "('a \<Rightarrow> bool) \<Rightarrow> 'a option \<Rightarrow> 'a option" where
  "filter_opt P a = (case a of Some x \<Rightarrow> if P x then Some x else None | None \<Rightarrow> None)"

lemma or_else_simps [simp]:
  "or_else (Some x) b = Some x" "or_else None b = b" "or_else a None = a"
  by (auto simp: or_else_def split: option.split)

lemma unwrap_or_simps [simp]: "unwrap_or (Some x) d = x" "unwrap_or None d = d"
  by (auto simp: unwrap_or_def)

lemma filter_opt_simps [simp]:
  "filter_opt P None = None" "filter_opt P (Some x) = (if P x then Some x else None)"
  by (auto simp: filter_opt_def)

lemma filter_opt_eq_Some: "filter_opt P a = Some x \<longleftrightarrow> a = Some x \<and> P x"
  by (auto simp: filter_opt_def split: option.split if_splits)

section \<open>Results\<close>

text \<open>A Rust \<open>Result\<close> is a sum, \<open>Inl\<close> the error; \<open>?\<close> is \<open>bind_res\<close>.\<close>

definition bind_res :: "'e + 'a \<Rightarrow> ('a \<Rightarrow> 'e + 'b) \<Rightarrow> 'e + 'b" where
  "bind_res r f = (case r of Inl e \<Rightarrow> Inl e | Inr a \<Rightarrow> f a)"

definition ok_or :: "'e \<Rightarrow> 'a option \<Rightarrow> 'e + 'a" where
  "ok_or e a = (case a of None \<Rightarrow> Inl e | Some x \<Rightarrow> Inr x)"

definition map_err :: "('e \<Rightarrow> 'f) \<Rightarrow> 'e + 'a \<Rightarrow> 'f + 'a" where
  "map_err f r = (case r of Inl e \<Rightarrow> Inl (f e) | Inr a \<Rightarrow> Inr a)"

lemma bind_res_simps [simp]: "bind_res (Inl e) f = Inl e" "bind_res (Inr a) f = f a"
  by (simp_all add: bind_res_def)

lemma bind_res_Inr: "bind_res r f = Inr b \<longleftrightarrow> (\<exists>a. r = Inr a \<and> f a = Inr b)"
  by (simp add: bind_res_def split: sum.split)

lemma bind_res_Inl: "bind_res r f = Inl e \<longleftrightarrow> r = Inl e \<or> (\<exists>a. r = Inr a \<and> f a = Inl e)"
  by (auto simp: bind_res_def split: sum.split)

lemma ok_or_simps [simp]: "ok_or e None = Inl e" "ok_or e (Some x) = Inr x"
  by (simp_all add: ok_or_def)

lemma ok_or_Inr: "ok_or e a = Inr x \<longleftrightarrow> a = Some x"
  by (simp add: ok_or_def split: option.split)

lemma map_err_simps [simp]: "map_err f (Inl e) = Inl (f e)" "map_err f (Inr a) = Inr a"
  by (simp_all add: map_err_def)

lemma map_err_Inr: "map_err f r = Inr a \<longleftrightarrow> r = Inr a"
  by (simp add: map_err_def split: sum.split)

text \<open>Collecting a list of results: the first error, or all the values.\<close>

fun collect_res :: "('e + 'a) list \<Rightarrow> 'e + 'a list" where
  "collect_res [] = Inr []"
| "collect_res (Inl e # rs) = Inl e"
| "collect_res (Inr a # rs) = bind_res (collect_res rs) (\<lambda>as. Inr (a # as))"

lemma collect_res_Inr: "collect_res rs = Inr as \<longleftrightarrow> rs = map Inr as"
  by (induction rs arbitrary: "as" rule: collect_res.induct) (auto simp: bind_res_Inr)

section \<open>Machines\<close>

text \<open>A machine takes inputs one after the other and answers each.\<close>

fun run_machine :: "('s \<Rightarrow> 'i \<Rightarrow> 's \<times> 'o) \<Rightarrow> 's \<Rightarrow> 'i list \<Rightarrow> 's \<times> 'o list" where
  "run_machine step s [] = (s, [])"
| "run_machine step s (i # is) =
     (let (s', x) = step s i; (s'', xs) = run_machine step s' is in (s'', x # xs))"

text \<open>
  One machine does what another does, its state related to the other's, as long as the other's
  answers are all \<open>ok\<close>.
\<close>

locale simulation =
  fixes step :: "'s \<Rightarrow> 'i \<Rightarrow> 's \<times> 'o" and spec :: "'t \<Rightarrow> 'i \<Rightarrow> 't \<times> 'o"
    and related :: "'s \<Rightarrow> 't \<Rightarrow> bool" and ok :: "'o \<Rightarrow> bool"
  assumes simulates: "related s t \<Longrightarrow> ok (snd (spec t i))
    \<Longrightarrow> snd (step s i) = snd (spec t i) \<and> related (fst (step s i)) (fst (spec t i))"
begin

lemma run_simulates:
  "related s t \<Longrightarrow> \<forall>x\<in>set (snd (run_machine spec t is)). ok x
    \<Longrightarrow> snd (run_machine step s is) = snd (run_machine spec t is)
      \<and> related (fst (run_machine step s is)) (fst (run_machine spec t is))"
proof (induction "is" arbitrary: s t)
  case (Cons i "is")
  have "ok (snd (spec t i))" using Cons.prems(2) by (simp add: case_prod_beta Let_def)
  from simulates [OF Cons.prems(1) this] Cons show ?case by (simp add: case_prod_beta Let_def)
qed simp

end

end
