(* ===== verification/RustStr.thy ===== *)
theory RustStr
  imports Prelude
begin

text \<open>
  The string operations of Rust's standard library that the program calls, on lists of code
  points: character classes, trimming, splitting, searching, and the decimal and hexadecimal
  forms of unsigned integers with their parser.
\<close>

section \<open>Character classes\<close>

text \<open>\<open>char::is_whitespace\<close>: the Unicode property \<open>White_Space\<close>.\<close>

definition is_whitespace :: "rchar \<Rightarrow> bool" where
  "is_whitespace c \<longleftrightarrow> 9 \<le> c \<and> c \<le> 13 \<or> c = 32 \<or> c = 133 \<or> c = 160 \<or> c = 5760
     \<or> 8192 \<le> c \<and> c \<le> 8202 \<or> c = 8232 \<or> c = 8233 \<or> c = 8239 \<or> c = 8287 \<or> c = 12288"

text \<open>\<open>char::is_control\<close>: the general category \<open>Cc\<close>.\<close>

definition is_control :: "rchar \<Rightarrow> bool" where
  "is_control c \<longleftrightarrow> c \<le> 31 \<or> 127 \<le> c \<and> c \<le> 159"

definition is_digit :: "rchar \<Rightarrow> bool" where
  "is_digit c \<longleftrightarrow> 48 \<le> c \<and> c \<le> 57"

section \<open>Trimming, searching, splitting\<close>

definition trim_end_by :: "(rchar \<Rightarrow> bool) \<Rightarrow> rstring \<Rightarrow> rstring" where
  "trim_end_by P s = rev (dropWhile P (rev s))"

definition trim_by :: "(rchar \<Rightarrow> bool) \<Rightarrow> rstring \<Rightarrow> rstring" where
  "trim_by P s = trim_end_by P (dropWhile P s)"

definition trim :: "rstring \<Rightarrow> rstring" where
  "trim s = trim_by is_whitespace s"

definition trim_matches :: "rchar \<Rightarrow> rstring \<Rightarrow> rstring" where
  "trim_matches c s = trim_by (\<lambda>x. x = c) s"

fun starts_with :: "rstring \<Rightarrow> rstring \<Rightarrow> bool" where
  "starts_with s [] = True"
| "starts_with [] (p # ps) = False"
| "starts_with (c # s) (p # ps) = (c = p \<and> starts_with s ps)"

fun contains :: "rstring \<Rightarrow> rstring \<Rightarrow> bool" where
  "contains [] p = (p = [])"
| "contains (c # s) p = (starts_with (c # s) p \<or> contains s p)"

text \<open>\<open>str::split_whitespace\<close>: the maximal runs of non-whitespace characters.\<close>

function split_whitespace :: "rstring \<Rightarrow> rstring list" where
  "split_whitespace s =
     (case dropWhile is_whitespace s of
        [] \<Rightarrow> []
      | c # t \<Rightarrow> (c # takeWhile (\<lambda>x. \<not> is_whitespace x) t)
                 # split_whitespace (dropWhile (\<lambda>x. \<not> is_whitespace x) t))"
  by pat_completeness auto
termination
proof (relation "measure length", goal_cases)
  case 1 then show ?case by simp
next
  case (2 s c t)
  have "length (dropWhile (\<lambda>x. \<not> is_whitespace x) t) \<le> length t"
    by (rule length_dropWhile_le)
  moreover have "length (c # t) \<le> length s"
    using 2 by (metis length_dropWhile_le)
  ultimately show ?case by simp
qed

declare split_whitespace.simps [simp del]

text \<open>\<open>str::rsplit_once\<close> on a character: what precedes and follows its last occurrence.\<close>

definition rsplit_once :: "rchar \<Rightarrow> rstring \<Rightarrow> (rstring \<times> rstring) option" where
  "rsplit_once c s =
     (case dropWhile (\<lambda>x. x \<noteq> c) (rev s) of
        [] \<Rightarrow> None
      | _ # t \<Rightarrow> Some (rev t, rev (takeWhile (\<lambda>x. x \<noteq> c) (rev s))))"

text \<open>\<open>nth\<close> of an iterator: \<open>None\<close> past its end.\<close>

fun nth_opt :: "'a list \<Rightarrow> nat \<Rightarrow> 'a option" where
  "nth_opt [] n = None"
| "nth_opt (x # xs) 0 = Some x"
| "nth_opt (x # xs) (Suc n) = nth_opt xs n"

text \<open>\<open>str::lines\<close>: at each line feed, a carriage return before it dropped.\<close>

definition strip_cr :: "rstring \<Rightarrow> rstring" where
  "strip_cr s = (if s \<noteq> [] \<and> last s = 13 then butlast s else s)"

fun lines_from :: "rstring \<Rightarrow> rstring \<Rightarrow> rstring list" where
  "lines_from acc [] = (if acc = [] then [] else [acc])"
| "lines_from acc (c # s) = (if c = 10 then strip_cr acc # lines_from [] s else lines_from (acc @ [c]) s)"

definition str_lines :: "rstring \<Rightarrow> rstring list" where
  "str_lines s = lines_from [] s"

definition strip_prefix :: "rstring \<Rightarrow> rstring \<Rightarrow> rstring option" where
  "strip_prefix p s = (if starts_with s p then Some (drop (length p) s) else None)"

text \<open>\<open>join\<close> of a list of strings.\<close>

fun join_with :: "rstring \<Rightarrow> rstring list \<Rightarrow> rstring" where
  "join_with sep [] = []"
| "join_with sep [s] = s"
| "join_with sep (s # t # ss) = s @ sep @ join_with sep (t # ss)"

lemma starts_with_append [simp]: "starts_with (p @ s) p"
  by (induction p) simp_all

lemma contains_append: "contains (a @ p @ b) p"
proof (induction a)
  case Nil
  show ?case by (cases "p @ b") (use starts_with_append [of p b] in auto)
next
  case (Cons x a)
  then show ?case by simp
qed

lemma nth_opt_nth: "nth_opt xs n = (if n < length xs then Some (xs ! n) else None)"
  by (induction xs n rule: nth_opt.induct) auto

lemma rsplit_once_last:
  assumes "c \<notin> set b"
  shows "rsplit_once c (a @ c # b) = Some (a, b)"
proof -
  have "\<forall>x\<in>set (rev b). x \<noteq> c" using assms by auto
  then show ?thesis
    by (simp add: rsplit_once_def takeWhile_append_stop)
qed

lemma rsplit_once_None: "rsplit_once c s = None \<longleftrightarrow> c \<notin> set s"
proof -
  have "dropWhile (\<lambda>x. x \<noteq> c) (rev s) = [] \<longleftrightarrow> c \<notin> set s"
    by auto
  then show ?thesis
    by (cases "dropWhile (\<lambda>x. x \<noteq> c) (rev s)")
       (simp_all add: rsplit_once_def del: dropWhile_eq_Nil_conv)
qed

subsection \<open>Facts about splitting\<close>

definition word_ok :: "rstring \<Rightarrow> bool" where
  "word_ok w \<longleftrightarrow> w \<noteq> [] \<and> (\<forall>c\<in>set w. \<not> is_whitespace c)"

lemma split_whitespace_Nil [simp]: "split_whitespace [] = []"
  by (simp add: split_whitespace.simps)

lemma split_whitespace_space:
  "is_whitespace c \<Longrightarrow> split_whitespace (c # s) = split_whitespace s"
  by (subst (1 2) split_whitespace.simps) simp

lemma split_whitespace_word:
  assumes "word_ok w"
  shows "split_whitespace w = [w]"
proof -
  obtain c t where w: "w = c # t" "\<not> is_whitespace c" "\<forall>x\<in>set t. \<not> is_whitespace x"
    using assms by (cases w) (auto simp: word_ok_def)
  then show ?thesis
    by (subst split_whitespace.simps) (simp add: takeWhile_all dropWhile_all del: dropWhile_eq_Nil_conv)
qed

lemma split_whitespace_word_sep:
  assumes "word_ok w" and "is_whitespace d"
  shows "split_whitespace (w @ d # s) = w # split_whitespace s"
proof -
  obtain c t where w: "w = c # t" "\<not> is_whitespace c" "\<forall>x\<in>set t. \<not> is_whitespace x"
    using assms(1) by (cases w) (auto simp: word_ok_def)
  have "split_whitespace (w @ d # s) = w # split_whitespace (d # s)"
    using w assms(2)
    by (subst split_whitespace.simps) (simp add: takeWhile_append_stop)
  then show ?thesis
    using assms(2) by (simp add: split_whitespace_space)
qed

text \<open>Words joined by single spaces split back into themselves.\<close>

fun join_sp :: "rstring list \<Rightarrow> rstring" where
  "join_sp [] = []"
| "join_sp [w] = w"
| "join_sp (w # v # ws) = w @ 32 # join_sp (v # ws)"

lemma is_whitespace_32 [simp]: "is_whitespace 32"
  by (simp add: is_whitespace_def)

lemma split_whitespace_join:
  "\<forall>w\<in>set ws. word_ok w \<Longrightarrow> split_whitespace (join_sp ws) = ws"
  by (induction ws rule: join_sp.induct)
     (auto simp: split_whitespace_word split_whitespace_word_sep)

text \<open>Also with whitespace behind the last one, as a line of a file ends.\<close>

lemma split_whitespace_blank: "\<forall>c\<in>set e. is_whitespace c \<Longrightarrow> split_whitespace e = []"
  by (induction e) (simp_all add: split_whitespace_space)

lemma split_whitespace_join_end:
  assumes "\<forall>w\<in>set ws. word_ok w" and "\<forall>c\<in>set e. is_whitespace c"
  shows "split_whitespace (join_sp ws @ e) = ws"
proof (cases e)
  case Nil
  then show ?thesis using assms(1) by (simp add: split_whitespace_join)
next
  case (Cons d e')
  then have "split_whitespace (w @ e) = [w]" if "word_ok w" for w
    using split_whitespace_word_sep [OF that, of d e'] split_whitespace_blank [of e'] assms(2) by simp
  then show ?thesis
    using assms(1)
    by (induction ws rule: join_sp.induct)
       (auto simp: split_whitespace_blank [OF assms(2)] split_whitespace_word_sep)
qed

lemma dropWhile_eq_ConsD: "dropWhile P xs = y # ys \<Longrightarrow> \<not> P y"
  by (induction xs) (auto split: if_splits)

lemma split_whitespace_words: "w \<in> set (split_whitespace s) \<Longrightarrow> word_ok w"
proof (induction s rule: split_whitespace.induct)
  case (1 s)
  show ?case
  proof (cases "dropWhile is_whitespace s")
    case Nil
    with "1.prems" have False
      by (subst (asm) split_whitespace.simps) (simp del: dropWhile_eq_Nil_conv)
    then show ?thesis ..
  next
    case (Cons c t)
    have "word_ok (c # takeWhile (\<lambda>x. \<not> is_whitespace x) t)"
      using dropWhile_eq_ConsD [OF Cons] by (auto simp: word_ok_def dest: set_takeWhileD)
    moreover have "w = c # takeWhile (\<lambda>x. \<not> is_whitespace x) t
        \<or> w \<in> set (split_whitespace (dropWhile (\<lambda>x. \<not> is_whitespace x) t))"
      using "1.prems" Cons by (subst (asm) split_whitespace.simps) simp
    ultimately show ?thesis
      using "1.IH" [OF Cons] by blast
  qed
qed

section \<open>Decimal and hexadecimal numbers\<close>

fun digits :: "nat \<Rightarrow> nat \<Rightarrow> nat list" where
  "digits b n = (if b < 2 \<or> n < b then [n] else digits b (n div b) @ [n mod b])"

declare digits.simps [simp del]

text \<open>The decimal form of an unsigned integer (\<open>Display\<close>).\<close>

definition dec :: "nat \<Rightarrow> rstring" where
  "dec n = map (\<lambda>d. 48 + d) (digits 10 n)"

text \<open>The lower-case hexadecimal form (\<open>{:x}\<close>).\<close>

definition hex_digit :: "nat \<Rightarrow> rchar" where
  "hex_digit d = (if d < 10 then 48 + d else 87 + d)"

definition hex :: "nat \<Rightarrow> rstring" where
  "hex n = map hex_digit (digits 16 n)"

definition value_of :: "nat \<Rightarrow> nat list \<Rightarrow> nat" where
  "value_of b ds = foldl (\<lambda>a d. a * b + d) 0 ds"

lemma digits_value: "value_of b (digits b n) = n"
proof (induction b n rule: digits.induct)
  case (1 b n)
  then show ?case
    by (subst digits.simps) (auto simp: value_of_def)
qed

lemma digits_bound: "2 \<le> b \<Longrightarrow> d \<in> set (digits b n) \<Longrightarrow> d < b"
proof (induction b n rule: digits.induct)
  case (1 b n)
  show ?case
  proof (cases "n < b")
    case True
    with "1.prems" show ?thesis by (subst (asm) digits.simps) simp
  next
    case False
    from False "1.prems" have "d \<in> set (digits b (n div b)) \<or> d = n mod b"
      by (subst (asm) digits.simps) auto
    with False "1.prems" "1.IH" show ?thesis by auto
  qed
qed

lemma digits_nonempty [simp]: "digits b n \<noteq> []"
  by (subst digits.simps) simp

lemma dec_nonempty [simp]: "dec n \<noteq> []"
  by (simp add: dec_def)

lemma dec_digits: "c \<in> set (dec n) \<Longrightarrow> is_digit c"
  using digits_bound [of 10] by (force simp: dec_def is_digit_def)

lemma dec_value: "value_of 10 (map (\<lambda>c. c - 48) (dec n)) = n"
  by (simp add: dec_def o_def digits_value)

text \<open>
  \<open>u64::from_str\<close>: an optional \<open>+\<close>, then at least one ASCII digit and nothing
  else; a value of \<open>2 ^ 64\<close> or more is an error.
\<close>

definition parse_u64 :: "rstring \<Rightarrow> u64 option" where
  "parse_u64 s =
     (let ds = (case s of [] \<Rightarrow> [] | c # t \<Rightarrow> if c = 43 then t else s);
          n = value_of 10 (map (\<lambda>c. c - 48) ds)
      in if ds = [] \<or> \<not> list_all is_digit ds \<or> 2 ^ 64 \<le> n then None
         else Some (of_nat n))"

lemma dec_hd_digit: "\<exists>c t. dec n = c # t \<and> is_digit c"
  using dec_digits [of "hd (dec n)" n] by (cases "dec n") (auto simp: dec_nonempty)

lemma parse_u64_dec: "n < 2 ^ 64 \<Longrightarrow> parse_u64 (dec n) = Some (of_nat n)"
proof -
  assume n: "n < 2 ^ 64"
  obtain c t where c: "dec n = c # t" "is_digit c"
    using dec_hd_digit by blast
  then have "c \<noteq> 43" by (auto simp: is_digit_def)
  moreover have "list_all is_digit (dec n)"
    using dec_digits by (auto simp: list_all_iff)
  ultimately show ?thesis
    using n c dec_value [of n] by (auto simp: parse_u64_def Let_def)
qed

lemma parse_u64_dec_overflow: "2 ^ 64 \<le> n \<Longrightarrow> parse_u64 (dec n) = None"
proof -
  assume n: "2 ^ 64 \<le> n"
  obtain c t where c: "dec n = c # t" "is_digit c"
    using dec_hd_digit by blast
  then have "c \<noteq> 43" by (auto simp: is_digit_def)
  then show ?thesis
    using n c dec_value [of n] by (auto simp: parse_u64_def Let_def)
qed

lemma digit_not_space: "is_digit c \<Longrightarrow> \<not> is_whitespace c"
  by (auto simp: is_digit_def is_whitespace_def)

lemma word_ok_dec [simp]: "word_ok (dec n)"
  using dec_digits digit_not_space by (auto simp: word_ok_def)

end
