(* ===== verification/RustTime.thy ===== *)
theory RustTime
  imports RustStr
begin

text \<open>
  Clocks and durations. A \<open>Duration\<close> is its number of nanoseconds, bounded by
  \<open>dur_max\<close>; an \<open>Instant\<close> and a \<open>SystemTime\<close> are signed nanoseconds on
  the monotonic and on the wall clock (on Linux both hold a signed 64-bit number of seconds).
  The subtractions of the source that can fail return an option. An addition past the
  upper end of a clock, 292 billion years on, panics in Rust; here it is exact.
\<close>

type_synonym duration = nat
type_synonym instant = int
type_synonym systime = int

definition dur_max :: duration where
  "dur_max = (2 ^ 64 - 1) * 10 ^ 9 + 999999999"

definition clock_min :: int where
  "clock_min = - (2 ^ 63 * 10 ^ 9)"

definition from_secs :: "nat \<Rightarrow> duration" where
  "from_secs s = s * 10 ^ 9"

definition from_millis :: "u64 \<Rightarrow> duration" where
  "from_millis ms = unat ms * 10 ^ 6"

definition as_millis :: "duration \<Rightarrow> nat" where
  "as_millis d = d div 10 ^ 6"

definition dur_checked_sub :: "duration \<Rightarrow> duration \<Rightarrow> duration option" where
  "dur_checked_sub a b = (if b \<le> a then Some (a - b) else None)"

text \<open>\<open>Instant::saturating_duration_since\<close>: zero when the argument is later.\<close>

definition saturating_duration_since :: "instant \<Rightarrow> instant \<Rightarrow> duration" where
  "saturating_duration_since a b = nat (a - b)"

text \<open>\<open>checked_sub\<close> of an \<open>Instant\<close> or a \<open>SystemTime\<close>.\<close>

definition clock_checked_sub :: "int \<Rightarrow> duration \<Rightarrow> int option" where
  "clock_checked_sub t d = (if clock_min \<le> t - int d then Some (t - int d) else None)"

definition u64_checked_mul :: "u64 \<Rightarrow> u64 \<Rightarrow> u64 option" where
  "u64_checked_mul a b = (if unat a * unat b < 2 ^ 64 then Some (a * b) else None)"

lemma u64_checked_mul_Some [std_simps]:
  "u64_checked_mul a b = Some c \<longleftrightarrow> unat a * unat b < 2 ^ 64 \<and> c = a * b"
  by (auto simp: u64_checked_mul_def)

lemma unat_of_nat_u64: "n < 2 ^ 64 \<Longrightarrow> unat (of_nat n :: u64) = n"
  by (simp add: unat_of_nat take_bit_nat_eq_self)

lemma saturating_duration_since_le [simp]: "a \<le> b \<Longrightarrow> saturating_duration_since a b = 0"
  by (simp add: saturating_duration_since_def)

lemma int_saturating_duration_since:
  "b \<le> a \<Longrightarrow> int (saturating_duration_since a b) = a - b"
  by (simp add: saturating_duration_since_def)

end
