(* ===== verification/LogFmt.thy ===== *)
theory LogFmt
  imports RustTime
begin

text \<open>
  The \<open>logfmt\<close> lines of \<open>src/src/boot.rs\<close>: outcomes and origins as text,
  saturating milliseconds, the quoting of values (\<open>push_value\<close>), the phase line and
  the ready line. The abstract specification is a reader of such lines; the theorems say
  that it gives every field back, whatever characters a phase or service name holds.
\<close>

section \<open>The code\<close>

datatype outcome = Ok | Failed

definition outcome_str :: "outcome \<Rightarrow> rstring" where
  "outcome_str o' = (case o' of Ok \<Rightarrow> lit ''ok'' | Failed \<Rightarrow> lit ''failed'')"

datatype origin = ProcessStart | FirstUse

definition origin_str :: "origin \<Rightarrow> rstring" where
  "origin_str o' = (case o' of ProcessStart \<Rightarrow> lit ''process_start'' | FirstUse \<Rightarrow> lit ''first_use'')"

text \<open>Whole milliseconds, saturating at the width of the result.\<close>

definition millis :: "duration \<Rightarrow> u64" where
  "millis d = (if as_millis d < 2 ^ 64 then of_nat (as_millis d) else - 1)"

definition millis_i64 :: "duration \<Rightarrow> i64" where
  "millis_i64 d = (if as_millis d < 2 ^ 63 then of_nat (as_millis d) else 2 ^ 63 - 1)"

definition bare :: "rstring \<Rightarrow> bool" where
  "bare value \<longleftrightarrow> value \<noteq> [] \<and>
     (\<forall>c\<in>set value. \<not> is_whitespace c \<and> \<not> is_control c \<and> c \<noteq> 34 \<and> c \<noteq> 61 \<and> c \<noteq> 92)"

definition push_char :: "rstring \<Rightarrow> rchar \<Rightarrow> rstring" where
  "push_char out c =
     (if c = 34 then out @ [92, 34]
      else if c = 92 then out @ [92, 92]
      else if c = 10 then out @ [92, 110]
      else if is_control c then out @ [92, 117, 123] @ hex c @ [125]
      else out @ [c])"

definition push_value :: "rstring \<Rightarrow> rstring \<Rightarrow> rstring" where
  "push_value out value =
     (if bare value then out @ value
      else foldl push_char (out @ [34]) value @ [34])"

definition line :: "rstring \<Rightarrow> outcome \<Rightarrow> duration \<Rightarrow> duration \<Rightarrow> rstring \<Rightarrow> rstring" where
  "line name o' took at service =
     (let out = push_value (lit ''boot phase='') name;
          out = out @ lit '' outcome='' @ outcome_str o' @ lit '' took_ms='' @ dec (unat (millis took))
                @ lit '' at_ms='' @ dec (unat (millis at)) @ lit '' service=''
      in push_value out service)"

definition READY :: rstring where
  "READY = lit ''ready''"

definition ready_line :: "duration \<Rightarrow> origin \<Rightarrow> rstring \<Rightarrow> rstring" where
  "ready_line at org service =
     (let ms = dec (unat (millis at));
          out = lit ''boot phase='' @ READY @ lit '' outcome=ok took_ms='' @ ms @ lit '' at_ms='' @ ms
                @ lit '' origin='' @ origin_str org @ lit '' service=''
      in push_value out service)"

section \<open>The specification: reading a line back\<close>

definition unhex_digit :: "rchar \<Rightarrow> nat" where
  "unhex_digit c = (if c < 97 then c - 48 else c - 87)"

definition unhex :: "rstring \<Rightarrow> nat" where
  "unhex s = value_of 16 (map unhex_digit s)"

text \<open>The rest of a quoted value: its text and what follows the closing quote.\<close>

function read_quoted :: "rstring \<Rightarrow> (rstring \<times> rstring) option" where
  "read_quoted s =
     (case s of
        [] \<Rightarrow> None
      | c # t \<Rightarrow>
         if c = 34 then Some ([], t)
         else if c \<noteq> 92 then map_option (apfst (Cons c)) (read_quoted t)
         else (case t of
             [] \<Rightarrow> None
           | d # u \<Rightarrow>
              if d = 110 then map_option (apfst (Cons 10)) (read_quoted u)
              else if d \<noteq> 117 then map_option (apfst (Cons d)) (read_quoted u)
              else map_option (apfst (Cons (unhex (takeWhile (\<lambda>x. x \<noteq> 125) (drop 1 u)))))
                     (read_quoted (drop 1 (dropWhile (\<lambda>x. x \<noteq> 125) (drop 1 u))))))"
  by pat_completeness auto
termination
proof (relation "measure length", goal_cases)
  case (5 s c t d u)
  have "length (dropWhile (\<lambda>x. x \<noteq> 125) (drop 1 u)) \<le> length (drop 1 u)"
    by (rule length_dropWhile_le)
  with 5 show ?case by simp
qed auto

declare read_quoted.simps [simp del]

definition read_value :: "rstring \<Rightarrow> (rstring \<times> rstring) option" where
  "read_value s =
     (case s of
        [] \<Rightarrow> Some ([], [])
      | c # t \<Rightarrow> if c = 34 then read_quoted t
                else Some (takeWhile (\<lambda>x. x \<noteq> 32) s, dropWhile (\<lambda>x. x \<noteq> 32) s))"

text \<open>The fields \<open>key=value\<close> of a line, separated by single spaces; fuel bounds their number.\<close>

fun read_fields :: "nat \<Rightarrow> rstring \<Rightarrow> (rstring \<times> rstring) list option" where
  "read_fields 0 s = None"
| "read_fields (Suc n) s =
     (case dropWhile (\<lambda>x. x \<noteq> 61) s of
        [] \<Rightarrow> None
      | _ # t \<Rightarrow>
         (case read_value t of
            None \<Rightarrow> None
          | Some (v, []) \<Rightarrow> Some [(takeWhile (\<lambda>x. x \<noteq> 61) s, v)]
          | Some (v, _ # r) \<Rightarrow>
              map_option (Cons (takeWhile (\<lambda>x. x \<noteq> 61) s, v)) (read_fields n r)))"

definition read_line :: "rstring \<Rightarrow> (rstring \<times> rstring) list option" where
  "read_line s = (if starts_with s (lit ''boot '') then read_fields (length s) (drop 5 s) else None)"

section \<open>Quoting and reading one value\<close>

definition escape :: "rchar \<Rightarrow> rstring" where
  "escape c = push_char [] c"

definition fmt_value :: "rstring \<Rightarrow> rstring" where
  "fmt_value v = push_value [] v"

lemma push_char_escape: "push_char out c = out @ escape c"
  by (simp add: push_char_def escape_def)

lemma foldl_push_char: "foldl push_char out v = out @ concat (map escape v)"
  by (induction v arbitrary: out) (simp_all add: push_char_escape)

lemma push_value_fmt: "push_value out v = out @ fmt_value v"
  by (simp add: push_value_def fmt_value_def foldl_push_char)

lemma fmt_value_bare: "bare v \<Longrightarrow> fmt_value v = v"
  by (simp add: fmt_value_def push_value_def)

lemma fmt_value_quoted: "\<not> bare v \<Longrightarrow> fmt_value v = 34 # concat (map escape v) @ [34]"
  by (simp add: fmt_value_def push_value_def foldl_push_char)

lemma unhex_hex: "unhex (hex n) = n"
proof -
  have "map (unhex_digit \<circ> hex_digit) (digits 16 n) = digits 16 n"
    using digits_bound [of 16 _ n]
    by (intro map_idI) (auto simp: unhex_digit_def hex_digit_def)
  then show ?thesis
    by (simp add: unhex_def hex_def digits_value)
qed

lemma hex_chars: "c \<in> set (hex n) \<Longrightarrow> 48 \<le> c \<and> c \<le> 102"
  using digits_bound [of 16 _ n] by (fastforce simp: hex_def hex_digit_def)

lemma read_quoted_escape:
  "read_quoted (escape c @ s) = map_option (apfst (Cons c)) (read_quoted s)"
proof -
  have hex_stop: "takeWhile (\<lambda>x. x \<noteq> 125) (hex c @ 125 # s) = hex c"
    "dropWhile (\<lambda>x. x \<noteq> 125) (hex c @ 125 # s) = 125 # s"
    using hex_chars [of 125 c] by (auto intro!: takeWhile_append_stop)
  consider "c = 34" | "c = 92" | "c = 10" | "is_control c" "c \<noteq> 34" "c \<noteq> 92" "c \<noteq> 10"
    | "\<not> is_control c" "c \<noteq> 34" "c \<noteq> 92" "c \<noteq> 10" by blast
  then show ?thesis
    by cases
       (simp_all add: escape_def push_char_def read_quoted.simps [of "_ # _"] hex_stop unhex_hex)
qed

lemma read_quoted_text:
  "read_quoted (concat (map escape v) @ 34 # rest) = Some (v, rest)"
  by (induction v) (simp_all add: read_quoted_escape read_quoted.simps [of "34 # _"])

definition ends_value :: "rstring \<Rightarrow> bool" where
  "ends_value rest \<longleftrightarrow> rest = [] \<or> (\<exists>r. rest = 32 # r)"

lemma bare_no_space: "bare v \<Longrightarrow> \<forall>c\<in>set v. c \<noteq> 32"
  unfolding bare_def by (metis is_whitespace_32)

lemma read_value_fmt:
  assumes "ends_value rest"
  shows "read_value (fmt_value v @ rest) = Some (v, rest)"
proof (cases "bare v")
  case True
  then obtain c t where v: "v = c # t" "c \<noteq> 34" by (cases v) (auto simp: bare_def)
  have "takeWhile (\<lambda>x. x \<noteq> 32) (v @ rest) = v" "dropWhile (\<lambda>x. x \<noteq> 32) (v @ rest) = rest"
    using bare_no_space [OF True] assms by (auto simp: ends_value_def takeWhile_append_stop)
  then show ?thesis
    unfolding fmt_value_bare [OF True] by (simp add: read_value_def v)
next
  case False
  then show ?thesis
    by (simp add: read_value_def fmt_value_quoted read_quoted_text)
qed

section \<open>Whole lines\<close>

fun fmt_fields :: "(rstring \<times> rstring) list \<Rightarrow> rstring" where
  "fmt_fields [] = []"
| "fmt_fields [(k, v)] = k @ 61 # fmt_value v"
| "fmt_fields ((k, v) # kv # kvs) = k @ 61 # fmt_value v @ 32 # fmt_fields (kv # kvs)"

lemma read_fields_fmt:
  assumes "kvs \<noteq> []" and "\<forall>(k, v)\<in>set kvs. 61 \<notin> set k" and "length kvs \<le> n"
  shows "read_fields n (fmt_fields kvs) = Some kvs"
  using assms
proof (induction kvs arbitrary: n rule: fmt_fields.induct)
  case 1
  then show ?case by simp
next
  case (2 k v)
  then obtain m where n: "n = Suc m" by (cases n) auto
  from 2 have "\<forall>x\<in>set k. x \<noteq> 61" by auto
  then show ?case
    using read_value_fmt [of "[]" v] by (simp add: n takeWhile_append_stop ends_value_def)
next
  case (3 k v kv kvs)
  then obtain m where n: "n = Suc m" by (cases n) auto
  from 3 have "\<forall>x\<in>set k. x \<noteq> 61" by auto
  moreover have "read_fields m (fmt_fields (kv # kvs)) = Some (kv # kvs)"
    using 3 n by auto
  ultimately show ?case
    using read_value_fmt [of "32 # fmt_fields (kv # kvs)" v]
    by (simp add: n takeWhile_append_stop ends_value_def)
qed

lemma bare_dec [simp]: "bare (dec n)"
  using dec_digits [of _ n]
  by (fastforce simp: bare_def is_digit_def is_whitespace_def is_control_def)

lemma bare_outcome [simp]: "bare (outcome_str o')"
  by (cases o') (auto simp: outcome_str_def lit_def bare_def is_whitespace_def is_control_def)

lemma bare_origin [simp]: "bare (origin_str o')"
  by (cases o') (auto simp: origin_str_def lit_def bare_def is_whitespace_def is_control_def)

lemma bare_READY [simp]: "bare READY"
  by (auto simp: READY_def lit_def bare_def is_whitespace_def is_control_def)

definition line_fields :: "rstring \<Rightarrow> outcome \<Rightarrow> duration \<Rightarrow> duration \<Rightarrow> rstring \<Rightarrow> (rstring \<times> rstring) list" where
  "line_fields name o' took at service =
     [(lit ''phase'', name), (lit ''outcome'', outcome_str o'), (lit ''took_ms'', dec (unat (millis took))),
      (lit ''at_ms'', dec (unat (millis at))), (lit ''service'', service)]"

definition ready_fields :: "duration \<Rightarrow> origin \<Rightarrow> rstring \<Rightarrow> (rstring \<times> rstring) list" where
  "ready_fields at org service =
     [(lit ''phase'', READY), (lit ''outcome'', lit ''ok''), (lit ''took_ms'', dec (unat (millis at))),
      (lit ''at_ms'', dec (unat (millis at))), (lit ''origin'', origin_str org), (lit ''service'', service)]"

lemma line_fmt: "line name o' took at service = lit ''boot '' @ fmt_fields (line_fields name o' took at service)"
  by (simp add: line_def Let_def push_value_fmt line_fields_def fmt_value_bare lit_def)

lemma bare_ok [simp]: "bare (lit ''ok'')"
  using bare_outcome [of Ok] by (simp add: outcome_str_def)

lemma ready_line_fmt: "ready_line at org service = lit ''boot '' @ fmt_fields (ready_fields at org service)"
  using fmt_value_bare [OF bare_ok]
  by (simp add: ready_line_def Let_def push_value_fmt ready_fields_def fmt_value_bare lit_def)

lemma read_line_boot:
  assumes "kvs \<noteq> []" and "\<forall>(k, v)\<in>set kvs. 61 \<notin> set k" and "length kvs \<le> length (fmt_fields kvs)"
  shows "read_line (lit ''boot '' @ fmt_fields kvs) = Some kvs"
  using read_fields_fmt [OF assms(1,2), of "length (lit ''boot '' @ fmt_fields kvs)"] assms(3)
  by (simp add: read_line_def lit_def)

lemma length_fmt_fields: "length kvs \<le> length (fmt_fields kvs)"
  by (induction kvs rule: fmt_fields.induct) auto

lemma parse_u64_millis: "parse_u64 (dec (unat (millis d))) = Some (millis d)"
  using parse_u64_dec [of "unat (millis d)"] unsigned_less [of "millis d"] by simp

lemma read_line_line: "read_line (line name o' took at service) = Some (line_fields name o' took at service)"
  unfolding line_fmt
  by (rule read_line_boot [OF _ _ length_fmt_fields]) (auto simp: line_fields_def lit_def)

lemma read_line_ready_line: "read_line (ready_line at org service) = Some (ready_fields at org service)"
  unfolding ready_line_fmt
  by (rule read_line_boot [OF _ _ length_fmt_fields]) (auto simp: ready_fields_def lit_def)

section \<open>No control characters\<close>

lemma hex_no_control: "c \<in> set (hex n) \<Longrightarrow> \<not> is_control c"
  using hex_chars [of c n] by (auto simp: is_control_def)

lemma escape_no_control: "c \<in> set (escape d) \<Longrightarrow> \<not> is_control c"
  by (auto simp: escape_def push_char_def hex_no_control split: if_splits)
     (auto simp: is_control_def)

lemma fmt_value_no_control: "c \<in> set (fmt_value v) \<Longrightarrow> \<not> is_control c"
proof (cases "bare v")
  case True
  then show "c \<in> set (fmt_value v) \<Longrightarrow> \<not> is_control c"
    by (simp add: fmt_value_bare bare_def)
next
  case False
  then show "c \<in> set (fmt_value v) \<Longrightarrow> \<not> is_control c"
    using escape_no_control by (auto simp: fmt_value_quoted is_control_def)
qed

section \<open>Properties\<close>

lemma ready_line_reads:
  "read_line (ready_line at org service)
     = Some [(lit ''phase'', READY), (lit ''outcome'', lit ''ok''),
             (lit ''took_ms'', dec (unat (millis at))), (lit ''at_ms'', dec (unat (millis at))),
             (lit ''origin'', origin_str org), (lit ''service'', service)]"
  by (simp add: read_line_ready_line ready_fields_def)

lemma ready_line_differs: "ready_line at org service \<noteq> line name o' took at' service'"
  using read_line_ready_line [of at org service] read_line_line [of name o' took at' service']
  by (auto simp: ready_fields_def line_fields_def)

text \<open>
  C1. The lines read back: whatever characters the phase name and the service name hold (spaces,
  quotes, backslashes, equals signs, newlines, control characters), reading a phase line gives
  exactly the five fields the code wrote, and the numbers parse as the milliseconds; reading the
  ready line gives its six, the origin it counted from included; and no phase line, whatever its
  names, can be taken for the ready line.
\<close>

theorem line_reads_back:
  "read_line (line name o' took at service)
     = Some [(lit ''phase'', name), (lit ''outcome'', outcome_str o'),
             (lit ''took_ms'', dec (unat (millis took))), (lit ''at_ms'', dec (unat (millis at))),
             (lit ''service'', service)]
   \<and> parse_u64 (dec (unat (millis took))) = Some (millis took)
   \<and> parse_u64 (dec (unat (millis at))) = Some (millis at)
   \<and> read_line (ready_line at org service')
     = Some [(lit ''phase'', READY), (lit ''outcome'', lit ''ok''),
             (lit ''took_ms'', dec (unat (millis at))), (lit ''at_ms'', dec (unat (millis at))),
             (lit ''origin'', origin_str org), (lit ''service'', service')]
   \<and> ready_line at org service' \<noteq> line name o' took at' service"
  by (simp add: read_line_line line_fields_def parse_u64_millis ready_line_reads ready_line_differs)

text \<open>
  C2. Each of the two lines is one line of text: no control character, so no line break and
  no escape sequence of a terminal, reaches standard error, whatever the names hold.
\<close>

theorem lines_have_no_control:
  "\<not> list_ex is_control (line name o' took at service)
   \<and> \<not> list_ex is_control (ready_line at org service)"
  unfolding line_fmt ready_line_fmt line_fields_def ready_fields_def
  by (simp add: list_ex_iff lit_def) (auto simp: is_control_def dest: fmt_value_no_control)

end
