(* ===== verification/Tracing.thy ===== *)
theory Tracing
  imports RustStr
begin

text \<open>
  What the program sees of the \<open>tracing\<close> library: levels in their order, the metadata
  of a callsite, and the fields of an event or span as the calls their visitor receives.
\<close>

section \<open>Levels\<close>

datatype level = ERROR | WARN | INFO | DEBUG | TRACE

fun verbosity :: "level \<Rightarrow> nat" where
  "verbosity ERROR = 0" | "verbosity WARN = 1" | "verbosity INFO = 2"
| "verbosity DEBUG = 3" | "verbosity TRACE = 4"

lemma verbosity_inject: "verbosity a = verbosity b \<Longrightarrow> a = b"
  by (cases a; cases b) simp_all

text \<open>A more verbose level is greater.\<close>

instantiation level :: linorder
begin

definition less_eq_level :: "level \<Rightarrow> level \<Rightarrow> bool" where
  "a \<le> b \<longleftrightarrow> verbosity a \<le> verbosity b"

definition less_level :: "level \<Rightarrow> level \<Rightarrow> bool" where
  "a < b \<longleftrightarrow> verbosity a < verbosity b"

instance
  by standard (auto simp: less_eq_level_def less_level_def intro: verbosity_inject)

end

lemma level_above_WARN: "WARN < l \<longleftrightarrow> l = INFO \<or> l = DEBUG \<or> l = TRACE"
  by (cases l) (simp_all add: less_level_def)

definition level_str :: "level \<Rightarrow> rstring" where
  "level_str l = (case l of ERROR \<Rightarrow> lit ''ERROR'' | WARN \<Rightarrow> lit ''WARN'' | INFO \<Rightarrow> lit ''INFO''
     | DEBUG \<Rightarrow> lit ''DEBUG'' | TRACE \<Rightarrow> lit ''TRACE'')"

section \<open>Events\<close>

text \<open>
  The typed call a visitor receives for a field; \<open>DebugV\<close> stands for all the values that
  reach it through \<open>record_debug\<close> only. A field also carries the text its value's own
  \<open>Debug\<close> implementation writes, which is what a visitor that does not override the
  typed call sees. The number of a double is its bit pattern.
\<close>

datatype fvalue = StrV rstring | BoolV bool | I64V i64 | F64V u64 | DebugV

record field =
  fd_name :: rstring
  fd_value :: fvalue
  fd_debug :: rstring

text \<open>
  The fields the program's own events have: a value given with \<open>%\<close>, a string given as it is,
  whose \<open>Debug\<close> quotes it (the strings here need no escape), and an unsigned integer, which
  a visitor without a call of its own for it receives through \<open>record_debug\<close>.
\<close>

definition display_field :: "rstring \<Rightarrow> rstring \<Rightarrow> field" where
  "display_field k s = \<lparr>fd_name = k, fd_value = DebugV, fd_debug = s\<rparr>"

definition str_field :: "rstring \<Rightarrow> rstring \<Rightarrow> field" where
  "str_field k s = \<lparr>fd_name = k, fd_value = StrV s, fd_debug = 34 # s @ [34]\<rparr>"

definition u64_field :: "rstring \<Rightarrow> 64 word \<Rightarrow> field" where
  "u64_field k n = \<lparr>fd_name = k, fd_value = DebugV, fd_debug = dec (unat n)\<rparr>"

record metadata =
  md_name :: rstring
  md_target :: rstring
  md_level :: level

record tevent =
  te_meta :: metadata
  te_fields :: "field list"

text \<open>A visitor with a state, run over the fields in order.\<close>

definition visit_fields :: "('v \<Rightarrow> field \<Rightarrow> 'v) \<Rightarrow> 'v \<Rightarrow> field list \<Rightarrow> 'v" where
  "visit_fields visit v fds = foldl visit v fds"

lemma visit_fields_simps [simp]:
  "visit_fields visit v [] = v"
  "visit_fields visit v (f # fds) = visit_fields visit (visit v f) fds"
  "visit_fields visit v (fds @ [f]) = visit (visit_fields visit v fds) f"
  by (simp_all add: visit_fields_def)

end
