(* ===== verification/Boot.thy ===== *)
theory Boot
  imports LogFmt Tracing
begin

text \<open>
  The boot timeline of \<open>src/src/boot.rs\<close>: its state, its operations, each as the section
  it runs under the mutex and the effects it performs after the mutex is released, and the
  step relation of any number of threads calling them, whose invariant is the contract of
  the timeline: a bounded buffer, every phase exported exactly once, one root span.
\<close>

section \<open>Data\<close>

definition MAX_PHASES :: nat where
  "MAX_PHASES = 256"

record phase =
  ph_name :: rstring
  ph_outcome :: outcome
  ph_start :: systime
  ph_end :: systime
  ph_took :: duration
  ph_at :: duration

record recorded =
  rec_phase :: phase
  rec_exported :: bool

text \<open>
  A \<open>Context\<close> holding the root span is identified by what the root was built from, a
  tracer by its provider (a number standing for the \<open>SdkTracerProvider\<close>) and its scope.
\<close>

record exporter =
  ex_provider :: nat
  ex_scope :: rstring
  ex_root_start :: systime
  ex_root_origin :: origin

record bstate =
  bs_service :: "rstring option"
  bs_phases :: "recorded list"
  bs_dropped :: u64
  bs_ready :: "(systime \<times> duration) option"
  bs_exporter :: "exporter option"
  bs_root_ended :: bool

definition bstate_default :: bstate where
  "bstate_default = \<lparr>bs_service = None, bs_phases = [], bs_dropped = 0, bs_ready = None,
     bs_exporter = None, bs_root_ended = False\<rparr>"

record timeline =
  tl_origin :: instant
  tl_source :: origin
  tl_wall :: systime
  tl_state :: bstate

text \<open>
  What the operations do to the outside: standard error, spans, \<open>tracing\<close> events, each with
  its level, target, message and fields.
\<close>

datatype attr_value = VStr rstring | VInt i64

record span =
  sp_name :: rstring
  sp_start :: systime
  sp_end :: systime
  sp_attrs :: "(rstring \<times> attr_value) list"
  sp_error :: "rstring option"

datatype effect =
    Stderr rstring
  | RootStart exporter
  | SpanEnd exporter span
  | RootEnd exporter rstring i64 i64 systime
  | Event level rstring rstring "field list"

section \<open>Creation\<close>

text \<open>
  \<open>starting_at\<close>: \<open>now\<close> is the reading of the monotonic clock, \<open>wall1\<close> and
  \<open>wall2\<close> are the readings of the wall clock by the two calls of \<open>SystemTime::now\<close>.
\<close>

definition starting_at :: "instant \<Rightarrow> origin \<Rightarrow> instant \<Rightarrow> systime \<Rightarrow> systime \<Rightarrow> timeline" where
  "starting_at org source now wall1 wall2 =
     \<lparr>tl_origin = org, tl_source = source,
      tl_wall = unwrap_or (clock_checked_sub wall1 (saturating_duration_since now org)) wall2,
      tl_state = bstate_default\<rparr>"

definition timeline_new :: "instant \<Rightarrow> instant \<Rightarrow> systime \<Rightarrow> systime \<Rightarrow> timeline" where
  "timeline_new now now' wall1 wall2 = starting_at now FirstUse now' wall1 wall2"

text \<open>The initialiser of \<open>Timeline::global\<close>, given the process age.\<close>

definition global_init :: "duration option \<Rightarrow> instant \<Rightarrow> instant \<Rightarrow> systime \<Rightarrow> systime \<Rightarrow> timeline" where
  "global_init age now now' wall1 wall2 =
     (case Option.bind age (clock_checked_sub now) of
        None \<Rightarrow> starting_at now FirstUse now' wall1 wall2
      | Some start \<Rightarrow> starting_at start ProcessStart now' wall1 wall2)"

text \<open>The name used until one is set: the environment's, the executable's stem, a constant.\<close>

definition default_service_name :: "rstring option \<Rightarrow> rstring option \<Rightarrow> rstring" where
  "default_service_name env_name exe_stem =
     unwrap_or (or_else (filter_opt (\<lambda>n. n \<noteq> []) env_name) exe_stem) (lit ''unknown_service'')"

section \<open>Operations\<close>

definition wall :: "timeline \<Rightarrow> instant \<Rightarrow> systime" where
  "wall tm at = tl_wall tm + int (saturating_duration_since at (tl_origin tm))"

definition service_label :: "rstring \<Rightarrow> bstate \<Rightarrow> rstring" where
  "service_label dflt st = unwrap_or (bs_service st) dflt"

text \<open>The exporter and the root span's attributes, exactly once.\<close>

definition take_root_to_end :: "bstate \<Rightarrow> bstate \<times> (exporter \<times> nat \<times> u64) option" where
  "take_root_to_end st =
     (if bs_root_ended st then (st, None)
      else case bs_exporter st of
          None \<Rightarrow> (st, None)
        | Some ex \<Rightarrow> (st\<lparr>bs_root_ended := True\<rparr>, Some (ex, length (bs_phases st), bs_dropped st)))"

definition sat_i64 :: "nat \<Rightarrow> i64" where
  "sat_i64 n = (if n < 2 ^ 63 then of_nat n else 2 ^ 63 - 1)"

definition end_root_span :: "exporter \<Rightarrow> systime \<Rightarrow> rstring \<Rightarrow> nat \<Rightarrow> u64 \<Rightarrow> effect list" where
  "end_root_span ex end_wall outcome' cnt dropped =
     [RootEnd ex outcome' (sat_i64 cnt) (sat_i64 (unat dropped)) end_wall]"

definition phase_span :: "phase \<Rightarrow> span" where
  "phase_span ph =
     \<lparr>sp_name = ph_name ph, sp_start = ph_start ph, sp_end = ph_end ph,
      sp_attrs = [(lit ''boot.phase'', VStr (ph_name ph)),
                  (lit ''boot.outcome'', VStr (outcome_str (ph_outcome ph))),
                  (lit ''boot.at_ms'', VInt (millis_i64 (ph_at ph)))],
      sp_error = (if ph_outcome ph = Failed then Some (lit ''boot phase did not complete'') else None)\<rparr>"

definition LOG_TARGET :: rstring where
  "LOG_TARGET = lit ''otel_bootstrap::boot''"

definition phase_event :: "phase \<Rightarrow> effect" where
  "phase_event ph =
     (let fields = [display_field (lit ''phase'') (ph_name ph),
                    str_field (lit ''outcome'') (outcome_str (ph_outcome ph)),
                    u64_field (lit ''took_ms'') (millis (ph_took ph)),
                    u64_field (lit ''at_ms'') (millis (ph_at ph))]
      in case ph_outcome ph of
           Ok \<Rightarrow> Event INFO LOG_TARGET (lit ''boot phase complete'') fields
         | Failed \<Rightarrow> Event WARN LOG_TARGET (lit ''boot phase failed'') fields)"

definition export :: "exporter \<Rightarrow> phase \<Rightarrow> effect list" where
  "export ex ph = [SpanEnd ex (phase_span ph), phase_event ph]"

definition ready_event :: "duration \<Rightarrow> effect" where
  "ready_event at = Event INFO LOG_TARGET (lit ''boot ready'') [u64_field (lit ''took_ms'') (millis at)]"

definition set_service_name :: "timeline \<Rightarrow> rstring \<Rightarrow> timeline" where
  "set_service_name tm name = tm\<lparr>tl_state := (tl_state tm)\<lparr>bs_service := Some name\<rparr>\<rparr>"

definition mk_phase :: "timeline \<Rightarrow> rstring \<Rightarrow> instant \<Rightarrow> instant \<Rightarrow> outcome \<Rightarrow> phase" where
  "mk_phase tm name start end' o' =
     \<lparr>ph_name = name, ph_outcome = o', ph_start = wall tm start, ph_end = wall tm end',
      ph_took = saturating_duration_since end' start,
      ph_at = saturating_duration_since end' (tl_origin tm)\<rparr>"

text \<open>
  \<open>Timeline::record\<close>. The first component is the timeline when the mutex is released,
  the second what the caller then does without it.
\<close>

definition record_phase ::
    "rstring \<Rightarrow> timeline \<Rightarrow> rstring \<Rightarrow> instant \<Rightarrow> instant \<Rightarrow> outcome \<Rightarrow> timeline \<times> effect list" where
  "record_phase dflt tm name start end' o' =
     (let ph = mk_phase tm name start end' o';
          st = tl_state tm;
          ex = bs_exporter st;
          st' = (if length (bs_phases st) < MAX_PHASES
                 then st\<lparr>bs_phases := bs_phases st @ [\<lparr>rec_phase = ph, rec_exported = (ex \<noteq> None)\<rparr>]\<rparr>
                 else st\<lparr>bs_dropped := bs_dropped st + 1\<rparr>);
          service = service_label dflt st'
      in (tm\<lparr>tl_state := st'\<rparr>,
          Stderr (line (ph_name ph) o' (ph_took ph) (ph_at ph) service)
          # (case ex of None \<Rightarrow> [] | Some e \<Rightarrow> export e ph)))"

text \<open>\<open>Timeline::ready\<close>, \<open>end'\<close> being its reading of the clock.\<close>

definition ready :: "rstring \<Rightarrow> timeline \<Rightarrow> instant \<Rightarrow> timeline \<times> effect list" where
  "ready dflt tm end' =
     (let at = saturating_duration_since end' (tl_origin tm);
          w = wall tm end';
          st = tl_state tm
      in if bs_ready st \<noteq> None then (tm, [])
         else let (st', end_root) = take_root_to_end (st\<lparr>bs_ready := Some (w, at)\<rparr>);
                  service = service_label dflt st'
              in (tm\<lparr>tl_state := st'\<rparr>,
                  Stderr (ready_line at (tl_source tm) service)
                  # (case end_root of
                       None \<Rightarrow> []
                     | Some (ex, cnt, dropped) \<Rightarrow>
                         end_root_span ex w (lit ''ready'') cnt dropped @ [ready_event at])))"

text \<open>The buffered phases not exported yet, now marked as exported.\<close>

definition take_pending :: "recorded list \<Rightarrow> recorded list \<times> phase list" where
  "take_pending rs = (map (\<lambda>r. r\<lparr>rec_exported := True\<rparr>) rs,
                      map rec_phase (filter (\<lambda>r. \<not> rec_exported r) rs))"

text \<open>
  \<open>Timeline::attach\<close>: the root span starts under the mutex (third component), the
  exports follow its release (fourth component).
\<close>

definition attach ::
    "timeline \<Rightarrow> nat \<Rightarrow> rstring \<Rightarrow> nat option \<times> timeline \<times> effect list \<times> effect list" where
  "attach tm provider service_name =
     (let st = tl_state tm in
      if bs_exporter st \<noteq> None then (None, tm, [], [])
      else
        let st = (if bs_service st = None then st\<lparr>bs_service := Some service_name\<rparr> else st);
            ex = \<lparr>ex_provider = provider, ex_scope = lit ''otel-bootstrap.boot'',
                  ex_root_start = tl_wall tm, ex_root_origin = tl_source tm\<rparr>;
            (rs, pending) = take_pending (bs_phases st);
            st = st\<lparr>bs_exporter := Some ex, bs_phases := rs\<rparr>;
            rdy = bs_ready st;
            (st, end_root) = (if rdy \<noteq> None then take_root_to_end st else (st, None))
        in (Some (length pending), tm\<lparr>tl_state := st\<rparr>, [RootStart ex],
            concat (map (export ex) pending)
            @ (case (rdy, end_root) of
                 (Some (w, at), Some (ex', cnt, dropped)) \<Rightarrow>
                   end_root_span ex' w (lit ''ready'') cnt dropped @ [ready_event at]
               | _ \<Rightarrow> [])))"

definition flush :: "timeline \<Rightarrow> nat \<Rightarrow> rstring \<Rightarrow> nat \<times> timeline \<times> effect list \<times> effect list" where
  "flush tm provider service_name =
     (let (r, rest) = attach tm provider service_name in (unwrap_or r 0, rest))"

definition close :: "timeline \<Rightarrow> instant \<Rightarrow> timeline \<times> effect list" where
  "close tm now =
     (let w = wall tm now; (st, end_root) = take_root_to_end (tl_state tm)
      in (tm\<lparr>tl_state := st\<rparr>,
          case end_root of
            None \<Rightarrow> []
          | Some (ex, cnt, dropped) \<Rightarrow> end_root_span ex w (lit ''incomplete'') cnt dropped))"

definition phases :: "timeline \<Rightarrow> phase list" where
  "phases tm = map rec_phase (bs_phases (tl_state tm))"

section \<open>Threads\<close>

text \<open>
  A call runs its section under the mutex atomically; what it does after the release is a
  queue of effects, which are performed one at a time, interleaved with every other thread.
  The configuration also keeps, for the specification only, the phases recorded before and
  after a provider was attached.
\<close>

datatype call =
    SetName rstring
  | RecordCall rstring instant instant outcome
  | ReadyCall instant
  | AttachCall nat rstring
  | CloseCall instant

fun exec_call :: "rstring \<Rightarrow> timeline \<Rightarrow> call \<Rightarrow> timeline \<times> effect list \<times> effect list" where
  "exec_call dflt tm (SetName n) = (set_service_name tm n, [], [])"
| "exec_call dflt tm (RecordCall n s e o') = (let (tm', after) = record_phase dflt tm n s e o' in (tm', [], after))"
| "exec_call dflt tm (ReadyCall e) = (let (tm', after) = ready dflt tm e in (tm', [], after))"
| "exec_call dflt tm (AttachCall p n) = snd (attach tm p n)"
| "exec_call dflt tm (CloseCall now) = (let (tm', after) = close tm now in (tm', [], after))"

fun call_phases :: "timeline \<Rightarrow> call \<Rightarrow> phase list" where
  "call_phases tm (RecordCall n s e o') = [mk_phase tm n s e o']"
| "call_phases tm _ = []"

record config =
  cf_tl :: timeline
  cf_queues :: "effect list list"
  cf_out :: "effect list"
  cf_before :: "phase list"
  cf_after :: "phase list"

definition attached :: "timeline \<Rightarrow> bool" where
  "attached tm \<longleftrightarrow> bs_exporter (tl_state tm) \<noteq> None"

definition run_call :: "rstring \<Rightarrow> config \<Rightarrow> call \<Rightarrow> config" where
  "run_call dflt c k =
     (let (tm', inside, after) = exec_call dflt (cf_tl c) k; ps = call_phases (cf_tl c) k
      in c\<lparr>cf_tl := tm', cf_out := cf_out c @ inside, cf_queues := cf_queues c @ [after],
           cf_before := cf_before c @ (if attached (cf_tl c) then [] else ps),
           cf_after := cf_after c @ (if attached (cf_tl c) then ps else [])\<rparr>)"

inductive boot_step :: "rstring \<Rightarrow> config \<Rightarrow> config \<Rightarrow> bool" for dflt where
  call: "boot_step dflt c (run_call dflt c k)"
| emit: "i < length (cf_queues c) \<Longrightarrow> cf_queues c ! i = e # q \<Longrightarrow>
     boot_step dflt c (c\<lparr>cf_queues := (cf_queues c)[i := q], cf_out := cf_out c @ [e]\<rparr>)"

inductive_cases boot_stepE: "boot_step dflt c c'"

definition init_config :: "timeline \<Rightarrow> config" where
  "init_config tm = \<lparr>cf_tl = tm, cf_queues = [], cf_out = [], cf_before = [], cf_after = []\<rparr>"

text \<open>The configurations a fresh timeline can reach.\<close>

inductive boot_reach :: "rstring \<Rightarrow> config \<Rightarrow> bool" for dflt where
  start: "tl_state tm = bstate_default \<Longrightarrow> boot_reach dflt (init_config tm)"
| step: "boot_reach dflt c \<Longrightarrow> boot_step dflt c c' \<Longrightarrow> boot_reach dflt c'"

end
