(* ===== verification/BootProps.thy ===== *)
theory BootProps
  imports Boot
begin

text \<open>
  The contract of the boot timeline over every interleaving of threads: what the buffer
  holds, that every phase is exported exactly once, that there is one root span which
  starts first and ends at most once, and what reaches standard error.
\<close>

section \<open>Effects of a configuration\<close>

fun is_span :: "effect \<Rightarrow> bool" where
  "is_span (SpanEnd _ _) = True" | "is_span _ = False"

fun is_root_start :: "effect \<Rightarrow> bool" where
  "is_root_start (RootStart _) = True" | "is_root_start _ = False"

fun is_root_end :: "effect \<Rightarrow> bool" where
  "is_root_end (RootEnd _ _ _ _ _) = True" | "is_root_end _ = False"

fun is_stderr :: "effect \<Rightarrow> bool" where
  "is_stderr (Stderr _) = True" | "is_stderr _ = False"

text \<open>The log event of a phase, as against the one of the whole boot.\<close>

definition BOOT_READY :: rstring where
  "BOOT_READY = lit ''boot ready''"

fun is_phase_event :: "effect \<Rightarrow> bool" where
  "is_phase_event (Event l t m fds) \<longleftrightarrow> \<not> (m = BOOT_READY \<and> map fd_name fds = [lit ''took_ms''])"
| "is_phase_event _ = False"

definition needs_root :: "effect \<Rightarrow> bool" where
  "needs_root e \<longleftrightarrow> is_span e \<or> is_root_end e"

text \<open>Everything done or still to be done.\<close>

definition all_eff :: "config \<Rightarrow> effect multiset" where
  "all_eff c = mset (cf_out c) + mset (concat (cf_queues c))"

definition recorded_phases :: "config \<Rightarrow> phase list" where
  "recorded_phases c = cf_before c @ cf_after c"

text \<open>The phases a collector must see: those that were still buffered at the attachment, then all.\<close>

definition due :: "config \<Rightarrow> phase list" where
  "due c = take MAX_PHASES (cf_before c) @ cf_after c"

definition has_ready :: "bstate \<Rightarrow> bool" where
  "has_ready st \<longleftrightarrow> bs_ready st \<noteq> None"

definition cf_state :: "config \<Rightarrow> bstate" where
  "cf_state c = tl_state (cf_tl c)"

lemma all_eff_emit:
  assumes "i < length (cf_queues c)" and "cf_queues c ! i = e # q"
  shows "all_eff (c\<lparr>cf_queues := (cf_queues c)[i := q], cf_out := cf_out c @ [e]\<rparr>) = all_eff c"
  using mset_concat_update [OF assms] by (simp add: all_eff_def)

lemma cf_state_emit [simp]:
  "cf_state (c\<lparr>cf_queues := qs, cf_out := o'\<rparr>) = cf_state c"
  "recorded_phases (c\<lparr>cf_queues := qs, cf_out := o'\<rparr>) = recorded_phases c"
  "due (c\<lparr>cf_queues := qs, cf_out := o'\<rparr>) = due c"
  by (simp_all add: cf_state_def recorded_phases_def due_def)

section \<open>The invariant\<close>

definition inv_buffer :: "config \<Rightarrow> bool" where
  "inv_buffer c \<longleftrightarrow>
     map rec_phase (bs_phases (cf_state c)) = take MAX_PHASES (recorded_phases c)
     \<and> bs_dropped (cf_state c) = of_nat (length (recorded_phases c) - MAX_PHASES)"

definition inv_flags :: "config \<Rightarrow> bool" where
  "inv_flags c \<longleftrightarrow>
     (\<forall>r\<in>set (bs_phases (cf_state c)). rec_exported r \<longleftrightarrow> bs_exporter (cf_state c) \<noteq> None)
     \<and> (bs_exporter (cf_state c) = None \<longrightarrow> cf_after c = [])"

text \<open>One effect of a kind for each phase due, once there is an exporter.\<close>

definition inv_due :: "(effect \<Rightarrow> bool) \<Rightarrow> (exporter \<Rightarrow> phase \<Rightarrow> effect) \<Rightarrow> config \<Rightarrow> bool" where
  "inv_due P f c \<longleftrightarrow>
     filter_mset P (all_eff c) =
       (case bs_exporter (cf_state c) of None \<Rightarrow> {#} | Some ex \<Rightarrow> image_mset (f ex) (mset (due c)))"

abbreviation inv_spans :: "config \<Rightarrow> bool" where
  "inv_spans \<equiv> inv_due is_span (\<lambda>ex p. SpanEnd ex (phase_span p))"

abbreviation inv_events :: "config \<Rightarrow> bool" where
  "inv_events \<equiv> inv_due is_phase_event (\<lambda>ex. phase_event)"

definition inv_root :: "config \<Rightarrow> bool" where
  "inv_root c \<longleftrightarrow>
     filter_mset is_root_start (all_eff c) =
       (case bs_exporter (cf_state c) of None \<Rightarrow> {#} | Some ex \<Rightarrow> {#RootStart ex#})
     \<and> size (filter_mset is_root_end (all_eff c)) = (if bs_root_ended (cf_state c) then 1 else 0)
     \<and> (bs_root_ended (cf_state c) \<longrightarrow> bs_exporter (cf_state c) \<noteq> None)
     \<and> (has_ready (cf_state c) \<and> bs_exporter (cf_state c) \<noteq> None \<longrightarrow> bs_root_ended (cf_state c))"

definition inv_echo :: "config \<Rightarrow> bool" where
  "inv_echo c \<longleftrightarrow>
     size (filter_mset is_stderr (all_eff c))
       = length (recorded_phases c) + (if has_ready (cf_state c) then 1 else 0)"

text \<open>In the output, a span or the end of the root has the start of a root before it.\<close>

definition rooted :: "effect list \<Rightarrow> bool" where
  "rooted xs \<longleftrightarrow> (\<forall>e pre post. xs = pre @ e # post \<longrightarrow> needs_root e \<longrightarrow> list_ex is_root_start pre)"

definition inv_order :: "config \<Rightarrow> bool" where
  "inv_order c \<longleftrightarrow>
     rooted (cf_out c)
     \<and> (bs_exporter (cf_state c) \<noteq> None \<longrightarrow> list_ex is_root_start (cf_out c))
     \<and> (bs_exporter (cf_state c) = None \<longrightarrow> \<not> list_ex needs_root (concat (cf_queues c)))"

section \<open>What one call does\<close>

definition call_inside :: "rstring \<Rightarrow> config \<Rightarrow> call \<Rightarrow> effect list" where
  "call_inside dflt c k = fst (snd (exec_call dflt (cf_tl c) k))"

definition call_after :: "rstring \<Rightarrow> config \<Rightarrow> call \<Rightarrow> effect list" where
  "call_after dflt c k = snd (snd (exec_call dflt (cf_tl c) k))"

lemma run_call_sel [simp]:
  "cf_tl (run_call dflt c k) = fst (exec_call dflt (cf_tl c) k)"
  "cf_out (run_call dflt c k) = cf_out c @ call_inside dflt c k"
  "cf_queues (run_call dflt c k) = cf_queues c @ [call_after dflt c k]"
  by (simp_all add: run_call_def call_inside_def call_after_def case_prod_beta Let_def)

lemma run_call_ghost [simp]:
  "cf_before (run_call dflt c k) = cf_before c @ (if attached (cf_tl c) then [] else call_phases (cf_tl c) k)"
  "cf_after (run_call dflt c k) = cf_after c @ (if attached (cf_tl c) then call_phases (cf_tl c) k else [])"
  by (simp_all add: run_call_def case_prod_beta Let_def)

lemma all_eff_run_call:
  "all_eff (run_call dflt c k) = all_eff c + mset (call_inside dflt c k) + mset (call_after dflt c k)"
  by (simp add: all_eff_def)

lemma recorded_run_call:
  assumes "inv_flags c"
  shows "recorded_phases (run_call dflt c k) = recorded_phases c @ call_phases (cf_tl c) k"
  using assms
  by (auto simp: recorded_phases_def inv_flags_def attached_def cf_state_def)

lemma due_run_call:
  assumes "inv_flags c"
  shows "due (run_call dflt c k) =
    (if attached (cf_tl c) then due c @ call_phases (cf_tl c) k
     else take MAX_PHASES (cf_before c @ call_phases (cf_tl c) k))"
  using assms
  by (auto simp: due_def inv_flags_def attached_def cf_state_def)

lemma exec_call_sel [simp]:
  "exec_call dflt tm (RecordCall n s e o')
     = (fst (record_phase dflt tm n s e o'), [], snd (record_phase dflt tm n s e o'))"
  "exec_call dflt tm (ReadyCall e) = (fst (ready dflt tm e), [], snd (ready dflt tm e))"
  "exec_call dflt tm (CloseCall e) = (fst (close tm e), [], snd (close tm e))"
  by (simp_all add: case_prod_beta)

declare exec_call.simps(2,3,5) [simp del]

text \<open>The timeline after each operation, in terms of the one before.\<close>

lemma record_phase_fst:
  "fst (record_phase dflt tm n s e o') = tm\<lparr>tl_state :=
     (if length (bs_phases (tl_state tm)) < MAX_PHASES
      then (tl_state tm)\<lparr>bs_phases := bs_phases (tl_state tm) @
             [\<lparr>rec_phase = mk_phase tm n s e o', rec_exported = (bs_exporter (tl_state tm) \<noteq> None)\<rparr>]\<rparr>
      else (tl_state tm)\<lparr>bs_dropped := bs_dropped (tl_state tm) + 1\<rparr>)\<rparr>"
  by (simp add: record_phase_def Let_def)

lemma record_phase_snd:
  "\<exists>l. snd (record_phase dflt tm n s e o') = Stderr l #
     (case bs_exporter (tl_state tm) of None \<Rightarrow> [] | Some ex \<Rightarrow> export ex (mk_phase tm n s e o'))"
  by (simp add: record_phase_def Let_def)

definition ends_root :: "bstate \<Rightarrow> bool" where
  "ends_root st \<longleftrightarrow> \<not> bs_root_ended st \<and> bs_exporter st \<noteq> None"

lemma take_root_fst: "fst (take_root_to_end st) = (if ends_root st then st\<lparr>bs_root_ended := True\<rparr> else st)"
  by (auto simp: take_root_to_end_def ends_root_def split: option.split)

lemma take_root_snd:
  "snd (take_root_to_end st) =
     (if ends_root st then Some (the (bs_exporter st), length (bs_phases st), bs_dropped st) else None)"
  by (auto simp: take_root_to_end_def ends_root_def split: option.split)

lemma ready_fst:
  "fst (ready dflt tm e) =
     (if bs_ready (tl_state tm) \<noteq> None then tm
      else tm\<lparr>tl_state := fst (take_root_to_end
             ((tl_state tm)\<lparr>bs_ready := Some (wall tm e, saturating_duration_since e (tl_origin tm))\<rparr>))\<rparr>)"
  by (simp add: ready_def Let_def case_prod_beta)

lemma ready_snd:
  "bs_ready (tl_state tm) \<noteq> None \<Longrightarrow> snd (ready dflt tm e) = []"
  "bs_ready (tl_state tm) = None \<Longrightarrow> \<exists>l r. snd (ready dflt tm e) = Stderr l #
     (if ends_root (tl_state tm)
      then end_root_span (the (bs_exporter (tl_state tm))) (wall tm e) (lit ''ready'')
             (length (bs_phases (tl_state tm))) (bs_dropped (tl_state tm)) @ [ready_event r]
      else [])"
  by (auto simp: ready_def Let_def case_prod_beta take_root_snd ends_root_def)

lemma close_fst: "fst (close tm e) = tm\<lparr>tl_state := fst (take_root_to_end (tl_state tm))\<rparr>"
  by (simp add: close_def Let_def case_prod_beta)

lemma close_snd:
  "snd (close tm e) =
     (if ends_root (tl_state tm)
      then end_root_span (the (bs_exporter (tl_state tm))) (wall tm e) (lit ''incomplete'')
             (length (bs_phases (tl_state tm))) (bs_dropped (tl_state tm))
      else [])"
  by (simp add: close_def Let_def case_prod_beta take_root_snd)

definition root_of :: "timeline \<Rightarrow> nat \<Rightarrow> exporter" where
  "root_of tm p = \<lparr>ex_provider = p, ex_scope = lit ''otel-bootstrap.boot'',
     ex_root_start = tl_wall tm, ex_root_origin = tl_source tm\<rparr>"

definition unexported :: "bstate \<Rightarrow> phase list" where
  "unexported st = map rec_phase (filter (\<lambda>r. \<not> rec_exported r) (bs_phases st))"

lemma attach_again: "attached tm \<Longrightarrow> attach tm p n = (None, tm, [], [])"
  by (simp add: attach_def attached_def)

definition attached_state :: "timeline \<Rightarrow> nat \<Rightarrow> rstring \<Rightarrow> bstate" where
  "attached_state tm p n = (tl_state tm)\<lparr>
     bs_service := or_else (bs_service (tl_state tm)) (Some n), bs_exporter := Some (root_of tm p),
     bs_phases := map (\<lambda>r. r\<lparr>rec_exported := True\<rparr>) (bs_phases (tl_state tm)),
     bs_root_ended := (bs_ready (tl_state tm) \<noteq> None)\<rparr>"

definition attach_tail :: "timeline \<Rightarrow> nat \<Rightarrow> effect list" where
  "attach_tail tm p =
     (case bs_ready (tl_state tm) of
        None \<Rightarrow> []
      | Some (w, at) \<Rightarrow> end_root_span (root_of tm p) w (lit ''ready'')
          (length (bs_phases (tl_state tm))) (bs_dropped (tl_state tm)) @ [ready_event at])"

lemma attach_first:
  assumes "\<not> attached tm" and "\<not> bs_root_ended (tl_state tm)"
  shows "attach tm p n =
    (Some (length (unexported (tl_state tm))), tm\<lparr>tl_state := attached_state tm p n\<rparr>,
     [RootStart (root_of tm p)],
     concat (map (export (root_of tm p)) (unexported (tl_state tm))) @ attach_tail tm p)"
  using assms
  by (cases "tl_state tm"; cases "bs_ready (tl_state tm)")
     (auto simp: attach_def attached_def Let_def case_prod_beta take_pending_def unexported_def
        root_of_def take_root_to_end_def attached_state_def attach_tail_def or_else_def
        split: option.split)

lemma filter_export [simp]:
  "filter is_span (export ex ph) = [SpanEnd ex (phase_span ph)]"
  "filter is_phase_event (export ex ph) = [phase_event ph]"
  "filter is_root_start (export ex ph) = []"
  "filter is_root_end (export ex ph) = []"
  "filter is_stderr (export ex ph) = []"
  by (simp_all add: export_def phase_event_def BOOT_READY_def lit_def Let_def split: outcome.split)

lemma filter_concat_export [simp]:
  "filter is_span (concat (map (export ex) ps)) = map (\<lambda>p. SpanEnd ex (phase_span p)) ps"
  "filter is_root_start (concat (map (export ex) ps)) = []"
  "filter is_root_end (concat (map (export ex) ps)) = []"
  "filter is_stderr (concat (map (export ex) ps)) = []"
  by (induction ps) simp_all

lemma filter_end_root [simp]:
  "filter is_span (end_root_span ex w r cnt d) = []"
  "filter is_root_start (end_root_span ex w r cnt d) = []"
  "length (filter is_root_end (end_root_span ex w r cnt d)) = 1"
  "filter is_stderr (end_root_span ex w r cnt d) = []"
  by (simp_all add: end_root_span_def)

lemma ready_event_kind [simp]:
  "\<not> is_span (ready_event at)" "\<not> is_root_start (ready_event at)"
  "\<not> is_root_end (ready_event at)" "\<not> is_stderr (ready_event at)"
  by (simp_all add: ready_event_def)

lemma not_ended: "inv_root c \<Longrightarrow> \<not> attached (cf_tl c) \<Longrightarrow> \<not> bs_root_ended (tl_state (cf_tl c))"
  by (auto simp: inv_root_def attached_def cf_state_def)

declare mset_filter [simp del]

definition call_effects :: "rstring \<Rightarrow> config \<Rightarrow> call \<Rightarrow> effect list" where
  "call_effects dflt c k = call_inside dflt c k @ call_after dflt c k"

lemma filter_all_eff_run_call:
  "filter_mset P (all_eff (run_call dflt c k)) =
     filter_mset P (all_eff c) + mset (filter P (call_effects dflt c k))"
  by (simp add: all_eff_run_call call_effects_def mset_filter)

lemma attached_cf: "attached (cf_tl c) \<longleftrightarrow> bs_exporter (cf_state c) \<noteq> None"
  by (simp add: attached_def cf_state_def)

lemma filter_attach_tail [simp]:
  "filter is_span (attach_tail tm p) = []" "filter is_root_start (attach_tail tm p) = []"
  "filter is_stderr (attach_tail tm p) = []"
  by (simp_all add: attach_tail_def split: option.split)

lemma root_ends_attach_tail [simp]:
  "size (mset (filter is_root_end (attach_tail tm p))) = (if has_ready (tl_state tm) then 1 else 0)"
  by (simp add: attach_tail_def end_root_span_def has_ready_def split: option.split)

lemma attach_tail_not_ready [simp]: "\<not> has_ready (tl_state tm) \<Longrightarrow> attach_tail tm p = []"
  by (cases "bs_ready (tl_state tm)") (simp_all add: attach_tail_def has_ready_def)

lemmas call_eff_simps = call_effects_def call_inside_def call_after_def

text \<open>What each call does, over the configuration's state.\<close>

lemma call_record_effects:
  "\<exists>l. call_effects dflt c (RecordCall n s e o') = Stderr l #
     (case bs_exporter (cf_state c) of None \<Rightarrow> [] | Some ex \<Rightarrow> export ex (mk_phase (cf_tl c) n s e o'))"
  using record_phase_snd [of dflt "cf_tl c" n s e o'] by (simp add: call_eff_simps cf_state_def)

definition root_end_of :: "config \<Rightarrow> instant \<Rightarrow> rstring \<Rightarrow> effect list" where
  "root_end_of c e how =
     end_root_span (the (bs_exporter (cf_state c))) (wall (cf_tl c) e) how
       (length (bs_phases (cf_state c))) (bs_dropped (cf_state c))"

lemma call_ready_again: "has_ready (cf_state c) \<Longrightarrow> call_effects dflt c (ReadyCall e) = []"
  using ready_snd(1) [of "cf_tl c" dflt e] by (simp add: call_eff_simps cf_state_def has_ready_def)

lemma call_ready_first:
  assumes "\<not> has_ready (cf_state c)"
  obtains l r where "call_effects dflt c (ReadyCall e) = Stderr l #
     (if ends_root (cf_state c) then root_end_of c e (lit ''ready'') @ [ready_event r] else [])"
  using ready_snd(2) [of "cf_tl c" dflt e] assms
  by (fastforce simp: call_eff_simps cf_state_def has_ready_def root_end_of_def)

lemma call_close_effects:
  "call_effects dflt c (CloseCall e) =
     (if ends_root (cf_state c) then root_end_of c e (lit ''incomplete'') else [])"
  by (simp add: call_eff_simps cf_state_def close_snd root_end_of_def)

lemma call_attach_effects:
  assumes "inv_root c"
  shows "call_effects dflt c (AttachCall p n) =
    (if attached (cf_tl c) then []
     else RootStart (root_of (cf_tl c) p) #
       concat (map (export (root_of (cf_tl c) p)) (unexported (cf_state c))) @ attach_tail (cf_tl c) p)"
  using not_ended [OF assms]
  by (simp add: call_eff_simps attach_again attach_first cf_state_def)

lemma call_set_effects: "call_effects dflt c (SetName n) = []"
  by (simp add: call_eff_simps)

lemma filter_root_end_of [simp]:
  "filter is_span (root_end_of c e how) = []" "filter is_root_start (root_end_of c e how) = []"
  "size (mset (filter is_root_end (root_end_of c e how))) = 1" "filter is_stderr (root_end_of c e how) = []"
  by (simp_all add: root_end_of_def end_root_span_def)

text \<open>The effects of each kind, call by call.\<close>

locale phase_effect =
  fixes P :: "effect \<Rightarrow> bool" and f :: "exporter \<Rightarrow> phase \<Rightarrow> effect"
  assumes one_per_export: "filter P (export ex ph) = [f ex ph]"
    and no_other: "\<not> P (Stderr l)" "\<not> P (RootStart ex)" "\<not> P (RootEnd ex how n d w)" "\<not> P (ready_event at)"
begin

lemma filter_exports: "filter P (concat (map (export ex) ps)) = map (f ex) ps"
  by (induction ps) (simp_all add: one_per_export)

lemma filter_others:
  "filter P (attach_tail tm p) = []" "filter P (root_end_of c e how) = []"
  by (simp_all add: attach_tail_def root_end_of_def end_root_span_def no_other split: option.split)

lemma call_due:
  assumes "inv_root c"
  shows "filter P (call_effects dflt c k) =
    (case k of
       RecordCall n s e o' \<Rightarrow> (case bs_exporter (cf_state c) of None \<Rightarrow> []
         | Some ex \<Rightarrow> [f ex (mk_phase (cf_tl c) n s e o')])
     | AttachCall p n \<Rightarrow> if attached (cf_tl c) then []
         else map (f (root_of (cf_tl c) p)) (unexported (cf_state c))
     | _ \<Rightarrow> [])"
proof (cases k)
  case (RecordCall n s e o')
  then show ?thesis
    using call_record_effects [of dflt c n s e o'] by (auto simp: one_per_export no_other split: option.split)
next
  case (ReadyCall e)
  then show ?thesis
    by (cases "has_ready (cf_state c)")
       (auto simp: call_ready_again filter_others no_other elim: call_ready_first [of c dflt e])
qed (simp_all add: call_set_effects call_close_effects call_attach_effects [OF assms] filter_exports filter_others no_other)

end

interpretation phase_spans: phase_effect is_span "\<lambda>ex p. SpanEnd ex (phase_span p)"
  by unfold_locales simp_all

interpretation phase_events: phase_effect is_phase_event "\<lambda>ex. phase_event"
  by unfold_locales (simp_all add: ready_event_def BOOT_READY_def u64_field_def)

lemma call_root_starts:
  assumes "inv_root c"
  shows "filter is_root_start (call_effects dflt c k) =
    (case k of AttachCall p n \<Rightarrow> if attached (cf_tl c) then [] else [RootStart (root_of (cf_tl c) p)]
     | _ \<Rightarrow> [])"
proof (cases k)
  case (RecordCall n s e o')
  then show ?thesis
    using call_record_effects [of dflt c n s e o'] by (auto split: option.split)
next
  case (ReadyCall e)
  then show ?thesis
    by (cases "has_ready (cf_state c)") (auto simp: call_ready_again elim: call_ready_first [of c dflt e])
qed (simp_all add: call_set_effects call_close_effects call_attach_effects [OF assms])

lemma call_root_ends:
  assumes "inv_root c"
  shows "size (mset (filter is_root_end (call_effects dflt c k))) =
    (case k of
       ReadyCall e \<Rightarrow> if \<not> has_ready (cf_state c) \<and> ends_root (cf_state c) then 1 else 0
     | CloseCall e \<Rightarrow> if ends_root (cf_state c) then 1 else 0
     | AttachCall p n \<Rightarrow> if \<not> attached (cf_tl c) \<and> has_ready (cf_state c) then 1 else 0
     | _ \<Rightarrow> 0)"
proof (cases k)
  case (RecordCall n s e o')
  then show ?thesis
    using call_record_effects [of dflt c n s e o'] by (auto split: option.split)
next
  case (ReadyCall e)
  then show ?thesis
    by (cases "has_ready (cf_state c)")
       (auto simp del: size_mset simp: call_ready_again elim!: call_ready_first [of c dflt e])
qed (simp_all del: size_mset add: call_set_effects call_close_effects call_attach_effects [OF assms] cf_state_def)

lemma call_stderrs:
  assumes "inv_root c"
  shows "size (mset (filter is_stderr (call_effects dflt c k))) =
    (case k of
       RecordCall n s e o' \<Rightarrow> 1
     | ReadyCall e \<Rightarrow> if has_ready (cf_state c) then 0 else 1
     | _ \<Rightarrow> 0)"
proof (cases k)
  case (RecordCall n s e o')
  then show ?thesis
    using call_record_effects [of dflt c n s e o'] by (auto split: option.split)
next
  case (ReadyCall e)
  then show ?thesis
    by (cases "has_ready (cf_state c)") (auto simp: call_ready_again elim: call_ready_first [of c dflt e])
qed (simp_all add: call_set_effects call_close_effects call_attach_effects [OF assms])

text \<open>The fields of the state after each call.\<close>

lemma exporter_run_call:
  assumes "inv_root c"
  shows "bs_exporter (cf_state (run_call dflt c k)) =
      (case k of AttachCall p n \<Rightarrow> if attached (cf_tl c) then bs_exporter (cf_state c)
                                  else Some (root_of (cf_tl c) p)
       | _ \<Rightarrow> bs_exporter (cf_state c))"
  using not_ended [OF assms]
  by (cases k)
     (simp_all add: cf_state_def set_service_name_def record_phase_fst ready_fst close_fst
        take_root_fst attach_again attach_first attached_state_def)

lemma has_ready_run_call:
  assumes "inv_root c"
  shows "has_ready (cf_state (run_call dflt c k)) \<longleftrightarrow> has_ready (cf_state c) \<or> (\<exists>e. k = ReadyCall e)"
  using not_ended [OF assms]
  by (cases k; cases "attached (cf_tl c)")
     (simp_all add: has_ready_def cf_state_def set_service_name_def record_phase_fst ready_fst close_fst
        take_root_fst attach_again attach_first attached_state_def)

lemma root_ended_run_call:
  assumes "inv_root c"
  shows "bs_root_ended (cf_state (run_call dflt c k)) \<longleftrightarrow>
      bs_root_ended (cf_state c) \<or>
      (case k of
         ReadyCall e \<Rightarrow> \<not> has_ready (cf_state c) \<and> ends_root (cf_state c)
       | CloseCall e \<Rightarrow> ends_root (cf_state c)
       | AttachCall p n \<Rightarrow> \<not> attached (cf_tl c) \<and> has_ready (cf_state c)
       | _ \<Rightarrow> False)"
  using not_ended [OF assms]
  by (cases k; cases "attached (cf_tl c)")
     (simp_all add: has_ready_def cf_state_def set_service_name_def record_phase_fst ready_fst close_fst
        take_root_fst ends_root_def attach_again attach_first attached_state_def)

lemmas run_call_simps = filter_all_eff_run_call exporter_run_call has_ready_run_call
  root_ended_run_call recorded_run_call

section \<open>Every step keeps the invariant\<close>

lemma inv_buffer_call:
  assumes "inv_buffer c" and "inv_flags c" and "inv_root c"
  shows "inv_buffer (run_call dflt c k)"
proof (cases k)
  case (RecordCall n s e o')
  have len: "length (bs_phases (cf_state c)) = min MAX_PHASES (length (recorded_phases c))"
    using assms(1) unfolding inv_buffer_def by (metis length_map length_take min.commute)
  show ?thesis
  proof (cases "length (recorded_phases c) < MAX_PHASES")
    case True
    then show ?thesis
      using assms len
      by (simp add: inv_buffer_def recorded_run_call RecordCall cf_state_def record_phase_fst)
  next
    case False
    then show ?thesis
      using assms len
      by (simp add: inv_buffer_def recorded_run_call RecordCall cf_state_def record_phase_fst
          Suc_diff_le)
  qed
next
  case (AttachCall p n)
  show ?thesis
  proof (cases "attached (cf_tl c)")
    case True
    then show ?thesis
      using assms by (simp add: AttachCall inv_buffer_def recorded_run_call cf_state_def attach_again)
  next
    case False
    then show ?thesis
      using assms
      by (simp add: AttachCall inv_buffer_def recorded_run_call cf_state_def o_def attached_state_def
          attach_first [OF False not_ended [OF assms(3) False]])
  qed
qed (use assms in \<open>simp_all add: inv_buffer_def recorded_run_call cf_state_def ready_fst close_fst
       take_root_fst set_service_name_def\<close>)

lemma inv_flags_call:
  assumes "inv_flags c" and "inv_root c"
  shows "inv_flags (run_call dflt c k)"
proof (cases "k")
  case (AttachCall p n)
  show ?thesis
  proof (cases "attached (cf_tl c)")
    case True
    then show ?thesis
      using assms(1) by (simp add: AttachCall inv_flags_def cf_state_def attach_again)
  next
    case False
    then show ?thesis
      by (simp add: AttachCall inv_flags_def cf_state_def attached_state_def
          attach_first [OF False not_ended [OF assms(2) False]])
  qed
next
  case (RecordCall n s e o')
  then show ?thesis
    using assms(1) by (auto simp: inv_flags_def cf_state_def record_phase_fst attached_def)
qed (use assms in \<open>simp_all add: inv_flags_def cf_state_def ready_fst close_fst take_root_fst
       set_service_name_def\<close>)

text \<open>The phases an attachment exports are exactly those in the buffer.\<close>

lemma unexported_all:
  assumes "inv_buffer c" and "inv_flags c" and "\<not> attached (cf_tl c)"
  shows "unexported (cf_state c) = take MAX_PHASES (cf_before c)" "cf_after c = []"
proof -
  have "\<forall>r\<in>set (bs_phases (cf_state c)). \<not> rec_exported r" and after: "cf_after c = []"
    using assms(2,3) by (auto simp: inv_flags_def attached_def cf_state_def)
  then have "filter (\<lambda>r. \<not> rec_exported r) (bs_phases (cf_state c)) = bs_phases (cf_state c)"
    by simp
  then show "unexported (cf_state c) = take MAX_PHASES (cf_before c)"
    using assms(1) after by (simp add: unexported_def inv_buffer_def cf_state_def recorded_phases_def)
  show "cf_after c = []" by (fact after)
qed

lemma unattached_due: "inv_flags c \<Longrightarrow> \<not> attached (cf_tl c) \<Longrightarrow> due c = take MAX_PHASES (cf_before c)"
  by (auto simp: due_def inv_flags_def attached_def cf_state_def)

context phase_effect begin

lemma inv_due_call:
  assumes "inv_due P f c" and "inv_buffer c" and "inv_flags c" and "inv_root c"
  shows "inv_due P f (run_call dflt c k)"
proof (cases "bs_exporter (cf_state c)")
  case None
  then have na: "\<not> attached (cf_tl c)" by (simp add: attached_cf)
  show ?thesis
    using assms(1) unexported_all [OF assms(2,3) na] None na
    by (cases k)
       (simp_all add: inv_due_def filter_all_eff_run_call call_due [OF assms(4)]
          exporter_run_call [OF assms(4)] due_run_call [OF assms(3)])
next
  case (Some ex)
  then have at: "attached (cf_tl c)" by (simp add: attached_cf)
  show ?thesis
    using assms(1) Some at
    by (cases k)
       (simp_all add: inv_due_def filter_all_eff_run_call call_due [OF assms(4)]
          exporter_run_call [OF assms(4)] due_run_call [OF assms(3)])
qed

end

lemma inv_root_call:
  assumes "inv_root c"
  shows "inv_root (run_call dflt c k)"
proof (cases "bs_exporter (cf_state c)")
  case None
  then have na: "\<not> attached (cf_tl c)" "\<not> bs_root_ended (cf_state c)"
    using assms by (auto simp: attached_cf inv_root_def)
  show ?thesis
    using assms None na
    by (cases k)
       (simp_all del: size_mset add: inv_root_def filter_all_eff_run_call call_root_starts [OF assms]
          call_root_ends [OF assms] exporter_run_call [OF assms] has_ready_run_call [OF assms]
          root_ended_run_call [OF assms] ends_root_def)
next
  case (Some ex)
  then have at: "attached (cf_tl c)" by (simp add: attached_cf)
  show ?thesis
    using assms Some at
    by (cases k)
       (auto simp del: size_mset simp: inv_root_def filter_all_eff_run_call call_root_starts [OF assms]
          call_root_ends [OF assms] exporter_run_call [OF assms] has_ready_run_call [OF assms]
          root_ended_run_call [OF assms] ends_root_def)
qed

lemma inv_echo_call:
  assumes "inv_echo c" and "inv_flags c" and "inv_root c"
  shows "inv_echo (run_call dflt c k)"
  using assms(1)
  by (cases k)
     (simp_all del: size_mset add: inv_echo_def filter_all_eff_run_call call_stderrs [OF assms(3)]
        has_ready_run_call [OF assms(3)] recorded_run_call [OF assms(2)])

text \<open>The order on the output: no span of the boot before its root.\<close>

lemma rooted_append:
  assumes "rooted xs" and "list_ex needs_root ys \<Longrightarrow> list_ex is_root_start xs"
  shows "rooted (xs @ ys)"
  unfolding rooted_def
proof (intro allI impI)
  fix e pre post
  assume eq: "xs @ ys = pre @ e # post" and e: "needs_root e"
  from eq consider us where "pre = xs @ us" "us @ e # post = ys"
    | us where "xs = pre @ us" "us @ ys = e # post"
    by (auto simp: append_eq_append_conv2)
  then show "list_ex is_root_start pre"
  proof cases
    case 1
    with e have "list_ex needs_root ys" by auto
    with 1 assms(2) show ?thesis by auto
  next
    case 2
    then show ?thesis
      using assms e by (cases us) (auto simp: rooted_def)
  qed
qed

lemma call_inside_simps:
  assumes "inv_root c"
  shows "call_inside dflt c k = (case k of
    AttachCall p n \<Rightarrow> if attached (cf_tl c) then [] else [RootStart (root_of (cf_tl c) p)] | _ \<Rightarrow> [])"
  using not_ended [OF assms] by (cases k) (simp_all add: call_inside_def attach_again attach_first)

lemma after_needs_root:
  assumes "inv_root c" and "list_ex needs_root (call_after dflt c k)"
  shows "attached (cf_tl c) \<or> (\<exists>p n. k = AttachCall p n)"
proof (rule ccontr)
  assume "\<not> ?thesis"
  then have none: "bs_exporter (cf_state c) = None" and k: "\<forall>p n. k \<noteq> AttachCall p n"
    by (auto simp: attached_cf)
  have "filter is_span (call_effects dflt c k) = []"
    using none k by (cases k) (simp_all add: phase_spans.call_due [OF assms(1)])
  moreover have "size (mset (filter is_root_end (call_effects dflt c k))) = 0"
    using none k unfolding call_root_ends [OF assms(1)]
    by (cases k) (simp_all add: ends_root_def)
  ultimately show False
    using assms(2) by (auto simp: call_effects_def list_ex_iff needs_root_def filter_empty_conv)
qed

lemma inv_order_call:
  assumes "inv_order c" and "inv_root c"
  shows "inv_order (run_call dflt c k)"
proof (cases "attached (cf_tl c)")
  case True
  then have "call_inside dflt c k = []"
    by (cases k) (simp_all add: call_inside_simps [OF assms(2)])
  moreover have "bs_exporter (cf_state (run_call dflt c k)) \<noteq> None"
    using True by (cases k) (simp_all add: exporter_run_call [OF assms(2)] attached_cf)
  ultimately show ?thesis
    using assms(1) True by (auto simp: inv_order_def attached_cf)
next
  case False
  show ?thesis
  proof (cases "\<exists>p n. k = AttachCall p n")
    case True
    then show ?thesis
      using assms False rooted_append [of "cf_out c" "call_inside dflt c k"]
      by (auto simp: inv_order_def call_inside_simps exporter_run_call needs_root_def)
  next
    case no: False
    then have "call_inside dflt c k = []" "bs_exporter (cf_state (run_call dflt c k)) = None"
      using False by (cases k; simp add: call_inside_simps [OF assms(2)] exporter_run_call [OF assms(2)] attached_cf)+
    moreover have "\<not> list_ex needs_root (call_after dflt c k)"
      using after_needs_root [OF assms(2)] False no by blast
    ultimately show ?thesis
      using assms(1) False by (simp add: inv_order_def attached_cf)
  qed
qed

lemma inv_order_emit:
  assumes "inv_order c" and "i < length (cf_queues c)" and "cf_queues c ! i = e # q"
  shows "inv_order (c\<lparr>cf_queues := (cf_queues c)[i := q], cf_out := cf_out c @ [e]\<rparr>)"
proof -
  have mset: "mset (concat (cf_queues c)) = add_mset e (mset (concat ((cf_queues c)[i := q])))"
    by (rule mset_concat_update [OF assms(2,3)])
  then have "set (concat (cf_queues c)) = insert e (set (concat ((cf_queues c)[i := q])))"
    by (metis set_mset_add_mset_insert set_mset_mset)
  then have q: "list_ex needs_root (concat (cf_queues c))
      \<longleftrightarrow> needs_root e \<or> list_ex needs_root (concat ((cf_queues c)[i := q]))"
    by (auto simp: list_ex_iff)
  have "needs_root e \<Longrightarrow> list_ex is_root_start (cf_out c)"
    using assms(1) q unfolding inv_order_def by blast
  then have "rooted (cf_out c @ [e])"
    using assms(1) unfolding inv_order_def by (intro rooted_append) auto
  then show ?thesis
    using assms(1) q unfolding inv_order_def by simp
qed

lemma inv_emit:
  assumes "i < length (cf_queues c)" and "cf_queues c ! i = e # q"
    and "c' = c\<lparr>cf_queues := (cf_queues c)[i := q], cf_out := cf_out c @ [e]\<rparr>"
  shows "inv_buffer c' = inv_buffer c" "inv_flags c' = inv_flags c" "inv_due P f c' = inv_due P f c"
    "inv_root c' = inv_root c" "inv_echo c' = inv_echo c"
  using all_eff_emit [OF assms(1,2)] assms(3)
  by (simp_all add: inv_buffer_def inv_flags_def inv_root_def inv_echo_def)
     (cases "bs_exporter (cf_state c)"; simp add: inv_due_def)

section \<open>Reachable configurations\<close>

definition boot_inv :: "config \<Rightarrow> bool" where
  "boot_inv c \<longleftrightarrow> inv_buffer c \<and> inv_flags c \<and> inv_spans c \<and> inv_events c \<and> inv_root c \<and> inv_echo c \<and> inv_order c"

lemma boot_inv_start: "tl_state tm = bstate_default \<Longrightarrow> boot_inv (init_config tm)"
  by (simp add: boot_inv_def inv_buffer_def inv_flags_def inv_due_def inv_root_def inv_echo_def
      inv_order_def rooted_def init_config_def bstate_default_def cf_state_def
      recorded_phases_def due_def all_eff_def has_ready_def)

lemma boot_inv_step:
  assumes "boot_step dflt c c'" and "boot_inv c"
  shows "boot_inv c'"
  using assms
proof (cases rule: boot_step.cases)
  case (call k)
  with assms(2) show ?thesis
    by (simp add: boot_inv_def inv_buffer_call inv_flags_call phase_spans.inv_due_call
        phase_events.inv_due_call inv_root_call
        inv_echo_call inv_order_call)
next
  case (emit i e q)
  from assms(2) have "inv_order c" by (simp add: boot_inv_def)
  from inv_order_emit [OF this emit(2,3)] assms(2) inv_emit [OF emit(2,3,1)] show ?thesis
    by (simp add: boot_inv_def emit(1))
qed

lemma boot_reach_inv: "boot_reach dflt c \<Longrightarrow> boot_inv c"
  by (induction rule: boot_reach.induct) (auto intro: boot_inv_start boot_inv_step)

end
