(* ===== verification/BootContract.thy ===== *)
theory BootContract
  imports BootProps
begin

text \<open>
  The properties of the boot timeline, read off the invariant of every reachable
  configuration, with witnesses that run concrete calls. A configuration is quiet when every
  thread has performed its effects.
\<close>

section \<open>Running calls one after the other\<close>

definition quiet :: "config \<Rightarrow> bool" where
  "quiet c \<longleftrightarrow> concat (cf_queues c) = []"

definition drain :: "config \<Rightarrow> config" where
  "drain c = c\<lparr>cf_queues := map (\<lambda>_. []) (cf_queues c), cf_out := cf_out c @ concat (cf_queues c)\<rparr>"

definition seq_call :: "rstring \<Rightarrow> config \<Rightarrow> call \<Rightarrow> config" where
  "seq_call dflt c k = drain (run_call dflt c k)"

lemma boot_reach_drain_prefix:
  assumes "boot_reach dflt c" and "cf_queues c = map (\<lambda>_. []) (ds :: effect list list) @ qs"
  shows "boot_reach dflt (c\<lparr>cf_queues := map (\<lambda>_. []) (cf_queues c), cf_out := cf_out c @ concat qs\<rparr>)"
  using assms
proof (induction "length (concat qs) + length qs" arbitrary: c ds qs rule: less_induct)
  case less
  show ?case
  proof (cases qs)
    case Nil
    then have "c\<lparr>cf_queues := map (\<lambda>_. []) (cf_queues c), cf_out := cf_out c @ concat qs\<rparr> = c"
      using less.prems(2) by simp
    with less.prems(1) show ?thesis by simp
  next
    case (Cons q qs')
    show ?thesis
    proof (cases q)
      case Nil
      have "cf_queues c = map (\<lambda>_. []) (ds @ [q]) @ qs'"
        using less.prems(2) Cons Nil by simp
      with less.hyps [of qs' c "ds @ [q]"] less.prems(1) Cons Nil show ?thesis by simp
    next
      case q: (Cons e q')
      define c' where "c' = c\<lparr>cf_queues := (cf_queues c)[length ds := q'], cf_out := cf_out c @ [e]\<rparr>"
      have i: "length ds < length (cf_queues c)" "cf_queues c ! length ds = e # q'"
        using less.prems(2) Cons q by (simp_all add: nth_append)
      have "boot_reach dflt c'"
        unfolding c'_def using less.prems(1) boot_step.emit [OF i] by (rule boot_reach.step)
      moreover have "cf_queues c' = map (\<lambda>_. []) ds @ (q' # qs')"
        using less.prems(2) Cons q by (simp add: c'_def list_update_append)
      ultimately have "boot_reach dflt (c'\<lparr>cf_queues := map (\<lambda>_. []) (cf_queues c'),
          cf_out := cf_out c' @ concat (q' # qs')\<rparr>)"
        using less.hyps [of "q' # qs'" c' ds] Cons q by simp
      moreover have "map (\<lambda>_. [] :: effect list) ((cf_queues c)[length ds := q']) = map (\<lambda>_. []) (cf_queues c)"
        by (simp add: map_replicate_const)
      ultimately show ?thesis
        using Cons q by (simp add: c'_def)
    qed
  qed
qed

lemma boot_reach_drain: "boot_reach dflt c \<Longrightarrow> boot_reach dflt (drain c)"
  unfolding drain_def using boot_reach_drain_prefix [of dflt c "[]" "cf_queues c"] by simp

lemma boot_reach_seq: "boot_reach dflt c \<Longrightarrow> boot_reach dflt (seq_call dflt c k)"
  unfolding seq_call_def by (intro boot_reach_drain boot_reach.step [OF _ boot_step.call])

lemma quiet_seq: "quiet (seq_call dflt c k)"
  by (simp add: quiet_def seq_call_def drain_def concat_eq_Nil_conv)

lemma boot_reach_run: "tl_state tm = bstate_default \<Longrightarrow> boot_reach dflt (foldl (seq_call dflt) (init_config tm) ks)"
proof (induction ks rule: rev_induct)
  case Nil
  then show ?case by (simp add: boot_reach.start)
next
  case (snoc k ks)
  then show ?case by (simp add: boot_reach_seq)
qed

lemma quiet_all_eff: "quiet c \<Longrightarrow> all_eff c = mset (cf_out c)"
  by (simp add: quiet_def all_eff_def)

text \<open>A concrete boot: two phases, one of them failed, then the provider, a third phase, ready.\<close>

definition tm0 :: timeline where
  "tm0 = starting_at 0 ProcessStart 5000000 1000000000 0"

definition calls0 :: "call list" where
  "calls0 = [RecordCall (lit ''config'') 1000000 3000000 Ok, RecordCall (lit ''dns'') 3000000 4000000 Failed,
     AttachCall 7 (lit ''orders''), RecordCall (lit ''cache'') 4000000 9000000 Ok, ReadyCall 10000000]"

definition boot0 :: config where
  "boot0 = foldl (seq_call (lit ''svc'')) (init_config tm0) calls0"

lemma drain_sel [simp]:
  "cf_tl (seq_call dflt c k) = fst (exec_call dflt (cf_tl c) k)"
  "cf_before (seq_call dflt c k) = cf_before c @ (if attached (cf_tl c) then [] else call_phases (cf_tl c) k)"
  "cf_after (seq_call dflt c k) = cf_after c @ (if attached (cf_tl c) then call_phases (cf_tl c) k else [])"
  by (simp_all add: seq_call_def drain_def)

lemma init_config_sel [simp]:
  "cf_tl (init_config tm) = tm" "cf_before (init_config tm) = []" "cf_after (init_config tm) = []"
  by (simp_all add: init_config_def)

lemma tm0_sel [simp]:
  "tl_origin tm0 = 0" "tl_state tm0 = bstate_default"
  by (simp_all add: tm0_def starting_at_def)

lemma root_of_state [simp]: "root_of (tm\<lparr>tl_state := st\<rparr>) p = root_of tm p"
  by (simp add: root_of_def)

lemmas run_sim = record_phase_fst ready_fst attach_first attached_def attached_state_def bstate_default_def
  take_root_fst ends_root_def MAX_PHASES_def

lemma boot0_reach: "boot_reach (lit ''svc'') boot0"
  unfolding boot0_def by (rule boot_reach_run) (simp add: tm0_def starting_at_def)

lemma boot0_quiet: "quiet boot0"
  by (simp add: boot0_def calls0_def quiet_seq)

lemma boot0_attached: "bs_exporter (tl_state (cf_tl boot0)) = Some (root_of tm0 7)"
  by (simp add: boot0_def calls0_def run_sim)

lemma boot0_phases:
  "map ph_name (cf_before boot0) = [lit ''config'', lit ''dns'']" "map ph_name (cf_after boot0) = [lit ''cache'']"
  by (simp_all add: boot0_def calls0_def run_sim mk_phase_def)

lemma boot0_ready: "bs_ready (tl_state (cf_tl boot0)) \<noteq> None"
  by (simp add: boot0_def calls0_def run_sim)

lemma boot0_count: "length (cf_before boot0) = 2" "length (cf_after boot0) = 1"
  using boot0_phases by (metis length_map One_nat_def Suc_1 length_Cons list.size(3))+

section \<open>Properties\<close>

text \<open>
  C4. Exactly once. However the threads of a boot interleave, once they have performed their
  effects and a provider is attached, the spans exported are exactly one per phase, under the
  one exporter: every phase still buffered when the provider was attached (the first 256
  recorded before it) and every phase recorded after it, whether or not it fitted the buffer.
\<close>

theorem every_phase_exported_once:
  assumes "boot_reach dflt c" and "quiet c" and "bs_exporter (tl_state (cf_tl c)) = Some ex"
  shows "filter_mset is_span (mset (cf_out c)) =
    image_mset (\<lambda>p. SpanEnd ex (phase_span p)) (mset (take MAX_PHASES (cf_before c) @ cf_after c))"
  using boot_reach_inv [OF assms(1)] assms(3)
  by (simp add: quiet_all_eff [OF assms(2), symmetric] boot_inv_def inv_due_def cf_state_def due_def)

theorem every_phase_exported_once_witness:
  "filter_mset is_span (mset (cf_out boot0)) =
    image_mset (\<lambda>p. SpanEnd (root_of tm0 7) (phase_span p)) (mset (take MAX_PHASES (cf_before boot0) @ cf_after boot0))
   \<and> map ph_name (cf_before boot0) = [lit ''config'', lit ''dns''] \<and> map ph_name (cf_after boot0) = [lit ''cache'']"
using every_phase_exported_once [OF boot0_reach boot0_quiet boot0_attached] boot0_phases by blast

text \<open>
  Never twice, at any moment. Also while threads still hold effects to perform, the spans
  exported so far are among those of the phases due, and without a provider there are none.
\<close>

lemma no_phase_exported_twice:
  assumes "boot_reach dflt c"
  shows "case bs_exporter (tl_state (cf_tl c)) of
      None \<Rightarrow> filter is_span (cf_out c) = []
    | Some ex \<Rightarrow> filter_mset is_span (mset (cf_out c)) \<subseteq>#
        image_mset (\<lambda>p. SpanEnd ex (phase_span p)) (mset (take MAX_PHASES (cf_before c) @ cf_after c))"
proof -
  have inv: "filter_mset is_span (mset (cf_out c)) \<subseteq># filter_mset is_span (all_eff c)"
    by (simp add: all_eff_def)
  have spans: "filter_mset is_span (all_eff c) = (case bs_exporter (cf_state c) of None \<Rightarrow> {#}
      | Some ex \<Rightarrow> image_mset (\<lambda>p. SpanEnd ex (phase_span p)) (mset (due c)))"
    using boot_reach_inv [OF assms] by (simp add: boot_inv_def inv_due_def)
  show ?thesis
  proof (cases "bs_exporter (tl_state (cf_tl c))")
    case None
    with inv spans have "filter_mset is_span (mset (cf_out c)) = {#}" by (simp add: cf_state_def)
    with None show ?thesis by (simp add: filter_empty_conv)
  next
    case (Some ex)
    with inv spans show ?thesis by (simp add: cf_state_def due_def)
  qed
qed

text \<open>
  C5. The buffer is bounded and keeps the earliest phases: it is always the first 256 phases
  recorded, in order, and the count of dropped ones is exact (modulo the width of the counter).
\<close>

theorem buffer_is_bounded_prefix:
  assumes "boot_reach dflt c"
  shows "phases (cf_tl c) = take MAX_PHASES (cf_before c @ cf_after c)
    \<and> length (phases (cf_tl c)) \<le> 256
    \<and> unat (bs_dropped (tl_state (cf_tl c))) = (length (cf_before c @ cf_after c) - 256) mod 2 ^ 64"
  using boot_reach_inv [OF assms]
  by (auto simp: boot_inv_def inv_buffer_def phases_def cf_state_def recorded_phases_def MAX_PHASES_def
      unat_of_nat take_bit_eq_mod)

theorem buffer_is_bounded_prefix_witness:
  "phases (cf_tl boot0) = take MAX_PHASES (cf_before boot0 @ cf_after boot0) \<and> length (phases (cf_tl boot0)) = 3"
using buffer_is_bounded_prefix [OF boot0_reach] boot0_count by (simp add: MAX_PHASES_def)

text \<open>
  C6. One root span. In any interleaving at most one root starts and at most one ends; no
  span of a phase and no end of the root is performed before the root has started; and when
  the boot is ready, a provider is attached and the threads are quiet, the root has ended.
\<close>

theorem one_root_span:
  assumes "boot_reach dflt c"
  shows "size (filter_mset is_root_start (mset (cf_out c))) \<le> 1
    \<and> size (filter_mset is_root_end (mset (cf_out c))) \<le> 1
    \<and> (\<forall>e pre post. cf_out c = pre @ e # post \<longrightarrow> is_span e \<or> is_root_end e \<longrightarrow> list_ex is_root_start pre)
    \<and> (quiet c \<and> bs_ready (tl_state (cf_tl c)) \<noteq> None \<and> bs_exporter (tl_state (cf_tl c)) \<noteq> None
         \<longrightarrow> size (filter_mset is_root_end (mset (cf_out c))) = 1)"
proof -
  have inv: "inv_root c" "inv_order c"
    using boot_reach_inv [OF assms] by (simp_all add: boot_inv_def)
  have sub: "size (filter_mset P (mset (cf_out c))) \<le> size (filter_mset P (all_eff c))" for P
    by (rule size_mset_mono) (simp add: all_eff_def)
  have "size (filter_mset is_root_start (all_eff c)) \<le> 1"
    using inv(1) by (simp add: inv_root_def split: option.splits)
  moreover have "size (filter_mset is_root_end (all_eff c)) \<le> 1"
    using inv(1) by (simp add: inv_root_def)
  ultimately have "size (filter_mset is_root_start (mset (cf_out c))) \<le> 1"
    "size (filter_mset is_root_end (mset (cf_out c))) \<le> 1"
    using sub [of is_root_start] sub [of is_root_end] by linarith+
  moreover have "\<forall>e pre post. cf_out c = pre @ e # post \<longrightarrow> is_span e \<or> is_root_end e \<longrightarrow> list_ex is_root_start pre"
    using inv(2) by (simp add: inv_order_def rooted_def needs_root_def)
  moreover have "size (filter_mset is_root_end (mset (cf_out c))) = 1"
    if "quiet c" "bs_ready (tl_state (cf_tl c)) \<noteq> None" "bs_exporter (tl_state (cf_tl c)) \<noteq> None"
    using inv(1) that quiet_all_eff [OF that(1)]
    by (simp add: inv_root_def has_ready_def cf_state_def)
  ultimately show ?thesis by blast
qed

theorem one_root_span_witness:
  "size (filter_mset is_root_end (mset (cf_out boot0))) = 1"
using one_root_span [OF boot0_reach] boot0_quiet boot0_attached boot0_ready by simp

text \<open>
  Standard error carries one line per recorded phase, buffered or dropped, and one ready
  line: when the threads are quiet, its lines number the phases recorded plus one if the boot
  is ready, telemetry enabled or not.
\<close>

lemma one_line_per_phase:
  assumes "boot_reach dflt c" and "quiet c"
  shows "size (filter_mset is_stderr (mset (cf_out c))) =
    length (cf_before c @ cf_after c) + (if bs_ready (tl_state (cf_tl c)) \<noteq> None then 1 else 0)"
  using boot_reach_inv [OF assms(1)]
  by (simp add: quiet_all_eff [OF assms(2), symmetric] boot_inv_def inv_echo_def has_ready_def
      cf_state_def recorded_phases_def)

text \<open>
  Flushing is idempotent. A first flush of a reachable timeline reports the number of
  phases it exports and performs exactly that many exports; any later one, of any provider,
  reports zero, changes nothing and performs nothing.
\<close>

lemma flush_is_idempotent:
  assumes "boot_reach dflt c" and "bs_exporter (tl_state (cf_tl c)) = None"
    and "flush (cf_tl c) p n = (r, tm', inside, after)"
  shows "r = length (phases (cf_tl c)) \<and> length (filter is_span after) = r
    \<and> flush tm' p' n' = (0, tm', [], [])"
proof -
  have inv: "inv_buffer c" "inv_flags c" "inv_root c"
    using boot_reach_inv [OF assms(1)] by (simp_all add: boot_inv_def)
  have na: "\<not> attached (cf_tl c)" using assms(2) by (simp add: attached_def)
  have "unexported (cf_state c) = phases (cf_tl c)"
    using unexported_all [OF inv(1,2) na] inv(1)
    by (simp add: phases_def inv_buffer_def cf_state_def recorded_phases_def)
  moreover have "attached tm'"
    using assms(3) by (auto simp: flush_def attach_first [OF na not_ended [OF inv(3) na]]
        attached_def attached_state_def)
  ultimately show ?thesis
    using assms(3)
    by (auto simp: flush_def attach_first [OF na not_ended [OF inv(3) na]] attach_again cf_state_def)
qed

definition boot1 :: config where
  "boot1 = foldl (seq_call (lit ''svc'')) (init_config tm0) (take 2 calls0)"

lemma boot1_reach: "boot_reach (lit ''svc'') boot1"
  unfolding boot1_def by (rule boot_reach_run) (simp add: tm0_def starting_at_def)

lemma flush_is_idempotent_witness:
  "\<exists>tm' inside after. flush (cf_tl boot1) 7 (lit ''orders'') = (2, tm', inside, after)
     \<and> length (filter is_span after) = 2 \<and> flush tm' 8 (lit ''other'') = (0, tm', [], [])"
proof -
  obtain r tm' inside after where f: "flush (cf_tl boot1) 7 (lit ''orders'') = (r, tm', inside, after)"
    by (cases "flush (cf_tl boot1) 7 (lit ''orders'')") auto
  have "bs_exporter (tl_state (cf_tl boot1)) = None" "length (phases (cf_tl boot1)) = 2"
    by (simp_all add: boot1_def calls0_def run_sim phases_def)
  with flush_is_idempotent [OF boot1_reach _ f, of 8 "lit ''other''"] f show ?thesis by auto
qed

text \<open>
  Durations and wall-clock times agree: a phase that starts at or after the origin has,
  on the wall clock it is exported with, exactly the length measured on the monotonic clock,
  and ends \<open>at\<close> after the wall-clock origin, whatever the wall clock did meanwhile.
\<close>

lemma wall_times_match_monotonic:
  assumes "tl_origin tm \<le> start" and "start \<le> end'"
  shows "ph_end (mk_phase tm n start end' o') - ph_start (mk_phase tm n start end' o')
      = int (ph_took (mk_phase tm n start end' o'))
    \<and> ph_end (mk_phase tm n start end' o') = tl_wall tm + int (ph_at (mk_phase tm n start end' o'))
    \<and> int (ph_took (mk_phase tm n start end' o')) = end' - start"
  using assms by (simp add: mk_phase_def wall_def saturating_duration_since_def)

lemma ready_again: "bs_ready (tl_state tm) \<noteq> None \<Longrightarrow> ready dflt tm e = (tm, [])"
  by (simp add: ready_def Let_def)

lemma ready_is_ready: "bs_ready (tl_state (fst (ready dflt tm e))) \<noteq> None"
  by (simp add: ready_fst take_root_fst)

lemma close_again: "\<not> ends_root (tl_state tm) \<Longrightarrow> close tm e = (tm, [])"
  using close_fst [of tm e] close_snd [of tm e] by (simp add: take_root_fst prod_eq_iff)

lemma close_closes: "\<not> ends_root (tl_state (fst (close tm e)))"
  by (simp add: close_fst take_root_fst ends_root_def)

text \<open>
  Ready and close are final. Marking ready twice is the same as once, a close after the
  root has ended does nothing, and a close without a provider does nothing at all.
\<close>

lemma ready_and_close_once:
  "ready dflt (fst (ready dflt tm e)) e' = (fst (ready dflt tm e), [])
   \<and> close (fst (close tm e)) e' = (fst (close tm e), [])
   \<and> (bs_exporter (tl_state tm) = None \<or> bs_root_ended (tl_state tm) \<longrightarrow> close tm e = (tm, []))"
using ready_again [OF ready_is_ready [of dflt tm e], of dflt e']
    close_again [of "fst (close tm e)" e'] close_again [of tm e] close_closes [of tm e]
  by (auto simp: ends_root_def)

end
