(* ===== verification/BootGuard.thy ===== *)
theory BootGuard
  imports BootContract
begin

text \<open>
  \<open>PhaseGuard\<close> and the functions that time a piece of work (\<open>src/src/boot.rs\<close>).
  A guard only needs something that records phases, so its operations take the recorder as an
  argument; the interface \<open>phase_recorder\<close> says what a recorder promises, and the timeline
  writing to standard error is shown to be one.
\<close>

section \<open>Guards\<close>

record guard =
  pg_name :: "rstring option"
  pg_start :: instant

type_synonym 's recorder = "'s \<Rightarrow> rstring \<Rightarrow> instant \<Rightarrow> instant \<Rightarrow> outcome \<Rightarrow> 's"

definition phase_guard :: "rstring \<Rightarrow> instant \<Rightarrow> guard" where
  "phase_guard name now = \<lparr>pg_name = Some name, pg_start = now\<rparr>"

text \<open>\<open>PhaseGuard::end\<close>: the name is taken, so a guard records at most once.\<close>

definition guard_end :: "'s recorder \<Rightarrow> 's \<Rightarrow> guard \<Rightarrow> instant \<Rightarrow> outcome \<Rightarrow> 's \<times> guard" where
  "guard_end rec s g now o' =
     (case pg_name g of
        None \<Rightarrow> (s, g)
      | Some name \<Rightarrow> (rec s name (pg_start g) now o', g\<lparr>pg_name := None\<rparr>))"

definition guard_drop :: "'s recorder \<Rightarrow> 's \<Rightarrow> guard \<Rightarrow> instant \<Rightarrow> 's" where
  "guard_drop rec s g now = fst (guard_end rec s g now Failed)"

text \<open>
  \<open>finish\<close> and \<open>fail\<close> consume the guard, so its destructor runs on return:
  \<open>now\<close> and \<open>now'\<close> are the clock at \<open>end\<close> and at the drop.
\<close>

definition guard_finish :: "'s recorder \<Rightarrow> 's \<Rightarrow> guard \<Rightarrow> instant \<Rightarrow> instant \<Rightarrow> 's" where
  "guard_finish rec s g now now' =
     (let (s, g) = guard_end rec s g now Ok in guard_drop rec s g now')"

definition guard_fail :: "'s recorder \<Rightarrow> 's \<Rightarrow> guard \<Rightarrow> instant \<Rightarrow> instant \<Rightarrow> 's" where
  "guard_fail rec s g now now' =
     (let (s, g) = guard_end rec s g now Failed in guard_drop rec s g now')"

section \<open>Timed work\<close>

text \<open>
  Awaiting the work either completes with its output or is abandoned: the future is dropped or
  the work panics. Either way the work may itself have recorded phases.
\<close>

datatype 'a run = Completed 'a | Abandoned

definition time ::
    "'s recorder \<Rightarrow> 's \<Rightarrow> rstring \<Rightarrow> instant \<Rightarrow> ('s \<Rightarrow> 's \<times> 'a run) \<Rightarrow> instant \<Rightarrow> instant \<Rightarrow> 's \<times> 'a run" where
  "time rec s name start work now now' =
     (let g = phase_guard name start; (s, output) = work s in
      case output of
        Completed a \<Rightarrow> (guard_finish rec s g now now', Completed a)
      | Abandoned \<Rightarrow> (guard_drop rec s g now, Abandoned))"

definition try_time ::
    "'s recorder \<Rightarrow> 's \<Rightarrow> rstring \<Rightarrow> instant \<Rightarrow> ('s \<Rightarrow> 's \<times> ('e + 'a) run) \<Rightarrow> instant \<Rightarrow> instant
       \<Rightarrow> 's \<times> ('e + 'a) run" where
  "try_time rec s name start work now now' =
     (let g = phase_guard name start; (s, output) = work s in
      case output of
        Completed r \<Rightarrow>
          (case r of
             Inr a \<Rightarrow> (guard_finish rec s g now now', Completed r)
           | Inl e \<Rightarrow> (guard_fail rec s g now now', Completed r))
      | Abandoned \<Rightarrow> (guard_drop rec s g now, Abandoned))"

text \<open>The outcome a reader of the log expects for a finished run.\<close>

definition run_outcome :: "('a \<Rightarrow> bool) \<Rightarrow> 'a run \<Rightarrow> outcome" where
  "run_outcome good r = (case r of Completed a \<Rightarrow> if good a then Ok else Failed | Abandoned \<Rightarrow> Failed)"

section \<open>The interface\<close>

text \<open>A recorder with a log in which each record appends one entry of its phase.\<close>

locale phase_recorder =
  fixes rec :: "'s recorder"
    and log :: "'s \<Rightarrow> 'l list"
    and entry :: "rstring \<Rightarrow> outcome \<Rightarrow> 'l"
  assumes rec_log: "log (rec s name start now o') = log s @ [entry name o']"
begin

lemma end_logs:
  "log (fst (guard_end rec s g now o')) =
     log s @ (case pg_name g of None \<Rightarrow> [] | Some name \<Rightarrow> [entry name o'])"
  by (simp add: guard_end_def rec_log split: option.split)

lemma end_spends: "pg_name (snd (guard_end rec s g now o')) = None"
  by (simp add: guard_end_def split: option.split)

lemma drop_spent: "pg_name g = None \<Longrightarrow> guard_drop rec s g now = s"
  by (simp add: guard_drop_def guard_end_def)

lemma drop_logs: "log (guard_drop rec s (phase_guard name start) now) = log s @ [entry name Failed]"
  by (simp add: guard_drop_def phase_guard_def end_logs)

lemma finish_logs: "log (guard_finish rec s (phase_guard name start) now now') = log s @ [entry name Ok]"
  by (simp add: guard_finish_def case_prod_beta drop_spent end_spends end_logs phase_guard_def)

lemma fail_logs: "log (guard_fail rec s (phase_guard name start) now now') = log s @ [entry name Failed]"
  by (simp add: guard_fail_def case_prod_beta drop_spent end_spends end_logs phase_guard_def)

lemma time_logs:
  "log (fst (time rec s name start work now now')) =
     log (fst (work s)) @ [entry name (run_outcome (\<lambda>_. True) (snd (work s)))]"
  by (simp add: time_def Let_def case_prod_beta run_outcome_def finish_logs drop_logs split: run.split)

lemma time_returns: "snd (time rec s name start work now now') = snd (work s)"
  by (simp add: time_def Let_def case_prod_beta split: run.split)

lemma try_time_logs:
  "log (fst (try_time rec s name start work now now')) =
     log (fst (work s)) @ [entry name (run_outcome (\<lambda>r. \<not> isl r) (snd (work s)))]"
  by (auto simp: try_time_def Let_def case_prod_beta run_outcome_def finish_logs fail_logs drop_logs
      split: run.split sum.split)

lemma try_time_returns: "snd (try_time rec s name start work now now') = snd (work s)"
  by (simp add: try_time_def Let_def case_prod_beta split: run.split sum.split)

end

section \<open>The timeline as a recorder\<close>

text \<open>A timeline with the effects performed so far.\<close>

type_synonym sink = "timeline \<times> effect list"

definition sink_record :: "rstring \<Rightarrow> sink recorder" where
  "sink_record dflt s name start now o' =
     (let (tm, eff) = record_phase dflt (fst s) name start now o' in (tm, snd s @ eff))"

text \<open>What standard error says: the phase and the outcome of each of its lines, read back.\<close>

fun stderr_lines :: "effect list \<Rightarrow> rstring list" where
  "stderr_lines [] = []"
| "stderr_lines (Stderr l # es) = l # stderr_lines es"
| "stderr_lines (_ # es) = stderr_lines es"

definition stderr_log :: "sink \<Rightarrow> (rstring \<times> rstring) list option list" where
  "stderr_log s = map (\<lambda>l. map_option (take 2) (read_line l)) (stderr_lines (snd s))"

definition phase_entry :: "rstring \<Rightarrow> outcome \<Rightarrow> (rstring \<times> rstring) list option" where
  "phase_entry name o' = Some [(lit ''phase'', name), (lit ''outcome'', outcome_str o')]"

lemma stderr_lines_append [simp]: "stderr_lines (xs @ ys) = stderr_lines xs @ stderr_lines ys"
  by (induction xs rule: stderr_lines.induct) simp_all

lemma stderr_lines_export [simp]: "stderr_lines (export ex ph) = []"
  by (simp add: export_def phase_event_def Let_def split: outcome.split)

lemma stderr_lines_record:
  "\<exists>took at service. stderr_lines (snd (record_phase dflt tm n s e o')) = [line n o' took at service]"
  by (auto simp: record_phase_def Let_def mk_phase_def split: option.split)

interpretation stderr_rec: phase_recorder "sink_record dflt" stderr_log phase_entry
proof
  fix s :: sink and name start now o'
  obtain took at service where
    "stderr_lines (snd (record_phase dflt (fst s) name start now o')) = [line name o' took at service]"
    using stderr_lines_record by blast
  then show "stderr_log (sink_record dflt s name start now o') = stderr_log s @ [phase_entry name o']"
    by (simp add: stderr_log_def sink_record_def case_prod_beta read_line_line line_fields_def phase_entry_def)
qed

section \<open>Properties\<close>

text \<open>
  A guard records exactly one phase: finishing it logs one successful phase, failing or
  dropping it logs one failed phase, and the destructor that follows \<open>finish\<close> and
  \<open>fail\<close> adds nothing, whatever the state of the timeline.
\<close>

lemma guard_records_once:
  "stderr_log (guard_finish (sink_record dflt) s (phase_guard name start) now now')
     = stderr_log s @ [phase_entry name Ok]
   \<and> stderr_log (guard_fail (sink_record dflt) s (phase_guard name start) now now')
     = stderr_log s @ [phase_entry name Failed]
   \<and> stderr_log (guard_drop (sink_record dflt) s (phase_guard name start) now)
     = stderr_log s @ [phase_entry name Failed]"
  by (intro conjI stderr_rec.finish_logs stderr_rec.fail_logs stderr_rec.drop_logs)

text \<open>
  Timing fallible work returns what the work returned and logs one phase after all those
  the work itself logged, successful exactly when the work completed with a value: an error, a
  cancelled future and a panic are all logged as a failed phase.
\<close>

lemma try_time_logs_outcome:
  "snd (try_time (sink_record dflt) s name start work now now') = snd (work s)
   \<and> stderr_log (fst (try_time (sink_record dflt) s name start work now now'))
     = stderr_log (fst (work s))
       @ [phase_entry name (case snd (work s) of Completed (Inr a) \<Rightarrow> Ok | _ \<Rightarrow> Failed)]"
  by (simp add: stderr_rec.try_time_returns stderr_rec.try_time_logs run_outcome_def
      split: run.split sum.split)

end
