(* ===== verification/BootGlobal.thy ===== *)
theory BootGlobal
  imports BootGuard
begin

text \<open>
  The process-wide timeline of \<open>src/src/boot.rs\<close>: the two statics, which are initialised
  by their first use and never again, the free functions that act on it, and the threads of a
  process that all use it. The timeline a process uses is one of those of \<open>BootContract\<close>.
\<close>

section \<open>Statics\<close>

text \<open>What an initialiser would read of the system at some moment.\<close>

record reading =
  rd_age :: "duration option"
  rd_now :: instant
  rd_now' :: instant
  rd_wall1 :: systime
  rd_wall2 :: systime
  rd_env_name :: "rstring option"
  rd_exe_stem :: "rstring option"

text \<open>\<open>OnceLock::get_or_init\<close>.\<close>

definition get_or_init :: "'a option \<Rightarrow> 'a \<Rightarrow> 'a" where
  "get_or_init cell v = unwrap_or cell v"

text \<open>
  The statics \<open>GLOBAL\<close>, with the threads that use it and what they have done, and
  \<open>NAME\<close>; and, for the specification only, the reading the timeline was made from.
\<close>

record process =
  pr_boot :: "config option"
  pr_name :: "rstring option"
  pr_made_from :: "reading option"

definition process_start :: process where
  "process_start = \<lparr>pr_boot = None, pr_name = None, pr_made_from = None\<rparr>"

definition timeline_from :: "reading \<Rightarrow> timeline" where
  "timeline_from rd = global_init (rd_age rd) (rd_now rd) (rd_now' rd) (rd_wall1 rd) (rd_wall2 rd)"

definition Timeline_global :: "reading \<Rightarrow> process \<Rightarrow> process" where
  "Timeline_global rd p =
     (case pr_boot p of
        Some c \<Rightarrow> p
      | None \<Rightarrow> p\<lparr>pr_boot := Some (init_config (timeline_from rd)), pr_made_from := Some rd\<rparr>)"

definition name_static :: "reading \<Rightarrow> process \<Rightarrow> rstring" where
  "name_static rd p = get_or_init (pr_name p) (default_service_name (rd_env_name rd) (rd_exe_stem rd))"

text \<open>Whether a call asks for the label of a timeline that has no name of its own.\<close>

definition asks_name :: "timeline \<Rightarrow> call \<Rightarrow> bool" where
  "asks_name tm k \<longleftrightarrow> bs_service (tl_state tm) = None
     \<and> (case k of RecordCall n s e o' \<Rightarrow> True | ReadyCall e \<Rightarrow> bs_ready (tl_state tm) = None | _ \<Rightarrow> False)"

text \<open>
  A call on the global timeline by a thread: \<open>run\<close> says how far its effects get before
  another thread runs.
\<close>

definition global_call ::
    "(rstring \<Rightarrow> config \<Rightarrow> call \<Rightarrow> config) \<Rightarrow> reading \<Rightarrow> call \<Rightarrow> process \<Rightarrow> process" where
  "global_call run rd k p =
     (let p = Timeline_global rd p; c = the (pr_boot p); name = name_static rd p
      in p\<lparr>pr_boot := Some (run name c k),
           pr_name := (if asks_name (cf_tl c) k then Some name else pr_name p)\<rparr>)"

section \<open>The free functions\<close>

text \<open>
  A thread that runs alone. \<open>phase\<close> makes a guard on the global timeline, which records
  there when it ends; \<open>time\<close> and \<open>try_time\<close> are futures, so nothing of them happens,
  the first use of the timeline included, before they are polled. \<open>rd\<close> is what a first use
  would read, \<open>rd'\<close> what is read when the phase is recorded.
\<close>

definition global_record :: "reading \<Rightarrow> process recorder" where
  "global_record rd p name start now o' = global_call seq_call rd (RecordCall name start now o') p"

definition global_phase :: "reading \<Rightarrow> rstring \<Rightarrow> instant \<Rightarrow> process \<Rightarrow> process \<times> guard" where
  "global_phase rd name now p = (Timeline_global rd p, phase_guard name now)"

definition global_time ::
    "reading \<Rightarrow> reading \<Rightarrow> rstring \<Rightarrow> instant \<Rightarrow> (process \<Rightarrow> process \<times> 'a run) \<Rightarrow> instant \<Rightarrow> instant \<Rightarrow> process
       \<Rightarrow> process \<times> 'a run" where
  "global_time rd rd' name start work now now' p =
     time (global_record rd') (Timeline_global rd p) name start work now now'"

definition global_try_time ::
    "reading \<Rightarrow> reading \<Rightarrow> rstring \<Rightarrow> instant \<Rightarrow> (process \<Rightarrow> process \<times> ('e + 'a) run) \<Rightarrow> instant \<Rightarrow> instant \<Rightarrow> process
       \<Rightarrow> process \<times> ('e + 'a) run" where
  "global_try_time rd rd' name start work now now' p =
     try_time (global_record rd') (Timeline_global rd p) name start work now now'"

definition global_ready :: "reading \<Rightarrow> instant \<Rightarrow> process \<Rightarrow> process" where
  "global_ready rd now p = global_call seq_call rd (ReadyCall now) p"

section \<open>A process as a recorder\<close>

definition process_effects :: "process \<Rightarrow> effect list" where
  "process_effects p = (case pr_boot p of None \<Rightarrow> [] | Some c \<Rightarrow> cf_out c @ concat (cf_queues c))"

definition process_log :: "process \<Rightarrow> (rstring \<times> rstring) list option list" where
  "process_log p = map (\<lambda>l. map_option (take 2) (read_line l)) (stderr_lines (process_effects p))"

lemma Timeline_global_some [simp]: "pr_boot p = Some c \<Longrightarrow> Timeline_global rd p = p"
  by (simp add: Timeline_global_def)

lemma Timeline_global_boot: "pr_boot (Timeline_global rd p) \<noteq> None"
  by (simp add: Timeline_global_def split: option.split)

lemma Timeline_global_twice [simp]: "Timeline_global rd' (Timeline_global rd p) = Timeline_global rd p"
  using Timeline_global_boot [of rd p] by auto

lemma Timeline_global_effects [simp]: "process_effects (Timeline_global rd p) = process_effects p"
  by (simp add: Timeline_global_def process_effects_def init_config_def split: option.split)

lemma seq_call_effects:
  "cf_out (seq_call dflt c k) @ concat (cf_queues (seq_call dflt c k))
     = cf_out c @ call_inside dflt c k @ concat (cf_queues c) @ call_after dflt c k"
  by (simp add: seq_call_def drain_def map_replicate_const)

lemma process_log_record: "process_log (global_record rd p name start now o') = process_log p @ [phase_entry name o']"
proof -
  obtain c where c: "pr_boot (Timeline_global rd p) = Some c" using Timeline_global_boot by blast
  obtain took at service where "stderr_lines (call_after (name_static rd (Timeline_global rd p)) c
      (RecordCall name start now o')) = [line name o' took at service]"
    using stderr_lines_record by (fastforce simp: call_after_def)
  moreover have "process_effects p = cf_out c @ concat (cf_queues c)"
    using c Timeline_global_effects [of rd p] by (simp add: process_effects_def)
  ultimately show ?thesis
    by (simp add: process_log_def process_effects_def global_record_def global_call_def Let_def c seq_call_effects
        call_inside_def read_line_line line_fields_def phase_entry_def)
qed

interpretation global_rec: phase_recorder "global_record rd" process_log phase_entry
  by unfold_locales (rule process_log_record)

section \<open>Threads\<close>

text \<open>
  Any number of threads: each uses the global timeline, which may be its first use, and performs
  its effects; other timelines may ask for the default name in between.
\<close>

inductive process_step :: "process \<Rightarrow> process \<Rightarrow> bool" where
  use: "process_step p (Timeline_global rd p)"
| call: "process_step p (global_call run_call rd k p)"
| emit: "pr_boot p = Some c \<Longrightarrow> i < length (cf_queues c) \<Longrightarrow> cf_queues c ! i = e # q \<Longrightarrow>
     process_step p (p\<lparr>pr_boot := Some (c\<lparr>cf_queues := (cf_queues c)[i := q], cf_out := cf_out c @ [e]\<rparr>)\<rparr>)"
| elsewhere: "process_step p (p\<lparr>pr_name := Some (name_static rd p)\<rparr>)"

inductive process_reach :: "process \<Rightarrow> bool" where
  start: "process_reach process_start"
| step: "process_reach p \<Longrightarrow> process_step p p' \<Longrightarrow> process_reach p'"

text \<open>What a timeline counts from never changes.\<close>

definition same_origin :: "timeline \<Rightarrow> timeline \<Rightarrow> bool" where
  "same_origin tm tm' \<longleftrightarrow> tl_origin tm = tl_origin tm' \<and> tl_source tm = tl_source tm' \<and> tl_wall tm = tl_wall tm'"

lemma same_origin_call: "same_origin (fst (exec_call dflt tm k)) tm"
  by (cases k)
     (simp_all add: same_origin_def set_service_name_def record_phase_fst ready_fst close_fst attach_def Let_def
        case_prod_beta)

lemma same_origin_trans: "same_origin tm tm' \<Longrightarrow> same_origin tm' tm'' \<Longrightarrow> same_origin tm tm''"
  by (simp add: same_origin_def)

text \<open>A call that does not ask for the name does the same whatever it is.\<close>

lemma exec_call_unasked: "\<not> asks_name tm k \<Longrightarrow> exec_call d tm k = exec_call d' tm k"
  by (cases k)
     (auto simp: asks_name_def record_phase_def ready_def service_label_def Let_def case_prod_beta take_root_fst)

lemma run_call_unasked: "\<not> asks_name (cf_tl c) k \<Longrightarrow> run_call d c k = run_call d' c k"
  by (simp add: run_call_def exec_call_unasked [of "cf_tl c" k d d'])

definition process_inv :: "process \<Rightarrow> bool" where
  "process_inv p \<longleftrightarrow>
     (case pr_boot p of
        None \<Rightarrow> pr_made_from p = None
      | Some c \<Rightarrow> (\<exists>rd. pr_made_from p = Some rd \<and> same_origin (cf_tl c) (timeline_from rd))
          \<and> (\<forall>d. pr_name p \<in> {None, Some d} \<longrightarrow> boot_reach d c))"

lemma process_inv_global: "process_inv p \<Longrightarrow> process_inv (Timeline_global rd p)"
  by (cases "pr_boot p")
     (auto simp: process_inv_def Timeline_global_def same_origin_def init_config_def timeline_from_def global_init_def
        starting_at_def intro: boot_reach.start [unfolded init_config_def] split: option.split)

lemma process_inv_call:
  assumes "process_inv p" and "pr_boot p = Some c"
  shows "process_inv (global_call run_call rd k p)"
proof -
  from assms obtain made where made: "pr_made_from p = Some made" "same_origin (cf_tl c) (timeline_from made)"
    by (auto simp: process_inv_def)
  have "same_origin (cf_tl (run_call d c k)) (timeline_from made)" for d
    using same_origin_trans [OF same_origin_call made(2)] by simp
  moreover have "boot_reach d (run_call (name_static rd p) c k)"
    if "asks_name (cf_tl c) k \<longrightarrow> d = name_static rd p" "\<not> asks_name (cf_tl c) k \<longrightarrow> pr_name p \<in> {None, Some d}" for d
  proof -
    have "boot_reach d c"
      using that assms by (auto simp: process_inv_def name_static_def get_or_init_def split: option.splits)
    moreover have "run_call (name_static rd p) c k = run_call d c k"
      using that(1) run_call_unasked by blast
    ultimately show ?thesis by (simp add: boot_reach.step [OF _ boot_step.call])
  qed
  ultimately show ?thesis
    using made(1) assms(2) by (auto simp: process_inv_def global_call_def Let_def)
qed

lemma process_inv_step: "process_step p p' \<Longrightarrow> process_inv p \<Longrightarrow> process_inv p'"
proof (induction rule: process_step.induct)
  case (use p rd)
  then show ?case by (rule process_inv_global)
next
  case (call p rd k)
  obtain c where c: "pr_boot (Timeline_global rd p) = Some c" using Timeline_global_boot by blast
  have "global_call run_call rd k p = global_call run_call rd k (Timeline_global rd p)"
    by (simp add: global_call_def Let_def)
  with process_inv_call [OF process_inv_global [OF call] c] show ?case by simp
next
  case (emit p c i e q)
  with boot_reach.step [OF _ boot_step.emit [OF emit(2,3)]] show ?case by (auto simp: process_inv_def)
next
  case (elsewhere p rd)
  then show ?case
    by (cases "pr_name p") (auto simp: process_inv_def name_static_def get_or_init_def split: option.split_asm option.split)
qed

lemma process_inv_reach: "process_reach p \<Longrightarrow> process_inv p"
proof (induction rule: process_reach.induct)
  case start
  show ?case by (simp add: process_inv_def process_start_def)
next
  case (step p p')
  from process_inv_step [OF step(2) step.IH] show ?case .
qed

text \<open>The statics are written once.\<close>

lemma statics_kept:
  assumes "process_step p p'"
  shows "pr_boot p = Some c \<Longrightarrow> \<exists>c'. pr_boot p' = Some c' \<and> pr_made_from p' = pr_made_from p"
    and "pr_name p = Some n \<Longrightarrow> pr_name p' = Some n"
  using assms
  by (induction rule: process_step.induct)
     (auto simp: global_call_def Timeline_global_def name_static_def get_or_init_def Let_def split: option.split)


section \<open>Properties\<close>

text \<open>
  C7. One timeline for the process. However the threads that use the global timeline interleave,
  and whatever the system says at each use, it is a timeline as any other, with all that is proved
  of one; it counts for ever from what its first use read; and once the default name has been
  asked for, by it or by another timeline, it stays.
\<close>

theorem global_timeline_is_one:
  assumes "process_reach p" and "pr_boot p = Some c" and "process_step p p'"
  shows "boot_reach (unwrap_or (pr_name p) d) c
    \<and> (\<exists>rd. pr_made_from p = Some rd \<and> pr_made_from p' = Some rd \<and> same_origin (cf_tl c) (timeline_from rd))
    \<and> (\<forall>n. pr_name p = Some n \<longrightarrow> pr_name p' = Some n)"
proof -
  have "boot_reach (unwrap_or (pr_name p) d) c"
    using process_inv_reach [OF assms(1)] assms(2) by (cases "pr_name p") (simp_all add: process_inv_def)
  with process_inv_reach [OF assms(1)] statics_kept [OF assms(3)] assms(2) show ?thesis
    by (auto simp: process_inv_def)
qed

text \<open>A process whose start is known: one thread says it is ready, and the name is that of the environment.\<close>

definition rd0 :: reading where
  "rd0 = \<lparr>rd_age = Some 3, rd_now = 10, rd_now' = 11, rd_wall1 = 1000, rd_wall2 = 1001,
     rd_env_name = Some (lit ''orders''), rd_exe_stem = None\<rparr>"

definition process0 :: process where
  "process0 = global_call run_call rd0 (ReadyCall 20) process_start"

theorem global_timeline_is_one_witness:
  "boot_reach (lit ''orders'') (the (pr_boot process0)) \<and> tl_origin (cf_tl (the (pr_boot process0))) = 7"
proof -
  obtain c where c: "pr_boot process0 = Some c" by (simp add: process0_def global_call_def Let_def)
  have name: "pr_name process0 = Some (lit ''orders'')" and made: "pr_made_from process0 = Some rd0"
    by (simp_all add: process0_def global_call_def Timeline_global_def process_start_def asks_name_def init_config_def
        timeline_from_def global_init_def starting_at_def bstate_default_def name_static_def get_or_init_def
        default_service_name_def rd0_def lit_def Let_def split: option.split)
  have "process_reach process0"
    unfolding process0_def by (rule process_reach.step [OF process_reach.start process_step.call])
  from global_timeline_is_one [OF this c process_step.use] name made c show ?thesis
    by (auto simp: same_origin_def timeline_from_def global_init_def starting_at_def rd0_def clock_checked_sub_def clock_min_def)
qed

text \<open>
  C8. The free functions log what they time. Asking for a phase logs nothing, whether or not it is
  the first use of the global timeline; finishing its guard later logs one successful phase, failing
  or dropping it one failed phase; and timing a piece of work, fallible or not, returns what the
  work returned and logs one phase after all those the work itself logged, successful exactly when
  it completed and, if fallible, with a value.
\<close>

theorem global_functions_log:
  "process_log (fst (global_phase rd name start p)) = process_log p
   \<and> process_log (guard_finish (global_record rd') q (snd (global_phase rd name start p)) now now')
       = process_log q @ [phase_entry name Ok]
   \<and> process_log (guard_fail (global_record rd') q (snd (global_phase rd name start p)) now now')
       = process_log q @ [phase_entry name Failed]
   \<and> process_log (guard_drop (global_record rd') q (snd (global_phase rd name start p)) now)
       = process_log q @ [phase_entry name Failed]
   \<and> snd (global_time rd rd' name start work now now' p) = snd (work (Timeline_global rd p))
   \<and> process_log (fst (global_time rd rd' name start work now now' p))
       = process_log (fst (work (Timeline_global rd p)))
         @ [phase_entry name (case snd (work (Timeline_global rd p)) of Completed a \<Rightarrow> Ok | Abandoned \<Rightarrow> Failed)]
   \<and> snd (global_try_time rd rd' name start fallible now now' p) = snd (fallible (Timeline_global rd p))
   \<and> process_log (fst (global_try_time rd rd' name start fallible now now' p))
       = process_log (fst (fallible (Timeline_global rd p)))
         @ [phase_entry name (case snd (fallible (Timeline_global rd p)) of Completed (Inr a) \<Rightarrow> Ok | _ \<Rightarrow> Failed)]"
  by (simp add: global_phase_def global_time_def global_try_time_def global_rec.finish_logs global_rec.fail_logs
      global_rec.drop_logs global_rec.time_returns global_rec.time_logs global_rec.try_time_returns
      global_rec.try_time_logs run_outcome_def process_log_def [of "Timeline_global rd p"]
      process_log_def [of p] split: run.split sum.split)

end
