(* ===== verification/BootRefine.thy ===== *)
theory BootRefine
  imports BootContract
begin

text \<open>
  An abstract boot, and that the timeline of \<open>src/src/boot.rs\<close> implements it. The abstract
  boot keeps the whole history of phases and the root span as a three-state machine. The limit of
  \<open>MAX_PHASES\<close> is part of what it promises: the first 256 phases of the history are exported at the
  attachment, and the end of the root reports how many of the history that is and how many the
  others. How the timeline comes to it is the implementation's: a buffer that stops growing, a
  counter that wraps, a mark on each phase exported and a flag for the ended root.
\<close>

section \<open>The specification\<close>

datatype root_state = Unstarted | Open exporter | Ended exporter

record boot_spec =
  sb_origin :: instant
  sb_source :: origin
  sb_wall :: systime
  sb_history :: "phase list"
  sb_service :: "rstring option"
  sb_ready :: "(systime \<times> duration) option"
  sb_root :: root_state

definition spec_boot :: "instant \<Rightarrow> origin \<Rightarrow> systime \<Rightarrow> boot_spec" where
  "spec_boot org source w =
     \<lparr>sb_origin = org, sb_source = source, sb_wall = w, sb_history = [], sb_service = None,
      sb_ready = None, sb_root = Unstarted\<rparr>"

definition spec_wall :: "boot_spec \<Rightarrow> instant \<Rightarrow> systime" where
  "spec_wall sp at = sb_wall sp + int (saturating_duration_since at (sb_origin sp))"

definition spec_phase :: "boot_spec \<Rightarrow> rstring \<Rightarrow> instant \<Rightarrow> instant \<Rightarrow> outcome \<Rightarrow> phase" where
  "spec_phase sp name start end' o' =
     \<lparr>ph_name = name, ph_outcome = o', ph_start = spec_wall sp start, ph_end = spec_wall sp end',
      ph_took = saturating_duration_since end' start, ph_at = saturating_duration_since end' (sb_origin sp)\<rparr>"

text \<open>The end of the root: how many phases its buffer held, how many it did not (as a u64).\<close>

definition spec_root_end :: "boot_spec \<Rightarrow> exporter \<Rightarrow> rstring \<Rightarrow> systime \<Rightarrow> effect list" where
  "spec_root_end sp ex outcome' w =
     [RootEnd ex outcome' (sat_i64 (min 256 (length (sb_history sp))))
        (sat_i64 ((length (sb_history sp) - 256) mod 2 ^ 64)) w]"

fun spec_call :: "rstring \<Rightarrow> boot_spec \<Rightarrow> call \<Rightarrow> boot_spec \<times> effect list \<times> effect list" where
  "spec_call dflt sp (SetName n) = (sp\<lparr>sb_service := Some n\<rparr>, [], [])"
| "spec_call dflt sp (RecordCall n s e o') =
     (let ph = spec_phase sp n s e o' in
      (sp\<lparr>sb_history := sb_history sp @ [ph]\<rparr>, [],
       Stderr (line n o' (ph_took ph) (ph_at ph) (unwrap_or (sb_service sp) dflt))
       # (case sb_root sp of Unstarted \<Rightarrow> [] | Open ex \<Rightarrow> export ex ph | Ended ex \<Rightarrow> export ex ph)))"
| "spec_call dflt sp (ReadyCall e) =
     (if sb_ready sp \<noteq> None then (sp, [], [])
      else
        let at = saturating_duration_since e (sb_origin sp); w = spec_wall sp e;
            ready_lines = Stderr (ready_line at (sb_source sp) (unwrap_or (sb_service sp) dflt))
        in case sb_root sp of
             Open ex \<Rightarrow>
               (sp\<lparr>sb_ready := Some (w, at), sb_root := Ended ex\<rparr>, [],
                ready_lines # spec_root_end sp ex (lit ''ready'') w @ [ready_event at])
           | _ \<Rightarrow> (sp\<lparr>sb_ready := Some (w, at)\<rparr>, [], [ready_lines]))"
| "spec_call dflt sp (AttachCall p name) =
     (if sb_root sp \<noteq> Unstarted then (sp, [], [])
      else
        let ex = \<lparr>ex_provider = p, ex_scope = lit ''otel-bootstrap.boot'', ex_root_start = sb_wall sp,
                  ex_root_origin = sb_source sp\<rparr>;
            sp = sp\<lparr>sb_service := Some (unwrap_or (sb_service sp) name)\<rparr>;
            exports = concat (map (export ex) (take 256 (sb_history sp)))
        in case sb_ready sp of
             None \<Rightarrow> (sp\<lparr>sb_root := Open ex\<rparr>, [RootStart ex], exports)
           | Some (w, at) \<Rightarrow>
               (sp\<lparr>sb_root := Ended ex\<rparr>, [RootStart ex],
                exports @ spec_root_end sp ex (lit ''ready'') w @ [ready_event at]))"
| "spec_call dflt sp (CloseCall now) =
     (case sb_root sp of
        Open ex \<Rightarrow> (sp\<lparr>sb_root := Ended ex\<rparr>, [], spec_root_end sp ex (lit ''incomplete'') (spec_wall sp now))
      | _ \<Rightarrow> (sp, [], []))"

section \<open>The simulation\<close>

fun root_exporter :: "root_state \<Rightarrow> exporter option" where
  "root_exporter Unstarted = None"
| "root_exporter (Open ex) = Some ex"
| "root_exporter (Ended ex) = Some ex"

definition root_is_ended :: "root_state \<Rightarrow> bool" where
  "root_is_ended r \<longleftrightarrow> (\<exists>ex. r = Ended ex)"

definition implements :: "timeline \<Rightarrow> boot_spec \<Rightarrow> bool" where
  "implements tm sp \<longleftrightarrow>
     tl_origin tm = sb_origin sp \<and> tl_source tm = sb_source sp \<and> tl_wall tm = sb_wall sp
     \<and> map rec_phase (bs_phases (tl_state tm)) = take MAX_PHASES (sb_history sp)
     \<and> (\<forall>r\<in>set (bs_phases (tl_state tm)). rec_exported r = (sb_root sp \<noteq> Unstarted))
     \<and> bs_dropped (tl_state tm) = of_nat (length (sb_history sp) - MAX_PHASES)
     \<and> bs_service (tl_state tm) = sb_service sp
     \<and> bs_ready (tl_state tm) = sb_ready sp
     \<and> bs_exporter (tl_state tm) = root_exporter (sb_root sp)
     \<and> bs_root_ended (tl_state tm) = root_is_ended (sb_root sp)"

lemma root_is_ended_simps [simp]:
  "\<not> root_is_ended Unstarted" "\<not> root_is_ended (Open ex)" "root_is_ended (Ended ex)"
  by (simp_all add: root_is_ended_def)

lemma root_exporter_None [simp]: "root_exporter r = None \<longleftrightarrow> r = Unstarted"
  by (cases r) simp_all

lemma implements_times:
  assumes "implements tm sp"
  shows "wall tm = spec_wall sp" "mk_phase tm = spec_phase sp"
  using assms by (auto simp: implements_def wall_def spec_wall_def mk_phase_def spec_phase_def fun_eq_iff)

lemma implements_count:
  assumes "implements tm sp"
  shows "length (bs_phases (tl_state tm)) = min 256 (length (sb_history sp))"
proof -
  have "map rec_phase (bs_phases (tl_state tm)) = take MAX_PHASES (sb_history sp)"
    using assms by (simp add: implements_def)
  from arg_cong [where f = length, OF this] show ?thesis by (simp add: MAX_PHASES_def)
qed

lemma implements_root_end:
  assumes "implements tm sp"
  shows "end_root_span ex w out (length (bs_phases (tl_state tm))) (of_nat (length (sb_history sp) - MAX_PHASES))
    = spec_root_end sp ex out w"
  using implements_count [OF assms]
  by (simp add: end_root_span_def spec_root_end_def unat_of_nat MAX_PHASES_def)

lemma implements_pending:
  assumes "implements tm sp" and "sb_root sp = Unstarted"
  shows "take_pending (bs_phases (tl_state tm))
      = (map (\<lambda>r. r\<lparr>rec_exported := True\<rparr>) (bs_phases (tl_state tm)), take 256 (sb_history sp))"
proof -
  have "filter (\<lambda>r. \<not> rec_exported r) (bs_phases (tl_state tm)) = bs_phases (tl_state tm)"
    using assms by (simp add: implements_def)
  with assms show ?thesis by (simp add: take_pending_def implements_def MAX_PHASES_def)
qed

text \<open>One call of each kind.\<close>

lemma refine_record:
  assumes "implements tm sp"
  shows "\<exists>tm'. exec_call dflt tm (RecordCall n s e o') = (tm', snd (spec_call dflt sp (RecordCall n s e o')))
    \<and> implements tm' (fst (spec_call dflt sp (RecordCall n s e o')))"
proof -
  note times = implements_times [OF assms]
  have buffered: "length (bs_phases (tl_state tm)) < MAX_PHASES \<longleftrightarrow> length (sb_history sp) < MAX_PHASES"
    using implements_count [OF assms] by (auto simp: MAX_PHASES_def)
  have dropped: "of_nat (length (sb_history sp) - MAX_PHASES) + 1 = (of_nat (Suc (length (sb_history sp)) - MAX_PHASES) :: u64)"
    if "\<not> length (sb_history sp) < MAX_PHASES"
    using that by (simp add: Suc_diff_le)
  show ?thesis
    using assms dropped
    by (auto simp: implements_def record_phase_def Let_def times buffered service_label_def
        mk_phase_def spec_phase_def fun_eq_iff split: root_state.split option.split)
qed

lemma take_root_refines:
  assumes "implements tm sp" and "bs_phases st = bs_phases (tl_state tm)" "bs_dropped st = bs_dropped (tl_state tm)"
    "bs_exporter st = root_exporter r" "bs_root_ended st = root_is_ended r"
  shows "take_root_to_end st = (case r of
      Open ex \<Rightarrow> (st\<lparr>bs_root_ended := True\<rparr>, Some (ex, length (bs_phases (tl_state tm)), bs_dropped (tl_state tm)))
    | _ \<Rightarrow> (st, None))"
  using assms by (cases r) (simp_all add: take_root_to_end_def)

lemma refine_ready:
  assumes "implements tm sp"
  shows "\<exists>tm'. exec_call dflt tm (ReadyCall e) = (tm', snd (spec_call dflt sp (ReadyCall e)))
    \<and> implements tm' (fst (spec_call dflt sp (ReadyCall e)))"
proof (cases "sb_ready sp")
  case (Some r)
  with assms show ?thesis by (simp add: ready_def Let_def implements_def)
next
  case None
  define st where "st = (tl_state tm)\<lparr>bs_ready := Some (spec_wall sp e, saturating_duration_since e (sb_origin sp))\<rparr>"
  have root: "take_root_to_end st = (case sb_root sp of
      Open ex \<Rightarrow> (st\<lparr>bs_root_ended := True\<rparr>, Some (ex, length (bs_phases (tl_state tm)), bs_dropped (tl_state tm)))
    | _ \<Rightarrow> (st, None))"
    by (rule take_root_refines [OF assms]) (use assms in \<open>simp_all add: st_def implements_def\<close>)
  have state: "bs_ready (tl_state tm) = None" "tl_origin tm = sb_origin sp" "tl_source tm = sb_source sp"
      "bs_service (tl_state tm) = sb_service sp"
    using assms None by (simp_all add: implements_def)
  have code: "exec_call dflt tm (ReadyCall e) =
      (let (st', end_root) = take_root_to_end st in
       (tm\<lparr>tl_state := st'\<rparr>, [],
        Stderr (ready_line (saturating_duration_since e (sb_origin sp)) (sb_source sp) (service_label dflt st'))
        # (case end_root of None \<Rightarrow> []
           | Some (ex, cnt, dropped) \<Rightarrow> end_root_span ex (spec_wall sp e) (lit ''ready'') cnt dropped
               @ [ready_event (saturating_duration_since e (sb_origin sp))])))"
    by (simp add: ready_def Let_def state implements_times [OF assms] st_def case_prod_beta)
  show ?thesis
    unfolding code root
    using assms None
    by (cases "sb_root sp")
       (simp_all add: implements_root_end [OF assms] service_label_def st_def state implements_def Let_def)
qed

lemma refine_attach:
  assumes "implements tm sp"
  shows "\<exists>tm'. exec_call dflt tm (AttachCall p name) = (tm', snd (spec_call dflt sp (AttachCall p name)))
    \<and> implements tm' (fst (spec_call dflt sp (AttachCall p name)))"
proof (cases "sb_root sp = Unstarted")
  case False
  with assms show ?thesis by (simp add: attach_def Let_def implements_def)
next
  case True
  note pending = implements_pending [OF assms True]
  have state: "bs_exporter (tl_state tm) = None" "\<not> bs_root_ended (tl_state tm)" "tl_source tm = sb_source sp"
      "tl_wall tm = sb_wall sp" "bs_service (tl_state tm) = sb_service sp" "bs_ready (tl_state tm) = sb_ready sp"
    using assms True by (simp_all add: implements_def)
  have flags: "\<forall>r\<in>set (map (\<lambda>r. r\<lparr>rec_exported := True\<rparr>) rs). rec_exported r" for rs
    by simp
  have phases: "map (rec_phase \<circ> (\<lambda>r. r\<lparr>rec_exported := True\<rparr>)) rs = map rec_phase rs" for rs by simp
  show ?thesis
  proof (cases "sb_ready sp")
    case None
    with assms True show ?thesis
      by (cases "sb_service sp") (simp_all add: attach_def Let_def state pending implements_def phases)
  next
    case (Some wa)
    with assms True show ?thesis
      by (cases "sb_service sp"; cases wa)
         (simp_all add: attach_def Let_def state pending implements_def phases take_root_to_end_def
           implements_root_end [OF assms, unfolded spec_root_end_def] spec_root_end_def)
  qed
qed

lemma refine_close:
  assumes "implements tm sp"
  shows "\<exists>tm'. exec_call dflt tm (CloseCall now) = (tm', snd (spec_call dflt sp (CloseCall now)))
    \<and> implements tm' (fst (spec_call dflt sp (CloseCall now)))"
proof -
  have root: "take_root_to_end (tl_state tm) = (case sb_root sp of
      Open ex \<Rightarrow> ((tl_state tm)\<lparr>bs_root_ended := True\<rparr>, Some (ex, length (bs_phases (tl_state tm)), bs_dropped (tl_state tm)))
    | _ \<Rightarrow> (tl_state tm, None))"
    by (rule take_root_refines [OF assms]) (use assms in \<open>simp_all add: implements_def\<close>)
  show ?thesis
    using assms
    by (cases "sb_root sp")
       (simp_all add: close_def root Let_def implements_times [OF assms] implements_root_end [OF assms] implements_def)
qed

lemma refine_call:
  assumes "implements tm sp"
  shows "\<exists>tm'. exec_call dflt tm k = (tm', snd (spec_call dflt sp k)) \<and> implements tm' (fst (spec_call dflt sp k))"
proof (cases k)
  case (SetName n)
  with assms show ?thesis by (simp add: set_service_name_def implements_def)
qed (simp_all only: refine_record [OF assms] refine_ready [OF assms] refine_attach [OF assms] refine_close [OF assms])

section \<open>Runs\<close>

text \<open>An answer is what a call does under the mutex and after it.\<close>

interpretation abstract_boot: simulation "exec_call dflt" "spec_call dflt" implements "\<lambda>_. True" for dflt
  by unfold_locales (metis refine_call fst_conv snd_conv)

text \<open>
  C3. The timeline implements the abstract boot. In whatever order the mutex lets the calls of a
  process in, each does exactly what the abstract boot does, which remembers every phase ever
  recorded and has a root that is unstarted, open or ended. The limit of the timeline's buffer shows
  in two places only, both computed by the abstract boot from its history: what an attachment exports,
  the first 256 phases, and the two counts the end of the root reports; a phase recorded later, full
  buffer or not, is written and exported like any other.
\<close>

theorem timeline_refines_abstract_boot:
  "snd (run_machine (exec_call dflt) (starting_at org source now wall1 wall2) ks)
     = snd (run_machine (spec_call dflt) (spec_boot org source
         (unwrap_or (clock_checked_sub wall1 (saturating_duration_since now org)) wall2)) ks)"
  by (rule conjunct1 [OF abstract_boot.run_simulates])
     (simp_all add: implements_def starting_at_def spec_boot_def bstate_default_def)

end
