(* ===== verification/F64.thy ===== *)
theory F64
  imports RustTime
begin

text \<open>
  Double-precision numbers as far as the program uses them: their value, the correctly rounded
  parser \<open>f64::from_str\<close>, and \<open>Duration::try_from_secs_f64\<close>, which rounds to the
  nearest nanosecond, ties to even.
\<close>

section \<open>Values\<close>

text \<open>\<open>Fin s m e\<close> is \<open>m * 2 ^ e\<close>, negated when \<open>s\<close> holds.\<close>

datatype f64 = NaN | Inf bool | Fin bool nat int

text \<open>The quotient of two naturals rounded to the nearest integer, ties to even.\<close>

definition round_div :: "nat \<Rightarrow> nat \<Rightarrow> nat" where
  "round_div a b =
     (if 2 * (a mod b) < b \<or> 2 * (a mod b) = b \<and> even (a div b) then a div b else Suc (a div b))"

fun flog2 :: "nat \<Rightarrow> nat" where
  "flog2 n = (if n < 2 then 0 else Suc (flog2 (n div 2)))"

declare flog2.simps [simp del]

text \<open>The exponent \<open>k\<close> with \<open>2 ^ k \<le> p / q < 2 ^ (k + 1)\<close>, for positive \<open>p\<close> and \<open>q\<close>.\<close>

definition binade :: "nat \<Rightarrow> nat \<Rightarrow> int" where
  "binade p q = (if q \<le> p then int (flog2 (p div q))
                 else - 1 - int (flog2 ((q - 1) div p)))"

text \<open>The double nearest to \<open>p / q\<close>: 53 bits, the smallest exponent is \<open>-1074\<close>.\<close>

definition round_f64 :: "bool \<Rightarrow> nat \<Rightarrow> nat \<Rightarrow> f64" where
  "round_f64 s p q =
     (if p = 0 then Fin s 0 0
      else let e = max (- 1074) (binade p q - 52);
               m = (if 0 \<le> e then round_div p (q * 2 ^ nat e) else round_div (p * 2 ^ nat (- e)) q)
           in if 971 < e \<or> e = 971 \<and> m = 2 ^ 53 then Inf s else Fin s m e)"

section \<open>Parsing\<close>

definition lower :: "rstring \<Rightarrow> rstring" where
  "lower s = map (\<lambda>c. if 65 \<le> c \<and> c \<le> 90 then c + 32 else c) s"

text \<open>An optional sign: \<open>True\<close> for a minus.\<close>

fun read_sign :: "rstring \<Rightarrow> bool \<times> rstring" where
  "read_sign [] = (False, [])"
| "read_sign (c # s) = (if c = 45 then (True, s) else if c = 43 then (False, s) else (False, c # s))"

definition dec_value_of :: "rstring \<Rightarrow> nat" where
  "dec_value_of ds = value_of 10 (map (\<lambda>c. c - 48) ds)"

text \<open>The exponent part: nothing, or a letter, an optional sign and at least one digit.\<close>

definition read_exp :: "rstring \<Rightarrow> int option" where
  "read_exp s =
     (case s of
        [] \<Rightarrow> Some 0
      | c # t \<Rightarrow>
          if c = 101 \<or> c = 69 then
            (let (neg, ds) = read_sign t in
             if ds = [] \<or> \<not> list_all is_digit ds then None
             else Some ((if neg then - 1 else 1) * int (dec_value_of ds)))
          else None)"

definition parse_f64 :: "rstring \<Rightarrow> f64 option" where
  "parse_f64 str =
     (let (neg, s) = read_sign str in
      if lower s = lit ''inf'' \<or> lower s = lit ''infinity'' then Some (Inf neg)
      else if lower s = lit ''nan'' then Some NaN
      else
        let whole = takeWhile is_digit s;
            t = dropWhile is_digit s;
            (frac, t) = (case t of
                c # u \<Rightarrow> if c = 46 then (takeWhile is_digit u, dropWhile is_digit u) else ([], t)
              | [] \<Rightarrow> ([], t))
        in if whole = [] \<and> frac = [] then None
           else case read_exp t of
                  None \<Rightarrow> None
                | Some x \<Rightarrow>
                    let n = dec_value_of (whole @ frac); e = x - int (length frac)
                    in Some (if 0 \<le> e then round_f64 neg (n * 10 ^ nat e) 1
                             else round_f64 neg n (10 ^ nat (- e))))"

text \<open>\<open>Duration::try_from_secs_f64\<close>: an error for NaN, infinities, negatives and overflow.\<close>

definition dur_try_from_secs_f64 :: "f64 \<Rightarrow> duration option" where
  "dur_try_from_secs_f64 x =
     (case x of
        NaN \<Rightarrow> None
      | Inf _ \<Rightarrow> None
      | Fin s m e \<Rightarrow>
          if s \<and> m \<noteq> 0 then None
          else let ns = (if 0 \<le> e then m * 2 ^ nat e * 10 ^ 9 else round_div (m * 10 ^ 9) (2 ^ nat (- e)))
               in if ns \<le> dur_max then Some ns else None)"

section \<open>Rounding\<close>

lemma round_div_near: "b > 0 \<Longrightarrow> 2 * \<bar>int (round_div a b) * int b - int a\<bar> \<le> int b"
proof -
  assume b: "b > 0"
  have a: "int a = int (a div b) * int b + int (a mod b)"
    by (metis div_mult_mod_eq of_nat_add of_nat_mult)
  have r: "int (a mod b) < int b" using b by simp
  show ?thesis
    unfolding round_div_def a using r by (auto simp: algebra_simps)
qed

lemma abs_near:
  fixes x y a b :: int
  assumes "2 * \<bar>x - a\<bar> \<le> b" and "2 * \<bar>y - a\<bar> < b"
  shows "\<bar>x - y\<bar> < b"
proof -
  have "\<bar>x - y\<bar> \<le> \<bar>x - a\<bar> + \<bar>y - a\<bar>"
    using abs_triangle_ineq4 [of "x - a" "y - a"] by simp
  with assms show ?thesis by simp
qed

lemma round_div_unique:
  assumes "2 * \<bar>int c * int b - int a\<bar> < int b"
  shows "round_div a b = c"
proof -
  have b: "b > 0" using assms by (cases b) auto
  have "\<bar>int (round_div a b) * int b - int c * int b\<bar> < int b"
    by (rule abs_near [OF round_div_near [OF b] assms])
  moreover have "\<bar>int (round_div a b) * int b - int c * int b\<bar> = \<bar>int (round_div a b) - int c\<bar> * int b"
    by (simp add: left_diff_distrib [symmetric] abs_mult)
  ultimately have "\<bar>int (round_div a b) - int c\<bar> * int b < 1 * int b"
    by simp
  then have "\<bar>int (round_div a b) - int c\<bar> < 1"
    by (rule mult_right_less_imp_less) simp
  then show ?thesis by arith
qed

lemma flog2_bounds: "0 < n \<Longrightarrow> 2 ^ flog2 n \<le> n \<and> n < 2 ^ Suc (flog2 n)"
proof (induction n rule: flog2.induct)
  case (1 n)
  show ?case
  proof (cases "n < 2")
    case True
    with "1.prems" show ?thesis by (subst (1 2) flog2.simps) auto
  next
    case False
    then have "2 ^ flog2 (n div 2) \<le> n div 2 \<and> n div 2 < 2 ^ Suc (flog2 (n div 2))"
      using "1.IH" by simp
    moreover have "flog2 n = Suc (flog2 (n div 2))"
      using False by (subst flog2.simps) simp
    ultimately show ?thesis by auto
  qed
qed

lemma flog2_less: "0 < n \<Longrightarrow> n < 2 ^ k \<Longrightarrow> flog2 n < k"
  using flog2_bounds [of n] by (metis le_less_trans one_less_numeral_iff power_less_imp_less_exp semiring_norm(76))

lemma binade_less:
  assumes "0 < p" and "p < 2 ^ k * q"
  shows "binade p q < int k"
proof (cases "q \<le> p")
  case True
  have q: "0 < q" using assms(2) by (cases q) auto
  have "p div q < 2 ^ k"
    using assms(2) q by (simp add: div_less_iff_less_mult)
  moreover have "0 < p div q" using True q by (simp add: div_greater_zero_iff)
  ultimately show ?thesis
    using flog2_less [of "p div q" k] True by (simp add: binade_def)
next
  case False
  then show ?thesis by (simp add: binade_def)
qed

lemma abs_scale:
  fixes A B m n P :: int
  assumes "0 \<le> B"
  shows "2 * \<bar>m * (A * B) - n * B * P\<bar> = 2 * \<bar>m * A - n * P\<bar> * B"
proof -
  have "m * (A * B) - n * B * P = (m * A - n * P) * B"
    by (simp add: algebra_simps)
  with assms show ?thesis by (simp add: abs_mult)
qed

text \<open>Reading a multiple of a power of ten below \<open>2 ^ 23\<close> seconds as nanoseconds is exact.\<close>

lemma secs_exact:
  assumes "d \<le> 9" and "n < 2 ^ 23 * 10 ^ d"
  shows "dur_try_from_secs_f64 (round_f64 False n (10 ^ d)) = Some (n * 10 ^ (9 - d))"
proof (cases "n = 0")
  case True
  then show ?thesis by (simp add: round_f64_def dur_try_from_secs_f64_def dur_max_def)
next
  case False
  define e where "e = max (- 1074) (binade n (10 ^ d) - 52)"
  define k where "k = nat (- e)"
  define m where "m = round_div (n * 2 ^ k) (10 ^ d)"
  have "binade n (10 ^ d) < 23"
    using binade_less [of n 23 "10 ^ d"] False assms(2) by simp
  then have e: "e < 0" "k \<ge> 30" by (auto simp: e_def k_def)
  have x: "round_f64 False n (10 ^ d) = Fin False m e"
    using False e by (auto simp: round_f64_def Let_def e_def [symmetric] m_def k_def)
  have ten: "(10::int) ^ 9 = 10 ^ d * 10 ^ (9 - d)"
    using assms(1) by (simp flip: power_add)
  have near: "2 * \<bar>int m * 10 ^ d - int n * 2 ^ k\<bar> \<le> 10 ^ d"
    using round_div_near [of "10 ^ d" "n * 2 ^ k"] by (simp add: m_def)
  have "2 * \<bar>int m * 10 ^ 9 - int n * 10 ^ (9 - d) * 2 ^ k\<bar>
      = 2 * \<bar>int m * 10 ^ d - int n * 2 ^ k\<bar> * 10 ^ (9 - d)"
    unfolding ten by (rule abs_scale) simp
  also have "\<dots> \<le> 10 ^ d * 10 ^ (9 - d)"
    using near by (rule mult_right_mono) simp
  also have "\<dots> = (10 ^ 9 :: int)"
    by (simp only: ten)
  also have "\<dots> < 2 ^ 30" by simp
  also have "\<dots> \<le> (2 ^ k :: int)"
    using e(2) by (rule power_increasing) simp
  finally have "round_div (m * 10 ^ 9) (2 ^ k) = n * 10 ^ (9 - d)"
    by (intro round_div_unique) (simp add: abs_minus_commute)
  moreover have "n * 10 ^ (9 - d) \<le> dur_max"
  proof -
    have "n * 10 ^ (9 - d) \<le> 2 ^ 23 * 10 ^ d * 10 ^ (9 - d)"
      using assms(2) by (intro mult_right_mono) simp_all
    also have "\<dots> = 2 ^ 23 * 10 ^ 9"
      using assms(1) by (simp flip: power_add)
    also have "\<dots> \<le> dur_max" by (simp add: dur_max_def)
    finally show ?thesis .
  qed
  ultimately show ?thesis
    using e(1) by (simp add: x dur_try_from_secs_f64_def k_def)
qed

end
