(* ===== verification/ProcessAge.thy ===== *)
theory ProcessAge
  imports F64 Boot
begin

text \<open>
  How long ago the process started, from \<open>/proc/self/stat\<close> and \<open>/proc/uptime\<close>
  (\<open>process_age_from\<close> of \<open>src/src/boot.rs\<close>), and that it is right for every
  command name and exact to the clock tick.
\<close>

section \<open>The function\<close>

definition MILLIS_PER_TICK :: u64 where
  "MILLIS_PER_TICK = 1000 div 100"

definition process_age_from :: "rstring \<Rightarrow> rstring \<Rightarrow> duration option" where
  "process_age_from stat uptime =
     (case rsplit_once 41 stat of
        None \<Rightarrow> None
      | Some (_, fs) \<Rightarrow>
          (case Option.bind (nth_opt (split_whitespace fs) 19) parse_u64 of
             None \<Rightarrow> None
           | Some start_ticks \<Rightarrow>
               (case Option.bind (nth_opt (split_whitespace uptime) 0) parse_f64 of
                  None \<Rightarrow> None
                | Some uptime_secs \<Rightarrow>
                    (case dur_try_from_secs_f64 uptime_secs of
                       None \<Rightarrow> None
                     | Some up \<Rightarrow>
                         (case u64_checked_mul start_ticks MILLIS_PER_TICK of
                            None \<Rightarrow> None
                          | Some ms \<Rightarrow> dur_checked_sub up (from_millis ms))))))"

text \<open>Reading the two files: \<open>None\<close> where a file cannot be read.\<close>

definition process_age :: "rstring option \<Rightarrow> rstring option \<Rightarrow> duration option" where
  "process_age stat uptime =
     (case stat of None \<Rightarrow> None | Some s \<Rightarrow> (case uptime of None \<Rightarrow> None | Some u \<Rightarrow> process_age_from s u))"

section \<open>The files as the kernel writes them\<close>

text \<open>\<open>eol\<close> is what ends the line: the kernel writes a line feed, the test strings nothing.\<close>

definition stat_line :: "rstring \<Rightarrow> rstring \<Rightarrow> rstring list \<Rightarrow> rstring \<Rightarrow> rstring" where
  "stat_line pid comm fs eol = pid @ lit '' ('' @ comm @ 41 # 32 # join_sp fs @ eol"

definition uptime_secs :: "nat \<Rightarrow> nat \<Rightarrow> nat \<Rightarrow> rstring" where
  "uptime_secs s a b = dec s @ [46, 48 + a, 48 + b]"

definition uptime_line :: "nat \<Rightarrow> nat \<Rightarrow> nat \<Rightarrow> rstring \<Rightarrow> rstring" where
  "uptime_line s a b idle = uptime_secs s a b @ 32 # idle"

lemma value_of_snoc: "value_of b (ds @ [d]) = value_of b ds * b + d"
  by (simp add: value_of_def)

lemma dec_value_uptime: "dec_value_of (dec s @ [48 + a, 48 + b]) = 100 * s + 10 * a + b"
  using value_of_snoc [of 10 "map (\<lambda>c. c - 48) (dec s) @ [a]" b]
    value_of_snoc [of 10 "map (\<lambda>c. c - 48) (dec s)" a]
  by (simp add: dec_value_of_def dec_value)

lemma not_word_digit: "is_digit c \<Longrightarrow> lower (c # s) \<noteq> lit w \<or> w = [] \<or> is_digit (of_char (hd w))"
  by (cases w) (auto simp: lower_def lit_def is_digit_def)

lemma dec_stop:
  "takeWhile is_digit (dec s @ 46 # t) = dec s" "dropWhile is_digit (dec s @ 46 # t) = 46 # t"
  using takeWhile_append_stop [of "dec s" is_digit 46 t] dec_digits by (auto simp: is_digit_def)

lemma parse_f64_uptime:
  assumes "a < 10" and "b < 10"
  shows "parse_f64 (uptime_secs s a b) = Some (round_f64 False (100 * s + 10 * a + b) (10 ^ 2))"
proof -
  obtain c t where c: "dec s = c # t" "is_digit c" using dec_hd_digit by blast
  have sign: "read_sign (uptime_secs s a b) = (False, uptime_secs s a b)"
    using c by (auto simp: uptime_secs_def is_digit_def)
  have word: "lower (uptime_secs s a b) \<noteq> lit w" if "w = ''inf'' \<or> w = ''infinity'' \<or> w = ''nan''" for w
    using not_word_digit [OF c(2), of "t @ [46, 48 + a, 48 + b]" w] c that
    by (auto simp: uptime_secs_def is_digit_def)
  have dig: "takeWhile is_digit [48 + a, 48 + b] = [48 + a, 48 + b]"
    "dropWhile is_digit [48 + a, 48 + b] = []"
    using assms by (simp_all add: is_digit_def)
  show ?thesis
    by (simp only: parse_f64_def sign Let_def case_prod_conv word simp_thms if_False)
       (simp add: uptime_secs_def dec_stop dig read_exp_def dec_value_uptime [simplified]
          del: takeWhile.simps dropWhile.simps)
qed

lemma word_ok_uptime: "a < 10 \<Longrightarrow> b < 10 \<Longrightarrow> word_ok (uptime_secs s a b)"
  using word_ok_dec [of s] by (auto simp: word_ok_def uptime_secs_def is_whitespace_def)

lemma split_uptime:
  "a < 10 \<Longrightarrow> b < 10 \<Longrightarrow> nth_opt (split_whitespace (uptime_line s a b idle)) 0 = Some (uptime_secs s a b)"
  by (simp add: uptime_line_def split_whitespace_word_sep word_ok_uptime)

lemma join_sp_chars: "c \<in> set (join_sp ws) \<Longrightarrow> c = 32 \<or> (\<exists>w\<in>set ws. c \<in> set w)"
  by (induction ws rule: join_sp.induct) auto

lemma stat_fields:
  assumes "\<forall>w\<in>set fs. word_ok w \<and> 41 \<notin> set w" and "\<forall>c\<in>set eol. is_whitespace c"
  shows "\<exists>pre post. rsplit_once 41 (stat_line pid comm fs eol) = Some (pre, post) \<and> split_whitespace post = fs"
proof -
  have "\<not> is_whitespace 41" by (simp add: is_whitespace_def)
  then have "41 \<notin> set (32 # join_sp fs @ eol)"
    using assms join_sp_chars [of 41 fs] by auto
  from rsplit_once_last [OF this, of "pid @ lit '' ('' @ comm"] show ?thesis
    using assms by (simp add: stat_line_def split_whitespace_space split_whitespace_join_end)
qed

lemma ticks_millis:
  "unat t * 10 < 2 ^ 64 \<Longrightarrow> u64_checked_mul t MILLIS_PER_TICK = Some (t * 10) \<and> unat (t * 10) = unat t * 10"
proof -
  have ten: "MILLIS_PER_TICK = 10" by (simp add: MILLIS_PER_TICK_def)
  assume "unat t * 10 < 2 ^ 64"
  then show ?thesis
    by (simp add: ten u64_checked_mul_def unat_mult_lem [of t 10, simplified, THEN iffD1])
qed

text \<open>The age when both files are as the kernel writes them, in nanoseconds.\<close>

definition age_spec :: "nat \<Rightarrow> nat \<Rightarrow> nat \<Rightarrow> nat \<Rightarrow> duration option" where
  "age_spec ticks s a b =
     (let up = (100 * s + 10 * a + b) * 10 ^ 7; started = ticks * 10 ^ 7
      in if ticks * 10 < 2 ^ 64 \<and> started \<le> up then Some (up - started) else None)"

lemma process_age_files:
  assumes "\<forall>w\<in>set fs. word_ok w \<and> 41 \<notin> set w" and "19 < length fs"
    and "fs ! 19 = dec ticks" and "\<forall>c\<in>set eol. is_whitespace c" and "a < 10" and "b < 10" and "s < 2 ^ 23"
  shows "process_age_from (stat_line pid comm fs eol) (uptime_line s a b idle) = age_spec ticks s a b"
proof -
  obtain pre post where post: "rsplit_once 41 (stat_line pid comm fs eol) = Some (pre, post)"
      "split_whitespace post = fs"
    using stat_fields [OF assms(1,4)] by blast
  have start: "nth_opt (split_whitespace post) 19 = Some (dec ticks)"
    using assms(2,3) post(2) by (simp add: nth_opt_nth)
  have up: "dur_try_from_secs_f64 (round_f64 False (100 * s + 10 * a + b) (10 ^ 2))
      = Some ((100 * s + 10 * a + b) * 10 ^ 7)"
    using secs_exact [of 2 "100 * s + 10 * a + b"] assms(5-7) by simp
  show ?thesis
  proof (cases "ticks < 2 ^ 64")
    case False
    then show ?thesis
      using assms post parse_u64_dec_overflow [of ticks]
      by (simp add: process_age_from_def nth_opt_nth age_spec_def)
  next
    case True
    define t :: u64 where "t = of_nat ticks"
    have t: "parse_u64 (dec ticks) = Some t" "unat t = ticks"
      using parse_u64_dec [OF True] unat_of_nat_u64 [OF True] by (simp_all add: t_def)
    have age: "process_age_from (stat_line pid comm fs eol) (uptime_line s a b idle) =
        (case u64_checked_mul t MILLIS_PER_TICK of None \<Rightarrow> None
         | Some ms \<Rightarrow> dur_checked_sub ((100 * s + 10 * a + b) * 10 ^ 7) (from_millis ms))"
      using assms(5,6) t post(1)
      by (simp only: process_age_from_def start split_uptime parse_f64_uptime up
          option.case prod.case bind.bind_lunit if_True)
    show ?thesis
    proof (cases "ticks * 10 < 2 ^ 64")
      case True
      then show ?thesis
        using ticks_millis [of t] t by (simp add: age age_spec_def dur_checked_sub_def from_millis_def mult.commute)
    next
      case False
      then have "u64_checked_mul t MILLIS_PER_TICK = None"
        using t by (simp add: u64_checked_mul_def MILLIS_PER_TICK_def)
      with False show ?thesis by (simp add: age age_spec_def)
    qed
  qed
qed

section \<open>Properties\<close>

text \<open>
  C9. The age is exact and independent of the command name: for any name, with spaces and
  parentheses in it, any other fields and whatever whitespace ends the line (the kernel's line feed
  among them), the age is the uptime minus the start time to the
  clock tick, absent when the start is later than the uptime or overflows; up to an uptime of
  2 ^ 23 seconds, below which the floating-point detour loses nothing.
\<close>

theorem process_age_exact:
  assumes "\<forall>w\<in>set fs. word_ok w \<and> 41 \<notin> set w" and "19 < length fs"
    and "fs ! 19 = dec ticks" and "\<forall>c\<in>set eol. is_whitespace c" and "a < 10" and "b < 10" and "s < 2 ^ 23"
  shows "process_age_from (stat_line pid comm fs eol) (uptime_line s a b idle) = age_spec ticks s a b"
  by (rule process_age_files [OF assms])

theorem process_age_exact_witness:
  "process_age_from (stat_line (dec 42) (lit ''a) (b 1 2'') (replicate 19 (lit ''0'') @ [dec 250]) [10])
     (uptime_line 12 3 4 (dec 7 @ [10])) = Some 9840000000"
proof -
  have "\<forall>w\<in>set (replicate 19 (lit ''0'') @ [dec 250]). word_ok w \<and> 41 \<notin> set w"
    using dec_digits [of 41 250] by (auto simp: word_ok_def lit_def is_whitespace_def is_digit_def
        dest: dec_digits)
  from process_age_exact [OF this, of 250 "[10]" 3 4 12 "dec 42" "lit ''a) (b 1 2''" "dec 7 @ [10]"]
  show ?thesis by (simp add: nth_append age_spec_def is_whitespace_def)
qed

text \<open>
  Malformed input is never an age: without a closing parenthesis, with fewer than twenty
  fields after it, with a start time that is no 64-bit number or whose milliseconds overflow, or
  with an unreadable file, the start is unknown and the timeline counts from its first use.
\<close>

lemma process_age_malformed:
  assumes "41 \<notin> set stat \<or> (\<exists>pre post. rsplit_once 41 stat = Some (pre, post) \<and>
       (length (split_whitespace post) < 20 \<or> parse_u64 (split_whitespace post ! 19) = None
        \<or> (\<exists>t. parse_u64 (split_whitespace post ! 19) = Some t \<and> 2 ^ 64 \<le> unat t * 10)))"
  shows "process_age_from stat uptime = None
    \<and> tl_source (global_init (process_age_from stat uptime) now now' w w') = FirstUse"
proof -
  have "process_age_from stat uptime = None"
    using assms rsplit_once_None [of 41 stat]
    by (auto simp: process_age_from_def nth_opt_nth u64_checked_mul_def MILLIS_PER_TICK_def
        split: option.split)
  then show ?thesis by (simp add: global_init_def starting_at_def)
qed

end
