(* ===== verification/ExportRetry.thy ===== *)
theory ExportRetry
  imports RustTime
begin

text \<open>
  The exporter wrapper of \<open>src/src/export_retry.rs\<close>: an export the collector refuses as
  unavailable is attempted again, at most three times. The inner exporter is a parameter with
  its own state; of an error the code only reads the text its \<open>Display\<close> writes.
\<close>

section \<open>Exporters\<close>

type_synonym sdk_result = "rstring + unit"

type_synonym ('s, 'b) export_fn = "'s \<Rightarrow> 'b \<Rightarrow> 's \<times> sdk_result"

text \<open>What an export does, in order: an attempt with its batch and result, or a pause.\<close>

datatype 'b retry_effect = Attempt 'b sdk_result | Pause duration

type_synonym ('s, 'b) retry_run = "'s \<times> 'b retry_effect list \<times> sdk_result"

section \<open>The wrapper\<close>

definition BACKOFF :: "duration list" where
  "BACKOFF = [from_millis 200, from_millis 400, from_millis 800]"

record retry =
  rt_runtime :: bool
  rt_backoff :: "duration list"

text \<open>\<open>in_runtime\<close>: whether a Tokio runtime is current at construction.\<close>

definition retry_with_backoff :: "bool \<Rightarrow> duration list \<Rightarrow> retry" where
  "retry_with_backoff in_runtime ds = \<lparr>rt_runtime = in_runtime, rt_backoff = ds\<rparr>"

definition retry_new :: "bool \<Rightarrow> retry" where
  "retry_new in_runtime = retry_with_backoff in_runtime BACKOFF"

definition pause :: "retry \<Rightarrow> duration \<Rightarrow> 'b retry_effect list" where
  "pause rt d = (if rt_runtime rt then [Pause d] else [])"

definition is_unavailable :: "sdk_result \<Rightarrow> bool" where
  "is_unavailable r = (case r of Inl e \<Rightarrow> contains e (lit ''Unavailable'') | Inr _ \<Rightarrow> False)"

definition attempt :: "('s, 'b) export_fn \<Rightarrow> 's \<Rightarrow> 'b \<Rightarrow> ('s, 'b) retry_run" where
  "attempt inner s b = (let (s', r) = inner s b in (s', [Attempt b r], r))"

text \<open>The loop over the delays, from the result of the attempt before it.\<close>

fun retry_loop ::
    "('s, 'b) export_fn \<Rightarrow> retry \<Rightarrow> duration list \<Rightarrow> 'b \<Rightarrow> 's \<Rightarrow> sdk_result \<Rightarrow> ('s, 'b) retry_run" where
  "retry_loop inner rt [] b s r = (s, [], r)"
| "retry_loop inner rt (d # ds) b s r =
     (if \<not> is_unavailable r then (s, [], r)
      else let (s', eff, r') = attempt inner s b;
               (s'', effs, r'') = retry_loop inner rt ds b s' r'
           in (s'', pause rt d @ eff @ effs, r''))"

text \<open>The export of logs: the batch is a list of records, rebuilt for each attempt.\<close>

definition export_logs ::
    "('s, 'r list) export_fn \<Rightarrow> retry \<Rightarrow> 's \<Rightarrow> 'r list \<Rightarrow> ('s, 'r list) retry_run" where
  "export_logs inner rt s batch =
     (let records = batch; (s', eff, r) = attempt inner s records in
      if \<not> rt_runtime rt then (s', eff, r)
      else let (s'', effs, r') = retry_loop inner rt (rt_backoff rt) records s' r
           in (s'', eff @ effs, r'))"

definition export_spans ::
    "('s, 'r list) export_fn \<Rightarrow> retry \<Rightarrow> 's \<Rightarrow> 'r list \<Rightarrow> ('s, 'r list) retry_run" where
  "export_spans inner rt s batch =
     (if \<not> rt_runtime rt then attempt inner s batch
      else let (s', eff, r) = attempt inner s batch;
               (s'', effs, r') = retry_loop inner rt (rt_backoff rt) batch s' r
           in (s'', eff @ effs, r'))"

text \<open>
  The two exporter traits: what a log and a span exporter can be asked. A resource, a
  severity and the rest of the question whether an event is wanted are the inner exporter's own.
\<close>

record ('s, 'b, 'res) exporter_ops =
  xp_export :: "('s, 'b) export_fn"
  xp_shutdown_with_timeout :: "duration \<Rightarrow> 's \<Rightarrow> 's \<times> sdk_result"
  xp_set_resource :: "'res \<Rightarrow> 's \<Rightarrow> 's"

record ('s, 'b, 'res, 'sev) log_exporter = "('s, 'b, 'res) exporter_ops" +
  xp_event_enabled :: "'sev \<Rightarrow> rstring \<Rightarrow> rstring option \<Rightarrow> 's \<Rightarrow> bool"

record ('s, 'b, 'res) span_exporter = "('s, 'b, 'res) exporter_ops" +
  xp_force_flush :: "'s \<Rightarrow> 's \<times> sdk_result"

definition retry_log_exporter ::
    "retry \<Rightarrow> ('s, 'r list, 'res, 'sev) log_exporter \<Rightarrow> ('s, 'r list, 'res, 'sev) log_exporter" where
  "retry_log_exporter rt inner =
     \<lparr>xp_export = (\<lambda>s b. let (s', _, r) = export_logs (xp_export inner) rt s b in (s', r)),
      xp_shutdown_with_timeout = (\<lambda>timeout s. xp_shutdown_with_timeout inner timeout s),
      xp_set_resource = (\<lambda>res s. xp_set_resource inner res s),
      xp_event_enabled = (\<lambda>level target name s. xp_event_enabled inner level target name s)\<rparr>"

definition retry_span_exporter ::
    "retry \<Rightarrow> ('s, 'r list, 'res) span_exporter \<Rightarrow> ('s, 'r list, 'res) span_exporter" where
  "retry_span_exporter rt inner =
     \<lparr>xp_export = (\<lambda>s b. let (s', _, r) = export_spans (xp_export inner) rt s b in (s', r)),
      xp_shutdown_with_timeout = (\<lambda>timeout s. xp_shutdown_with_timeout inner timeout s),
      xp_set_resource = (\<lambda>res s. xp_set_resource inner res s),
      xp_force_flush = (\<lambda>s. xp_force_flush inner s)\<rparr>"

text \<open>A processor's calls on its exporter, and what each gives back.\<close>

datatype ('b, 'res, 'sev) exporter_call =
    Export 'b
  | ShutdownWithTimeout duration
  | SetResource 'res
  | EventEnabled 'sev rstring "rstring option"
  | ForceFlush

datatype exporter_answer = Exported sdk_result | Ended sdk_result | Enabled bool | Nothing

fun common_call ::
    "('s, 'b, 'res, 'z) exporter_ops_scheme \<Rightarrow> 's \<Rightarrow> ('b, 'res, 'sev) exporter_call \<Rightarrow> 's \<times> exporter_answer" where
  "common_call ex s (Export b) = map_prod id Exported (xp_export ex s b)"
| "common_call ex s (ShutdownWithTimeout d) = map_prod id Ended (xp_shutdown_with_timeout ex d s)"
| "common_call ex s (SetResource res) = (xp_set_resource ex res s, Nothing)"
| "common_call ex s _ = (s, Nothing)"

fun log_call :: "('s, 'b, 'res, 'sev) log_exporter \<Rightarrow> 's \<Rightarrow> ('b, 'res, 'sev) exporter_call \<Rightarrow> 's \<times> exporter_answer" where
  "log_call ex s (EventEnabled level target name) = (s, Enabled (xp_event_enabled ex level target name s))"
| "log_call ex s c = common_call ex s c"

fun span_call :: "('s, 'b, 'res) span_exporter \<Rightarrow> 's \<Rightarrow> ('b, 'res, unit) exporter_call \<Rightarrow> 's \<times> exporter_answer" where
  "span_call ex s ForceFlush = map_prod id Ended (xp_force_flush ex s)"
| "span_call ex s c = common_call ex s c"

section \<open>The attempts of a run\<close>

fun attempts :: "'b retry_effect list \<Rightarrow> ('b \<times> sdk_result) list" where
  "attempts [] = []"
| "attempts (Attempt b r # es) = (b, r) # attempts es"
| "attempts (Pause d # es) = attempts es"

fun pauses :: "'b retry_effect list \<Rightarrow> duration list" where
  "pauses [] = []"
| "pauses (Attempt b r # es) = pauses es"
| "pauses (Pause d # es) = d # pauses es"

lemma attempts_append [simp]: "attempts (xs @ ys) = attempts xs @ attempts ys"
  by (induction xs rule: attempts.induct) simp_all

lemma pauses_append [simp]: "pauses (xs @ ys) = pauses xs @ pauses ys"
  by (induction xs rule: pauses.induct) simp_all

lemma pause_sel [simp]:
  "attempts (pause rt d) = []" "pauses (pause rt d) = (if rt_runtime rt then [d] else [])"
  by (simp_all add: pause_def)

text \<open>The \<open>n\<close>-th result the inner exporter gives for a batch, from a state.\<close>

fun nth_state :: "('s, 'b) export_fn \<Rightarrow> 's \<Rightarrow> 'b \<Rightarrow> nat \<Rightarrow> 's" where
  "nth_state inner s b 0 = s"
| "nth_state inner s b (Suc n) = nth_state inner (fst (inner s b)) b n"

definition nth_result :: "('s, 'b) export_fn \<Rightarrow> 's \<Rightarrow> 'b \<Rightarrow> nat \<Rightarrow> sdk_result" where
  "nth_result inner s b n = snd (inner (nth_state inner s b n) b)"

lemma nth_result_0 [simp]: "nth_result inner s b 0 = snd (inner s b)"
  by (simp add: nth_result_def)

lemma nth_result_Suc [simp]: "nth_result inner s b (Suc n) = nth_result inner (fst (inner s b)) b n"
  by (simp add: nth_result_def)

text \<open>How many of the retries a run makes: until an attempt is not refused as unavailable.\<close>

fun retries :: "('s, 'b) export_fn \<Rightarrow> nat \<Rightarrow> 's \<Rightarrow> 'b \<Rightarrow> sdk_result \<Rightarrow> nat" where
  "retries inner 0 s b r = 0"
| "retries inner (Suc n) s b r =
     (if is_unavailable r then Suc (retries inner n (fst (inner s b)) b (snd (inner s b))) else 0)"

lemma retries_le: "retries inner n s b r \<le> n"
  by (induction inner n s b r rule: retries.induct) auto

lemma retry_loop_run:
  assumes "retry_loop inner rt ds b s r = (s', effs, r')" and "rt_runtime rt"
  shows "attempts effs = map (\<lambda>i. (b, nth_result inner s b i)) [0..<retries inner (length ds) s b r]
    \<and> pauses effs = take (retries inner (length ds) s b r) ds
    \<and> effs = concat (map (\<lambda>i. [Pause (ds ! i), Attempt b (nth_result inner s b i)]) [0..<retries inner (length ds) s b r])
    \<and> r' = (if retries inner (length ds) s b r = 0 then r
            else nth_result inner s b (retries inner (length ds) s b r - 1))
    \<and> s' = nth_state inner s b (retries inner (length ds) s b r)"
  using assms
proof (induction ds arbitrary: s r s' effs r')
  case Nil
  then show ?case by simp
next
  case (Cons d ds)
  show ?case
  proof (cases "is_unavailable r")
    case False
    with Cons.prems show ?thesis by simp
  next
    case True
    obtain s1 r1 where 1: "inner s b = (s1, r1)" by (cases "inner s b")
    obtain s2 e2 r2 where 2: "retry_loop inner rt ds b s1 r1 = (s2, e2, r2)"
      by (cases "retry_loop inner rt ds b s1 r1")
    from Cons.IH [OF 2 Cons.prems(2)] Cons.prems True 1 2 show ?thesis
      by (cases "retries inner (length ds) s1 b r1")
         (auto simp: attempt_def pause_def upt_conv_Cons map_Suc_upt [symmetric] o_def simp del: upt_Suc)
  qed
qed

text \<open>The whole export: attempts numbered from zero, the first one included.\<close>

definition attempts_made :: "('s, 'b) export_fn \<Rightarrow> retry \<Rightarrow> 's \<Rightarrow> 'b \<Rightarrow> nat" where
  "attempts_made inner rt s b =
     (if rt_runtime rt
      then Suc (retries inner (length (rt_backoff rt)) (fst (inner s b)) b (snd (inner s b))) else 1)"

lemma export_spans_logs: "export_spans inner rt s batch = export_logs inner rt s batch"
  by (simp add: export_spans_def export_logs_def Let_def case_prod_beta)

lemma export_logs_run:
  assumes "export_logs inner rt s b = (s', effs, r)"
  shows "attempts effs = map (\<lambda>i. (b, nth_result inner s b i)) [0..<attempts_made inner rt s b]
    \<and> pauses effs = take (attempts_made inner rt s b - 1) (if rt_runtime rt then rt_backoff rt else [])
    \<and> r = nth_result inner s b (attempts_made inner rt s b - 1)"
proof (cases "rt_runtime rt")
  case False
  with assms show ?thesis
    by (auto simp: export_logs_def attempt_def Let_def case_prod_beta attempts_made_def)
next
  case True
  obtain s1 r1 where 1: "inner s b = (s1, r1)" by (cases "inner s b")
  obtain s2 e2 r2 where 2: "retry_loop inner rt (rt_backoff rt) b s1 r1 = (s2, e2, r2)"
    by (cases "retry_loop inner rt (rt_backoff rt) b s1 r1")
  from retry_loop_run [OF 2 True] assms True 1 2 show ?thesis
    by (cases "retries inner (length (rt_backoff rt)) s1 b r1")
       (auto simp: export_logs_def attempt_def attempts_made_def upt_conv_Cons
          map_Suc_upt [symmetric] o_def simp del: upt_Suc)
qed

text \<open>All attempts but the last were refused; the run ends when one is not, or at the limit.\<close>

lemma retries_refused:
  "i < retries inner n s b r \<Longrightarrow> is_unavailable (if i = 0 then r else nth_result inner s b (i - 1))"
proof (induction inner n s b r arbitrary: i rule: retries.induct)
  case (2 inner n s b r)
  then show ?case
  proof (cases i)
    case (Suc k)
    with "2.IH" [of k] "2.prems" show ?thesis
      by (cases k) (auto split: if_splits)
  qed (auto split: if_splits)
qed simp

lemma retries_stop:
  "retries inner n s b r < n \<Longrightarrow>
   \<not> is_unavailable (if retries inner n s b r = 0 then r else nth_result inner s b (retries inner n s b r - 1))"
proof (induction inner n s b r rule: retries.induct)
  case (2 inner n s b r)
  then show ?case
    by (cases "retries inner n (fst (inner s b)) b (snd (inner s b))") (auto split: if_splits)
qed simp

lemma attempt_refused:
  assumes "Suc i < attempts_made inner rt s b"
  shows "is_unavailable (nth_result inner s b i)"
  using assms retries_refused [of i inner "length (rt_backoff rt)" "fst (inner s b)" b "snd (inner s b)"]
  by (cases i) (auto simp: attempts_made_def split: if_splits)

lemma attempts_stop:
  assumes "rt_runtime rt" and "attempts_made inner rt s b \<le> length (rt_backoff rt)"
  shows "\<not> is_unavailable (nth_result inner s b (attempts_made inner rt s b - 1))"
  using assms retries_stop [of inner "length (rt_backoff rt)" "fst (inner s b)" b "snd (inner s b)"]
  by (cases "retries inner (length (rt_backoff rt)) (fst (inner s b)) b (snd (inner s b))")
     (cases "rt_backoff rt", auto simp: attempts_made_def)+

text \<open>The run itself: an attempt, and then a pause before each further one.\<close>

lemma export_logs_effects:
  assumes "rt_runtime rt" and "export_logs inner rt s b = (s', effs, r)"
  shows "effs = Attempt b (nth_result inner s b 0)
    # concat (map (\<lambda>i. [Pause (rt_backoff rt ! i), Attempt b (nth_result inner s b (Suc i))])
        [0..<attempts_made inner rt s b - 1])"
proof -
  obtain s1 r1 where 1: "inner s b = (s1, r1)" by (cases "inner s b")
  obtain s2 e2 r2 where 2: "retry_loop inner rt (rt_backoff rt) b s1 r1 = (s2, e2, r2)"
    by (cases "retry_loop inner rt (rt_backoff rt) b s1 r1")
  from retry_loop_run [OF 2 assms(1)] assms 1 2 show ?thesis
    by (simp add: export_logs_def attempt_def attempts_made_def)
qed

lemma map2_upt:
  "length ys \<le> length xs \<Longrightarrow> map2 f xs ys = map (\<lambda>i. f (xs ! i) (ys ! i)) [0..<length ys]"
  by (rule nth_equalityI) simp_all

lemma attempts_bound: "0 < attempts_made inner rt s b \<and> attempts_made inner rt s b \<le> Suc (length (rt_backoff rt))"
  by (simp add: attempts_made_def retries_le)

lemma retry_new_sel [simp]: "rt_runtime (retry_new rt) = rt" "rt_backoff (retry_new rt) = BACKOFF" "length BACKOFF = 3"
  by (simp_all add: retry_new_def retry_with_backoff_def BACKOFF_def)

lemma export_logs_result:
  "fst (snd (export_logs inner rt s b)) = effs \<Longrightarrow>
   attempts effs = map (\<lambda>i. (b, nth_result inner s b i)) [0..<attempts_made inner rt s b]
   \<and> snd (snd (export_logs inner rt s b)) = nth_result inner s b (attempts_made inner rt s b - 1)"
  using export_logs_run [of inner rt s b "fst (export_logs inner rt s b)" effs "snd (snd (export_logs inner rt s b))"]
  by (simp add: prod_eq_iff)

section \<open>Properties\<close>

text \<open>
  C12. An export makes between one and four attempts, all with the batch it was given, whose results
  are the successive answers of the inner exporter; every attempt but the last was refused as
  unavailable; the last one's result is the result; fewer than four are made only when the last is
  not such a refusal. What it does, in order, is the first attempt and then, for each further one, the
  pause and after it the attempt, the pauses being 200, 400 and 800 milliseconds. This holds of every
  inner exporter, in a runtime.
\<close>

theorem export_attempts_bounded:
  assumes "export_logs inner (retry_new True) s b = (s', effs, r)"
  shows "\<exists>rs. attempts effs = map (\<lambda>x. (b, x)) rs \<and> 1 \<le> length rs \<and> length rs \<le> 4
    \<and> rs = map (nth_result inner s b) [0..<length rs]
    \<and> (\<forall>x\<in>set (butlast rs). is_unavailable x) \<and> r = last rs
    \<and> (length rs < 4 \<longrightarrow> \<not> is_unavailable r)
    \<and> effs = Attempt b (hd rs) # concat (map2 (\<lambda>d x. [Pause d, Attempt b x])
        [from_millis 200, from_millis 400, from_millis 800] (tl rs))"
proof -
  let ?n = "attempts_made inner (retry_new True) s b"
  define rs where "rs = map (nth_result inner s b) [0..<?n]"
  have n: "0 < ?n" "?n \<le> 4" using attempts_bound [of inner "retry_new True" s b] by simp_all
  note run = export_logs_run [OF assms]
  have last: "last rs = nth_result inner s b (?n - 1)"
    using n by (simp add: rs_def last_map)
  have "is_unavailable x" if x: "x \<in> set (butlast rs)" for x
  proof -
    obtain i where "i < ?n - 1" "x = nth_result inner s b i"
      using x n by (auto simp: rs_def in_set_conv_nth nth_butlast)
    then show ?thesis using attempt_refused [of i inner "retry_new True" s b] by simp
  qed
  moreover have "\<not> is_unavailable r" if "length rs < 4"
    using attempts_stop [of "retry_new True" inner s b] run that by (simp add: rs_def)
  moreover have "effs = Attempt b (hd rs) # concat (map2 (\<lambda>d x. [Pause d, Attempt b x]) BACKOFF (tl rs))"
  proof -
    have "length (tl rs) = ?n - 1" "hd rs = nth_result inner s b 0"
      using n by (simp_all add: rs_def hd_map)
    moreover have "i < ?n - 1 \<Longrightarrow> tl rs ! i = nth_result inner s b (Suc i)" for i
      using n by (simp add: rs_def nth_tl)
    ultimately show ?thesis
      using export_logs_effects [OF _ assms] n
      by (auto simp: map2_upt intro!: arg_cong [where f = concat] map_cong)
  qed
  ultimately show ?thesis
    using run n last by (intro exI [of _ rs]) (simp add: rs_def BACKOFF_def o_def)
qed

text \<open>An exporter that refuses its first \<open>n\<close> attempts, for the witnesses.\<close>

definition flaky :: "(nat, nat list) export_fn" where
  "flaky n b = (case n of 0 \<Rightarrow> (0, Inr ()) | Suc m \<Rightarrow> (m, Inl (lit ''gRPC code: Unavailable'')))"

lemma flaky_simps [simp]:
  "flaky 0 b = (0, Inr ())" "flaky (Suc m) b = (m, Inl (lit ''gRPC code: Unavailable''))"
  by (simp_all add: flaky_def)

lemma flaky_unavailable [simp]: "is_unavailable (Inl (lit ''gRPC code: Unavailable''))"
  by (simp add: is_unavailable_def lit_def)

theorem export_attempts_bounded_witness:
  "fst (snd (export_logs flaky (retry_new True) 1 [7]))
     = [Attempt [7] (Inl (lit ''gRPC code: Unavailable'')), Pause (from_millis 200), Attempt [7] (Inr ())]
   \<and> (\<exists>rs. fst (snd (export_logs flaky (retry_new True) 1 [7]))
     = Attempt [7] (hd rs) # concat (map2 (\<lambda>d x. [Pause d, Attempt [7] x])
         [from_millis 200, from_millis 400, from_millis 800] (tl rs))
     \<and> snd (snd (export_logs flaky (retry_new True) 1 [7])) = last rs)"
proof -
  have run: "export_logs flaky (retry_new True) 1 [7]
    = (0, [Attempt [7] (Inl (lit ''gRPC code: Unavailable'')), Pause (from_millis 200), Attempt [7] (Inr ())], Inr ())"
    by (simp add: export_logs_def retry_new_def retry_with_backoff_def BACKOFF_def attempt_def pause_def
        is_unavailable_def [of "Inr ()"] flaky_simps(2) [of 0, simplified] Let_def)
  show ?thesis
    using export_attempts_bounded [OF run] run by (metis fst_conv snd_conv)
qed

text \<open>
  C13. A collector that becomes reachable in time loses nothing: if it refuses as unavailable at
  most three attempts and accepts the next, the export succeeds with exactly that many retries.
\<close>

theorem recovering_collector_gets_batch:
  assumes "j \<le> 3" and "\<forall>i<j. is_unavailable (nth_result inner s b i)"
    and "nth_result inner s b j = Inr ()"
  shows "snd (snd (export_logs inner (retry_new True) s b)) = Inr ()
    \<and> length (attempts (fst (snd (export_logs inner (retry_new True) s b)))) = Suc j"
proof -
  let ?n = "attempts_made inner (retry_new True) s b"
  have "\<not> Suc j < ?n"
    using attempt_refused [of j inner "retry_new True" s b] assms(3) by (auto simp: is_unavailable_def)
  moreover have "\<not> ?n \<le> j"
  proof
    assume "?n \<le> j"
    then have "?n - 1 < j" "?n \<le> 3"
      using attempts_bound [of inner "retry_new True" s b] assms(1) by simp_all
    then show False
      using attempts_stop [of "retry_new True" inner s b] assms(2) by simp
  qed
  ultimately have "?n = Suc j" by simp
  then show ?thesis
    using export_logs_result [OF refl, of inner "retry_new True" s b] assms(3) by simp
qed

theorem recovering_collector_gets_batch_witness:
  "snd (snd (export_logs flaky (retry_new True) 2 [7])) = Inr ()"
proof -
  have "\<forall>i<2. is_unavailable (nth_result flaky 2 [7] i)"
    by (auto simp: numeral_2_eq_2 less_Suc_eq)
  moreover have "nth_result flaky 2 [7] 2 = Inr ()"
    by (simp add: numeral_2_eq_2)
  ultimately show ?thesis
    using recovering_collector_gets_batch [of 2 flaky 2 "[7]"] by simp
qed

text \<open>
  The wrapper shows only in retries: exporting spans does what exporting logs does, and an export
  outside a runtime, or whose first attempt is not refused as unavailable, is that attempt.
\<close>

lemma export_once:
  "\<not> (rt_runtime rt \<and> is_unavailable (snd (inner s b)))
    \<Longrightarrow> export_logs inner rt s b = (fst (inner s b), [Attempt b (snd (inner s b))], snd (inner s b))"
  by (cases "rt_backoff rt") (auto simp: export_logs_def attempt_def Let_def case_prod_beta)

definition accepted :: "retry \<Rightarrow> exporter_answer \<Rightarrow> bool" where
  "accepted rt x = (case x of Exported r \<Rightarrow> \<not> (rt_runtime rt \<and> is_unavailable r) | _ \<Rightarrow> True)"

lemma log_call_same: "accepted rt (snd (log_call ex s c)) \<Longrightarrow> log_call (retry_log_exporter rt ex) s c = log_call ex s c"
  by (cases c) (auto simp: retry_log_exporter_def accepted_def export_once prod_eq_iff)

lemma span_call_same: "accepted rt (snd (span_call ex s c)) \<Longrightarrow> span_call (retry_span_exporter rt ex) s c = span_call ex s c"
  by (cases c) (auto simp: retry_span_exporter_def accepted_def export_spans_logs export_once prod_eq_iff)

interpretation retried_log: simulation "log_call (retry_log_exporter rt ex)" "log_call ex" "(=)" "accepted rt" for rt ex
  by unfold_locales (simp add: log_call_same)

interpretation retried_span: simulation "span_call (retry_span_exporter rt ex)" "span_call ex" "(=)" "accepted rt" for rt ex
  by unfold_locales (simp add: span_call_same)

text \<open>
  C14. The wrapper is transparent but for its retries. Over any calls a processor makes, exports,
  shutdown, flush, resource and filter questions in any order, a wrapped log or span exporter
  ends in the state of the bare one with the same answers, unless the bare one's run has, in a
  runtime, an export refused as unavailable; and exporting spans does exactly what exporting logs
  does, retries included.
\<close>

theorem retry_is_transparent:
  assumes "run_machine (log_call lx) s cs = (s', os)" and "\<forall>r. Exported r \<in> set os \<longrightarrow> \<not> (rt_runtime rt \<and> is_unavailable r)"
    and "run_machine (span_call sx) t ds = (t', ps)" and "\<forall>r. Exported r \<in> set ps \<longrightarrow> \<not> (rt_runtime rt \<and> is_unavailable r)"
  shows "run_machine (log_call (retry_log_exporter rt lx)) s cs = (s', os)
    \<and> run_machine (span_call (retry_span_exporter rt sx)) t ds = (t', ps)
    \<and> export_spans inner rt u b = export_logs inner rt u b"
proof (intro conjI)
  have "\<forall>x\<in>set os. accepted rt x" "\<forall>x\<in>set ps. accepted rt x"
    using assms(2,4) by (auto simp: accepted_def split: exporter_answer.split)
  with assms(1,3) show "run_machine (log_call (retry_log_exporter rt lx)) s cs = (s', os)"
      "run_machine (span_call (retry_span_exporter rt sx)) t ds = (t', ps)"
    using retried_log.run_simulates [OF refl, of lx s cs rt] retried_span.run_simulates [OF refl, of sx t ds rt]
    by (simp_all add: prod_eq_iff)
qed (rule export_spans_logs)

text \<open>An exporter that counts its batches and refuses all after its shutdown.\<close>

definition counting :: "(nat, nat list, nat) span_exporter" where
  "counting = \<lparr>xp_export = (\<lambda>s b. if s = 0 then (0, Inl (lit ''already shut down'')) else (Suc s, Inr ())),
     xp_shutdown_with_timeout = (\<lambda>d s. (0, Inr ())), xp_set_resource = (\<lambda>r s. s + r),
     xp_force_flush = (\<lambda>s. (s, Inr ()))\<rparr>"

theorem retry_is_transparent_witness:
  "run_machine (span_call (retry_span_exporter (retry_new True) counting)) 1
     [Export [7], ForceFlush, ShutdownWithTimeout 5, Export [8]]
   = (0, [Exported (Inr ()), Ended (Inr ()), Ended (Inr ()), Exported (Inl (lit ''already shut down''))])"
proof -
  have refused: "\<not> is_unavailable (Inl (lit ''already shut down''))"
    by (simp add: is_unavailable_def lit_def)
  have "run_machine (span_call counting) 1 [Export [7], ForceFlush, ShutdownWithTimeout 5, Export [8]]
      = (0, [Exported (Inr ()), Ended (Inr ()), Ended (Inr ()), Exported (Inl (lit ''already shut down''))])"
    by (simp add: counting_def)
  note claim = retry_is_transparent [where rt = "retry_new True" and cs = "[]" and s = 0, OF run_machine.simps(1) _ this]
  show ?thesis by (rule conjunct1 [OF conjunct2 [OF claim]]) (use refused in \<open>auto simp: is_unavailable_def\<close>)
qed

end
