(* ===== verification/Mtls.thy ===== *)
theory Mtls
  imports RustStr RustTime
begin

text \<open>
  Live-sourced mutual TLS (\<open>src/src/rotating_mtls.rs\<close>): the configuration of one
  connection from the material that is current, the connector's steps in their order, and the
  check of the collector's identity. Parsing of PEM and X.509, the trust store, sockets and the
  handshake are the libraries' and are the parameter \<open>env\<close>; an error is its message.
\<close>

section \<open>Data\<close>

type_synonym bytes = "nat list"

record mtls_material =
  client_cert_chain_pem :: bytes
  client_key_pem :: bytes
  trust_bundle_pem :: bytes

record uri =
  ur_host :: "rstring option"
  ur_port :: "nat option"
  ur_authority :: "rstring option"

datatype general_name = UriName rstring | OtherName

record ('cert, 'key) tls_config =
  tc_roots :: "'cert list"
  tc_chain :: "'cert list"
  tc_key :: 'key
  tc_alpn :: "rstring list"

text \<open>
  What the libraries provide: the certificates of a PEM text one by one, the check the trust
  store makes of an anchor, the key of a PEM text, whether chain and key fit, the dialling of
  a host and port, the TLS name of a host, the handshake, whose success is what the peer
  presented, and the alternative names of a certificate, if it has that extension.
\<close>

record ('cert, 'key) tls_env =
  pem_certs :: "bytes \<Rightarrow> (rstring + 'cert) list"
  anchor_ok :: "'cert \<Rightarrow> rstring + unit"
  pem_key :: "bytes \<Rightarrow> rstring + 'key"
  protocol_versions :: "rstring + unit"
  client_auth :: "'cert list \<Rightarrow> 'key \<Rightarrow> rstring + unit"
  dial :: "rstring \<Rightarrow> nat \<Rightarrow> rstring + unit"
  set_nodelay :: "rstring + unit"
  server_name :: "rstring \<Rightarrow> rstring + unit"
  handshake :: "('cert, 'key) tls_config \<Rightarrow> rstring \<Rightarrow> rstring + 'cert list option"
  cert_sans :: "'cert \<Rightarrow> rstring + (rstring + general_name list option)"

text \<open>A source is asked at each connection; \<open>StaticCertSource\<close> always answers the same.\<close>

type_synonym cert_source = "nat \<Rightarrow> mtls_material option"

definition static_cert_source :: "mtls_material \<Rightarrow> cert_source" where
  "static_cert_source m = (\<lambda>_. Some m)"

text \<open>The \<open>Debug\<close> form of the material, which shows none of it.\<close>

definition mtls_material_debug :: "mtls_material \<Rightarrow> rstring" where
  "mtls_material_debug m =
     (let redacted = 34 # lit ''<redacted>'' @ [34]
      in lit ''MtlsMaterial { client_cert_chain_pem: '' @ redacted @ lit '', client_key_pem: '' @ redacted
         @ lit '', trust_bundle_pem: '' @ redacted @ lit '' }'')"

section \<open>The configuration of a connection\<close>

fun add_roots :: "('cert, 'key) tls_env \<Rightarrow> (rstring + 'cert) list \<Rightarrow> 'cert list \<Rightarrow> rstring + 'cert list" where
  "add_roots env [] roots = Inr roots"
| "add_roots env (Inl e # cas) roots = Inl e"
| "add_roots env (Inr ca # cas) roots =
     bind_res (anchor_ok env ca) (\<lambda>_. add_roots env cas (roots @ [ca]))"

definition client_config :: "('cert, 'key) tls_env \<Rightarrow> mtls_material \<Rightarrow> rstring + ('cert, 'key) tls_config" where
  "client_config env material =
     bind_res (add_roots env (pem_certs env (trust_bundle_pem material)) []) (\<lambda>roots.
     if roots = [] then Inl (lit ''mTLS trust bundle holds no certificates'')
     else
       bind_res (collect_res (pem_certs env (client_cert_chain_pem material))) (\<lambda>chain.
       bind_res (pem_key env (client_key_pem material)) (\<lambda>key.
       bind_res (protocol_versions env) (\<lambda>_.
       bind_res (client_auth env chain key) (\<lambda>_.
       Inr \<lparr>tc_roots = roots, tc_chain = chain, tc_key = key, tc_alpn = [lit ''h2'']\<rparr>)))))"

section \<open>The identity of the collector\<close>

text \<open>The loop over the names: \<open>None\<close> when the expected one is found, else those seen.\<close>

fun scan_names :: "rstring \<Rightarrow> general_name list \<Rightarrow> rstring list \<Rightarrow> rstring list option" where
  "scan_names expected [] found = Some found"
| "scan_names expected (UriName u # ns) found =
     (if u = expected then None else scan_names expected ns (found @ [u]))"
| "scan_names expected (OtherName # ns) found = scan_names expected ns found"

definition require_spiffe_id ::
    "('cert, 'key) tls_env \<Rightarrow> 'cert list option \<Rightarrow> rstring \<Rightarrow> rstring + unit" where
  "require_spiffe_id env peer expected =
     bind_res (ok_or (lit ''collector presented no certificate'')
                 (Option.bind peer (\<lambda>cs. case cs of [] \<Rightarrow> None | leaf # _ \<Rightarrow> Some leaf))) (\<lambda>leaf.
     bind_res (map_err (\<lambda>e. lit ''collector certificate is not parseable: '' @ e) (cert_sans env leaf)) (\<lambda>sans.
     bind_res (map_err (\<lambda>e. lit ''collector certificate has a malformed SAN: '' @ e) sans) (\<lambda>san.
     case scan_names expected (unwrap_or san []) [] of
       None \<Rightarrow> Inr ()
     | Some found \<Rightarrow> Inl (lit ''collector identity mismatch: expected '' @ expected
          @ lit '', certificate carries ['' @ join_with (lit '', '') found @ lit '']''))))"

section \<open>The connector\<close>

datatype ('cert, 'key) net_effect =
    Dialled rstring nat
  | Handshake "('cert, 'key) tls_config" rstring
  | WarnUnpinned

record connector =
  cn_source :: cert_source
  cn_expected_id :: "rstring option"

text \<open>
  \<open>RotatingConnector::connect\<close>. \<open>cur\<close> is what the source answers at this moment,
  \<open>warned\<close> whether the process has warned of an unpinned collector; the result carries what
  was done on the network, in order, the new state of the warning, and the peer's certificates.
\<close>

definition connect ::
    "('cert, 'key) tls_env \<Rightarrow> bool \<Rightarrow> mtls_material option \<Rightarrow> rstring option \<Rightarrow> uri
       \<Rightarrow> ('cert, 'key) net_effect list \<times> bool \<times> (rstring + 'cert list option)" where
  "connect env warned cur expected_id u =
     (case ok_or (lit ''OTLP endpoint has no host'') (ur_host u) of
        Inl e \<Rightarrow> ([], warned, Inl e)
      | Inr host \<Rightarrow>
          let port = unwrap_or (ur_port u) 443 in
          (case bind_res (ok_or (lit ''mTLS material is not available yet'') cur) (client_config env) of
             Inl e \<Rightarrow> ([], warned, Inl e)
           | Inr config \<Rightarrow>
               let eff = [Dialled host port] in
               (case bind_res (dial env host port) (\<lambda>_. bind_res (set_nodelay env) (\<lambda>_. server_name env host)) of
                  Inl e \<Rightarrow> (eff, warned, Inl e)
                | Inr _ \<Rightarrow>
                    let eff = eff @ [Handshake config host] in
                    (case handshake env config host of
                       Inl e \<Rightarrow> (eff, warned, Inl e)
                     | Inr peer \<Rightarrow>
                         (case expected_id of
                            Some ident \<Rightarrow>
                              (case require_spiffe_id env peer ident of
                                 Inl e \<Rightarrow> (eff, warned, Inl e)
                               | Inr _ \<Rightarrow> (eff, warned, Inr peer))
                          | None \<Rightarrow>
                              (eff @ (if warned then [] else [WarnUnpinned]), True, Inr peer))))))"

text \<open>The connector's service, always ready: the \<open>n\<close>-th call asks the source at that moment.\<close>

fun connections ::
    "('cert, 'key) tls_env \<Rightarrow> connector \<Rightarrow> bool \<Rightarrow> nat \<Rightarrow> uri list
       \<Rightarrow> (('cert, 'key) net_effect list \<times> (rstring + 'cert list option)) list" where
  "connections env cn warned n [] = []"
| "connections env cn warned n (u # us) =
     (let (eff, warned, r) = connect env warned (cn_source cn n) (cn_expected_id cn) u
      in (eff, r) # connections env cn warned (Suc n) us)"

section \<open>The channel\<close>

record channel =
  ch_uri :: rstring
  ch_connect_timeout :: duration
  ch_timeout :: "duration option"
  ch_connector :: connector

text \<open>\<open>parse_uri\<close> and \<open>from_shared\<close> are the parsers of the \<open>http\<close> and \<open>tonic\<close> crates.\<close>

definition make_channel ::
    "(rstring \<Rightarrow> rstring + uri) \<Rightarrow> (rstring \<Rightarrow> rstring + unit) \<Rightarrow> rstring \<Rightarrow> cert_source
       \<Rightarrow> duration option \<Rightarrow> rstring option \<Rightarrow> rstring + channel" where
  "make_channel parse_uri from_shared endpoint source timeout expected_id =
     bind_res (parse_uri endpoint) (\<lambda>parsed.
     bind_res (ok_or (lit ''OTLP endpoint has no host'') (ur_authority parsed)) (\<lambda>authority.
     bind_res (from_shared (lit ''http://'' @ authority)) (\<lambda>_.
     Inr \<lparr>ch_uri = lit ''http://'' @ authority, ch_connect_timeout = from_secs 10, ch_timeout = timeout,
          ch_connector = \<lparr>cn_source = source, cn_expected_id = expected_id\<rparr>\<rparr>)))"

section \<open>Facts\<close>

lemma add_roots_Inr:
  "add_roots env cas roots = Inr rs \<longleftrightarrow>
     (\<exists>new. cas = map Inr new \<and> rs = roots @ new \<and> (\<forall>c\<in>set new. anchor_ok env c = Inr ()))"
proof (induction env cas roots arbitrary: rs rule: add_roots.induct)
  case (3 env ca cas roots)
  show ?case
    by (cases "anchor_ok env ca") (auto simp: "3.IH" Cons_eq_map_conv)
qed auto

lemma client_config_Inr:
  assumes "client_config env m = Inr cfg"
  shows "pem_certs env (trust_bundle_pem m) = map Inr (tc_roots cfg) \<and> tc_roots cfg \<noteq> []
    \<and> pem_certs env (client_cert_chain_pem m) = map Inr (tc_chain cfg)
    \<and> pem_key env (client_key_pem m) = Inr (tc_key cfg) \<and> tc_alpn cfg = [lit ''h2'']
    \<and> (\<forall>ca\<in>set (tc_roots cfg). anchor_ok env ca = Inr ()) \<and> client_auth env (tc_chain cfg) (tc_key cfg) = Inr ()"
  using assms
  by (auto simp: client_config_def bind_res_Inr add_roots_Inr collect_res_Inr split: if_splits)

lemma scan_names_None: "scan_names ident ns found = None \<longleftrightarrow> UriName ident \<in> set ns"
  by (induction ident ns found rule: scan_names.induct) auto

text \<open>The identity a certificate list is pinned to: the leaf carries it as a URI name.\<close>

definition carries_id :: "('cert, 'key) tls_env \<Rightarrow> 'cert list option \<Rightarrow> rstring \<Rightarrow> bool" where
  "carries_id env peer ident \<longleftrightarrow>
     (\<exists>leaf rest names. peer = Some (leaf # rest) \<and> cert_sans env leaf = Inr (Inr (Some names))
        \<and> UriName ident \<in> set names)"

lemma require_spiffe_id_ok: "require_spiffe_id env peer ident = Inr () \<longleftrightarrow> carries_id env peer ident"
proof -
  have "scan_names ident (unwrap_or san []) [] = None \<longleftrightarrow> (\<exists>names. san = Some names \<and> UriName ident \<in> set names)"
    for san by (cases san) (auto simp: scan_names_None)
  then show ?thesis
    by (cases peer; cases "the peer")
       (auto simp: require_spiffe_id_def carries_id_def bind_res_Inr map_err_Inr split: option.splits)
qed

lemma connect_cases:
  fixes env :: "('cert, 'key) tls_env"
  obtains (nothing) e where "connect env warned cur ex u = ([], warned, Inl e)"
      "\<And>host m cfg. ur_host u = Some host \<Longrightarrow> cur = Some m \<Longrightarrow> client_config env m \<noteq> Inr cfg"
    | (failed) host m cfg e eff where "ur_host u = Some host" "cur = Some m" "client_config env m = Inr cfg"
      "connect env warned cur ex u = (eff, warned, Inl e)"
      "eff = [Dialled host (unwrap_or (ur_port u) 443)] \<or> eff = [Dialled host (unwrap_or (ur_port u) 443), Handshake cfg host]"
    | (made) host m cfg peer where "ur_host u = Some host" "cur = Some m" "client_config env m = Inr cfg"
      "handshake env cfg host = Inr peer" "\<And>ident. ex = Some ident \<Longrightarrow> carries_id env peer ident"
      "connect env warned cur ex u =
         ([Dialled host (unwrap_or (ur_port u) 443), Handshake cfg host]
            @ (if ex = None \<and> \<not> warned then [WarnUnpinned] else []), warned \<or> ex = None, Inr peer)"
proof (cases "ur_host u")
  case None
  have "connect env warned cur ex u = ([], warned, Inl (lit ''OTLP endpoint has no host''))"
    using None by (simp add: connect_def)
  then show ?thesis by (rule nothing) (simp add: None)
next
  case (Some host)
  note host = this
  show ?thesis
  proof (cases "bind_res (ok_or (lit ''mTLS material is not available yet'') cur) (client_config env)")
    case (Inl e)
    note r = this
    show ?thesis
      by (rule nothing [of e]) (use host r in \<open>auto simp: connect_def bind_res_Inl\<close>)
  next
    case (Inr cfg)
    then obtain m where m: "cur = Some m" "client_config env m = Inr cfg"
      by (auto simp: bind_res_Inr ok_or_Inr)
    show ?thesis
    proof (cases "bind_res (dial env host (unwrap_or (ur_port u) 443)) (\<lambda>_. bind_res (set_nodelay env) (\<lambda>_. server_name env host))")
      case (Inl e)
      note r = this
      show ?thesis
        by (rule failed [of host m cfg _ e]) (use host m r in \<open>auto simp: connect_def Let_def\<close>)
    next
      case (Inr x)
      note dialled = this
      show ?thesis
      proof (cases "handshake env cfg host")
        case (Inl e)
        note r = this
        show ?thesis
          by (rule failed [of host m cfg _ e]) (use host m dialled r in \<open>auto simp: connect_def Let_def\<close>)
      next
        case (Inr peer)
        note c = host m dialled Inr
        show ?thesis
        proof (cases "\<exists>ident. ex = Some ident \<and> \<not> carries_id env peer ident")
          case True
          then obtain ident e where "ex = Some ident" "require_spiffe_id env peer ident = Inl e"
            using require_spiffe_id_ok by (metis (full_types) old.unit.exhaust sum.exhaust)
          note r = this
          show ?thesis
            by (rule failed [of host m cfg _ e]) (use c r in \<open>auto simp: connect_def Let_def\<close>)
        next
          case False
          then have "require_spiffe_id env peer ident = Inr ()" if "ex = Some ident" for ident
            using that require_spiffe_id_ok by blast
          note r = this False
          show ?thesis
            by (rule made [of host m cfg peer]) (use c r in \<open>auto simp: connect_def Let_def split: option.splits\<close>)
        qed
      qed
    qed
  qed
qed

definition warnings :: "('cert, 'key) net_effect list \<Rightarrow> nat" where
  "warnings eff = length (filter (\<lambda>e. e = WarnUnpinned) eff)"

lemma warnings_append: "warnings (xs @ ys) = warnings xs + warnings ys"
  by (simp add: warnings_def)

lemma connect_warnings:
  assumes "connect env warned cur ex u = (eff, warned', r)"
  shows "warnings eff = (if warned' \<and> \<not> warned then 1 else 0) \<and> (warned \<longrightarrow> warned')
    \<and> (ex \<noteq> None \<longrightarrow> warned' = warned)"
  by (rule connect_cases [of env warned cur ex u]) (use assms in \<open>auto simp: warnings_def\<close>)

lemma connect_handshake:
  assumes "connect env warned cur ex u = (eff, warned', r)" and "Handshake cfg host \<in> set eff"
  shows "\<exists>m. cur = Some m \<and> client_config env m = Inr cfg"
  by (rule connect_cases [of env warned cur ex u]) (use assms in \<open>auto split: if_splits\<close>)

section \<open>Properties\<close>

text \<open>An environment of the libraries for the witnesses: a certificate is a number.\<close>

definition toy_env :: "(nat, nat) tls_env" where
  "toy_env = \<lparr>pem_certs = map Inr, anchor_ok = (\<lambda>_. Inr ()), pem_key = (\<lambda>b. Inr (hd b)),
     protocol_versions = Inr (), client_auth = (\<lambda>_ _. Inr ()), dial = (\<lambda>_ _. Inr ()), set_nodelay = Inr (),
     server_name = (\<lambda>_. Inr ()), handshake = (\<lambda>cfg _. Inr (Some (tc_roots cfg))),
     cert_sans = (\<lambda>c. Inr (Inr (Some [UriName [c]])))\<rparr>"

definition toy_material :: "nat \<Rightarrow> mtls_material" where
  "toy_material n = \<lparr>client_cert_chain_pem = [n], client_key_pem = [n], trust_bundle_pem = [7]\<rparr>"

definition toy_uri :: uri where
  "toy_uri = \<lparr>ur_host = Some (lit ''otel''), ur_port = None, ur_authority = Some (lit ''otel'')\<rparr>"

definition toy_config :: "nat \<Rightarrow> (nat, nat) tls_config" where
  "toy_config n = \<lparr>tc_roots = [7], tc_chain = [n], tc_key = n, tc_alpn = [lit ''h2'']\<rparr>"

lemma toy_client_config: "client_config toy_env (toy_material n) = Inr (toy_config n)"
  by (simp add: client_config_def toy_env_def toy_material_def toy_config_def)

lemma toy_handshake:
  "handshake toy_env (toy_config n) h = Inr (Some [7])" "dial toy_env h p = Inr ()" "set_nodelay toy_env = Inr ()"
  "server_name toy_env h = Inr ()" "cert_sans toy_env c = Inr (Inr (Some [UriName [c]]))"
  by (simp_all add: toy_env_def toy_config_def)

lemma toy_connect:
  "connect toy_env False (Some (toy_material n)) (Some [7]) toy_uri =
     ([Dialled (lit ''otel'') 443, Handshake (toy_config n) (lit ''otel'')], False, Inr (Some [7]))"
  using toy_client_config [of n]
  by (simp add: connect_def toy_uri_def require_spiffe_id_def Let_def toy_handshake)

text \<open>
  C19. A connection is mutual and pinned: when one is made, the handshake ran with the chain and
  key that were current, trusting exactly the certificates of the current bundle, of which there
  is at least one, over HTTP/2, with the endpoint's own host as the name to verify; and when an
  identity is expected, the collector's leaf certificate carries it as a URI name.
\<close>

theorem connection_is_mutual_and_pinned:
  assumes "connect env warned cur ex u = (eff, warned', Inr peer)"
  shows "\<exists>host m cfg. ur_host u = Some host \<and> cur = Some m \<and> Handshake cfg host \<in> set eff
    \<and> handshake env cfg host = Inr peer
    \<and> pem_certs env (trust_bundle_pem m) = map Inr (tc_roots cfg) \<and> tc_roots cfg \<noteq> []
    \<and> pem_certs env (client_cert_chain_pem m) = map Inr (tc_chain cfg)
    \<and> pem_key env (client_key_pem m) = Inr (tc_key cfg) \<and> tc_alpn cfg = [lit ''h2'']
    \<and> (\<forall>ident. ex = Some ident \<longrightarrow> (\<exists>leaf rest names. peer = Some (leaf # rest)
           \<and> cert_sans env leaf = Inr (Inr (Some names)) \<and> UriName ident \<in> set names))"
proof (rule connect_cases [of env warned cur ex u])
  fix host m cfg p
  assume m: "ur_host u = Some host" "cur = Some m" "client_config env m = Inr cfg" "handshake env cfg host = Inr p"
    and id: "\<And>ident. ex = Some ident \<Longrightarrow> carries_id env p ident"
    and c: "connect env warned cur ex u = ([Dialled host (unwrap_or (ur_port u) 443), Handshake cfg host]
            @ (if ex = None \<and> \<not> warned then [WarnUnpinned] else []), warned \<or> ex = None, Inr p)"
  from c assms have "p = peer" "Handshake cfg host \<in> set eff" by auto
  with m id client_config_Inr [OF m(3)] show ?thesis
    unfolding carries_id_def by blast
qed (use assms in auto)

theorem connection_is_mutual_and_pinned_witness:
  "\<exists>leaf names. cert_sans toy_env leaf = Inr (Inr (Some names)) \<and> UriName [7] \<in> set names"
proof -
  obtain host m cfg where "\<forall>ident. Some [7] = Some ident \<longrightarrow> (\<exists>leaf rest names. Some [7] = Some (leaf # rest)
      \<and> cert_sans toy_env leaf = Inr (Inr (Some names)) \<and> UriName ident \<in> set names)"
    using connection_is_mutual_and_pinned [OF toy_connect [of 3]] by (elim exE conjE)
  then show ?thesis by auto
qed

text \<open>
  C20. Nothing is sent without material: the network is touched only after a complete
  configuration was built from the material current at that moment. A source that is not ready,
  a bundle that is empty, malformed or holds a certificate that is no anchor, a chain or a key that
  does not parse, or a chain and key that rustls does not accept, fails the attempt before any dialling.
\<close>

theorem no_contact_without_material:
  assumes "cur = None \<or> (\<exists>m. cur = Some m \<and> (pem_certs env (trust_bundle_pem m) = []
      \<or> (\<exists>e. Inl e \<in> set (pem_certs env (trust_bundle_pem m) @ pem_certs env (client_cert_chain_pem m)))
      \<or> (\<exists>ca e. Inr ca \<in> set (pem_certs env (trust_bundle_pem m)) \<and> anchor_ok env ca = Inl e)
      \<or> (\<exists>e. pem_key env (client_key_pem m) = Inl e)
      \<or> (\<exists>chain key e. pem_certs env (client_cert_chain_pem m) = map Inr chain \<and> pem_key env (client_key_pem m) = Inr key
          \<and> client_auth env chain key = Inl e)))"
  shows "\<exists>e. connect env warned cur ex u = ([], warned, Inl e)"
proof -
  have no: "client_config env m \<noteq> Inr cfg" if m: "cur = Some m" for m cfg
  proof
    assume "client_config env m = Inr cfg"
    note cfg = client_config_Inr [OF this]
    have "Inl e \<notin> set (pem_certs env (trust_bundle_pem m) @ pem_certs env (client_cert_chain_pem m))" for e
      using cfg by auto
    moreover have "pem_certs env (trust_bundle_pem m) \<noteq> []" "pem_key env (client_key_pem m) \<noteq> Inl e" for e
      using cfg by auto
    moreover have "anchor_ok env ca \<noteq> Inl e" if "Inr ca \<in> set (pem_certs env (trust_bundle_pem m))" for ca e
      using cfg that by auto
    moreover have "client_auth env chain key \<noteq> Inl e"
      if "pem_certs env (client_cert_chain_pem m) = map Inr chain" "pem_key env (client_key_pem m) = Inr key" for chain key e
    proof -
      have "chain = tc_chain cfg" "key = tc_key cfg"
        using cfg that by (simp_all add: inj_map_eq_map)
      with cfg show ?thesis by simp
    qed
    ultimately show False using assms m by blast
  qed
  show ?thesis
  proof (cases rule: connect_cases [of env warned cur ex u])
    case nothing
    then show ?thesis by blast
  next
    case failed
    with no show ?thesis by blast
  next
    case made
    with no show ?thesis by blast
  qed
qed

theorem no_contact_without_material_witness:
  "\<exists>e. connect toy_env False None None toy_uri = ([], False, Inl e)"
  by (rule no_contact_without_material) simp

text \<open>
  C21. Rotation takes effect at the next connection: in any sequence of connections, each
  handshake presents and trusts the material the source holds at that connection; and the
  process warns of an unpinned collector at most once, never when an identity is expected.
\<close>

theorem rotation_takes_effect:
  "(\<forall>i<length us. \<forall>cfg host. Handshake cfg host \<in> set (fst (connections env cn warned n us ! i)) \<longrightarrow>
       (\<exists>m. cn_source cn (n + i) = Some m \<and> client_config env m = Inr cfg))
   \<and> warnings (concat (map fst (connections env cn warned n us)))
       \<le> (if warned \<or> cn_expected_id cn \<noteq> None then 0 else 1)"
proof (induction us arbitrary: warned n)
  case Nil
  then show ?case by (simp add: warnings_def)
next
  case (Cons u us)
  obtain eff w r where c: "connect env warned (cn_source cn n) (cn_expected_id cn) u = (eff, w, r)"
    by (cases "connect env warned (cn_source cn n) (cn_expected_id cn) u")
  have "\<exists>m. cn_source cn (n + i) = Some m \<and> client_config env m = Inr cfg"
    if "i < length (u # us)" "Handshake cfg host \<in> set (fst (connections env cn warned n (u # us) ! i))" for i cfg host
  proof (cases i)
    case 0
    with that connect_handshake [OF c] c show ?thesis by simp
  next
    case (Suc j)
    with that Cons [of w "Suc n"] c show ?thesis by simp blast
  qed
  moreover have "warnings (concat (map fst (connections env cn warned n (u # us))))
      \<le> (if warned \<or> cn_expected_id cn \<noteq> None then 0 else 1)"
  proof -
    have "connections env cn warned n (u # us) = (eff, r) # connections env cn w (Suc n) us"
      using c by simp
    then show ?thesis
      using Cons [of w "Suc n"] connect_warnings [OF c]
      by (cases warned; cases w) (simp_all add: warnings_append del: connections.simps)
  qed
  ultimately show ?case by blast
qed

theorem rotation_takes_effect_witness:
  "\<exists>m. Some (toy_material 1) = Some m \<and> client_config toy_env m = Inr (toy_config 1)"
proof -
  let ?cn = "\<lparr>cn_source = (\<lambda>i. Some (toy_material i)), cn_expected_id = Some [7]\<rparr>"
  have "Handshake (toy_config 1) (lit ''otel'') \<in> set (fst (connections toy_env ?cn False 0 [toy_uri, toy_uri] ! 1))"
    by (simp add: toy_connect)
  with rotation_takes_effect [of "[toy_uri, toy_uri]" toy_env ?cn False 0] show ?thesis
    by (auto dest: spec [of _ 1])
qed

end
