(* ===== verification/LogBridge.thy ===== *)
theory LogBridge
  imports Tracing "HOL-Library.Multiset"
begin

text \<open>
  The log bridge (\<open>src/src/log_bridge.rs\<close>) with the writers of
  \<open>src/src/span_enrichment.rs\<close>: what is captured of a span when it opens, what is
  written on it later, and what the log record of an event carries of the spans around it.
\<close>

section \<open>Attribute stores\<close>

text \<open>
  Overwrite the first entry of the key, or append one: the update of \<open>SpanLogAttrs\<close> and,
  on a map with one entry per key, the insertion of a \<open>HashMap\<close>.
\<close>

fun upsert :: "'k \<Rightarrow> 'v \<Rightarrow> ('k \<times> 'v) list \<Rightarrow> ('k \<times> 'v) list" where
  "upsert k v [] = [(k, v)]"
| "upsert k v ((j, w) # xs) = (if j = k then (j, v) # xs else (j, w) # upsert k v xs)"

text \<open>A store: what it holds after an insertion, and that each key has one entry.\<close>

locale kv_store =
  fixes put :: "'k \<Rightarrow> 'v \<Rightarrow> 's \<Rightarrow> 's"
    and look :: "'s \<Rightarrow> 'k \<Rightarrow> 'v option"
    and entries :: "'s \<Rightarrow> ('k \<times> 'v) list"
    and empty :: 's
  assumes look_empty: "look empty j = None"
    and entries_empty: "entries empty = []"
    and look_put: "look (put k v s) j = (if j = k then Some v else look s j)"
    and look_entries: "look s j = map_of (entries s) j"
    and keys_put: "distinct (map fst (entries s)) \<Longrightarrow> distinct (map fst (entries (put k v s)))"
begin

definition puts :: "('k \<times> 'v) list \<Rightarrow> 's \<Rightarrow> 's" where
  "puts kvs s = foldl (\<lambda>s (k, v). put k v s) s kvs"

lemma look_puts: "look (puts kvs s) j = (case map_of (rev kvs) j of Some v \<Rightarrow> Some v | None \<Rightarrow> look s j)"
  unfolding puts_def
  by (induction kvs rule: rev_induct) (auto simp: look_put case_prod_beta split: option.split)

lemma puts_distinct: "distinct (map fst (entries s)) \<Longrightarrow> distinct (map fst (entries (puts kvs s)))"
  unfolding puts_def by (induction kvs arbitrary: s) (auto simp: keys_put case_prod_beta)

lemma entry_unique:
  assumes "distinct (map fst (entries s))" and "look s k = Some v"
  shows "filter (\<lambda>e. fst e = k) (entries s) = [(k, v)]"
proof -
  have "map_of xs k = Some v \<Longrightarrow> distinct (map fst xs) \<Longrightarrow> filter (\<lambda>e. fst e = k) xs = [(k, v)]"
    for xs :: "('k \<times> 'v) list"
  proof (induction xs)
    case (Cons x xs)
    have "k \<notin> fst ` set xs \<Longrightarrow> filter (\<lambda>e. fst e = k) xs = []"
      by (auto simp: filter_empty_conv)
    with Cons show ?case by (cases x) (auto split: if_splits)
  qed simp
  with assms show ?thesis by (simp add: look_entries)
qed

end

lemma upsert_map_of: "map_of (upsert k v xs) j = (if j = k then Some v else map_of xs j)"
  by (induction k v xs rule: upsert.induct) auto

lemma upsert_keys: "fst ` set (upsert k v xs) = insert k (fst ` set xs)"
  by (induction k v xs rule: upsert.induct) auto

lemma upsert_distinct: "distinct (map fst xs) \<Longrightarrow> distinct (map fst (upsert k v xs))"
proof (induction k v xs rule: upsert.induct)
  case (2 k v j w xs)
  have "fst ` set (upsert k v xs) = insert k (fst ` set xs)" by (rule upsert_keys)
  with 2 show ?case by auto
qed simp

lemma upsert_nonempty [simp]: "upsert k v xs \<noteq> []"
  by (cases xs) (auto split: if_splits)

interpretation attr_list: kv_store upsert map_of "\<lambda>xs. xs" "[]"
  by unfold_locales (auto simp: upsert_map_of upsert_distinct)

section \<open>Data\<close>

datatype severity = SevTrace | SevDebug | SevInfo | SevWarn | SevError

datatype any_value = AvString rstring | AvBool bool | AvInt i64 | AvDouble u64 | AvList "any_value list"

record log_record =
  lr_severity :: severity
  lr_severity_text :: rstring
  lr_target :: rstring
  lr_event_name :: rstring
  lr_body :: "any_value option"
  lr_attrs :: "(rstring \<times> any_value) list"

text \<open>
  What the bridge keeps of a span: its two extensions, and the attributes set on its
  \<open>OpenTelemetry\<close> counterpart. Spans are numbered in the order of their creation. How they
  are related is the registry's.
\<close>

record span_data =
  sd_tracked :: "(rstring \<times> rstring) list option"
  sd_log_attrs :: "(rstring \<times> any_value) list option"
  sd_trace_attrs :: "(rstring \<times> rstring) list"

record world =
  wd_spans :: "span_data list"
  wd_emitted :: "log_record list"

text \<open>
  A span as the registry hands it to a layer: \<open>SpanRef\<close>, with its id and what \<open>scope\<close> iterates,
  which is the registry's to say: any list of spans. A span the bridge has seen nothing of has no
  extensions.
\<close>

record span_ref =
  sr_id :: nat
  scope :: "nat list"

definition no_extensions :: span_data where
  "no_extensions = \<lparr>sd_tracked = None, sd_log_attrs = None, sd_trace_attrs = []\<rparr>"

definition extensions :: "span_data list \<Rightarrow> nat \<Rightarrow> span_data" where
  "extensions sp i = (if i < length sp then sp ! i else no_extensions)"

section \<open>Visitors\<close>

definition field_collector_visit ::
    "rstring list \<Rightarrow> (rstring \<times> rstring) list \<Rightarrow> field \<Rightarrow> (rstring \<times> rstring) list" where
  "field_collector_visit ks fds fd =
     (case fd_value fd of
        StrV s \<Rightarrow> if fd_name fd \<in> set ks then upsert (fd_name fd) s fds else fds
      | _ \<Rightarrow> if fd_name fd \<in> set ks then upsert (fd_name fd) (trim_matches 34 (fd_debug fd)) fds else fds)"

definition add_attribute :: "rstring \<Rightarrow> any_value \<Rightarrow> log_record \<Rightarrow> log_record" where
  "add_attribute k v lr = lr\<lparr>lr_attrs := lr_attrs lr @ [(k, v)]\<rparr>"

definition log_record_visit :: "log_record \<Rightarrow> field \<Rightarrow> log_record" where
  "log_record_visit lr fd =
     (case fd_value fd of
        StrV s \<Rightarrow> if fd_name fd = lit ''message'' then lr\<lparr>lr_body := Some (AvString s)\<rparr>
                  else add_attribute (fd_name fd) (AvString s) lr
      | BoolV b \<Rightarrow> add_attribute (fd_name fd) (AvBool b) lr
      | I64V n \<Rightarrow> add_attribute (fd_name fd) (AvInt n) lr
      | F64V x \<Rightarrow> add_attribute (fd_name fd) (AvDouble x) lr
      | DebugV \<Rightarrow> if fd_name fd = lit ''message'' then lr\<lparr>lr_body := Some (AvString (fd_debug fd))\<rparr>
                  else add_attribute (fd_name fd) (AvString (fd_debug fd)) lr)"

definition severity_of_level :: "level \<Rightarrow> severity" where
  "severity_of_level l = (case l of TRACE \<Rightarrow> SevTrace | DEBUG \<Rightarrow> SevDebug | INFO \<Rightarrow> SevInfo
     | WARN \<Rightarrow> SevWarn | ERROR \<Rightarrow> SevError)"

section \<open>Writers\<close>

definition PROPAGATED_SPAN_FIELDS :: "rstring list" where
  "PROPAGATED_SPAN_FIELDS =
     [lit ''request.id'', lit ''enduser.id'', lit ''enduser.org_id'', lit ''enduser.org_path'',
      lit ''enduser.principal_kind'', lit ''http.request.method'', lit ''http.response.status_code'',
      lit ''http.route'']"

definition REQUEST_ID :: rstring where
  "REQUEST_ID = lit ''request.id''"

text \<open>
  A span handle is \<open>None\<close> when the span is disabled or has no subscriber; \<open>backed\<close>
  says whether the subscriber is built on \<open>Registry\<close>.
\<close>

definition record_span_log_attr_on ::
    "bool \<Rightarrow> nat option \<Rightarrow> rstring \<Rightarrow> any_value \<Rightarrow> world \<Rightarrow> world" where
  "record_span_log_attr_on backed sp k v w =
     (case sp of
        None \<Rightarrow> w
      | Some i \<Rightarrow>
          if backed \<and> i < length (wd_spans w) then
            let sd = wd_spans w ! i;
                attrs = unwrap_or (sd_log_attrs sd) []
            in w\<lparr>wd_spans := (wd_spans w)[i := sd\<lparr>sd_log_attrs := Some (upsert k v attrs)\<rparr>]\<rparr>
          else w)"

definition record_span_log_attr :: "bool \<Rightarrow> nat option \<Rightarrow> rstring \<Rightarrow> any_value \<Rightarrow> world \<Rightarrow> world" where
  "record_span_log_attr backed current k v w = record_span_log_attr_on backed current k v w"

text \<open>\<open>OpenTelemetrySpanExt::set_attribute\<close>: the call reaches the span's counterpart.\<close>

definition set_attribute :: "nat option \<Rightarrow> rstring \<Rightarrow> rstring \<Rightarrow> world \<Rightarrow> world" where
  "set_attribute sp k v w =
     (case sp of
        None \<Rightarrow> w
      | Some i \<Rightarrow>
          if i < length (wd_spans w) then
            w\<lparr>wd_spans := (wd_spans w)[i := (wd_spans w ! i)
                \<lparr>sd_trace_attrs := sd_trace_attrs (wd_spans w ! i) @ [(k, v)]\<rparr>]\<rparr>
          else w)"

definition emit_request_id_on :: "bool \<Rightarrow> nat option \<Rightarrow> rstring \<Rightarrow> world \<Rightarrow> world" where
  "emit_request_id_on backed sp rid w =
     record_span_log_attr_on backed sp REQUEST_ID (AvString rid) (set_attribute sp REQUEST_ID rid w)"

definition emit_request_id :: "bool \<Rightarrow> nat option \<Rightarrow> rstring \<Rightarrow> world \<Rightarrow> world" where
  "emit_request_id backed current rid w = emit_request_id_on backed current rid w"

section \<open>The layer\<close>

text \<open>A span is opened without extensions, then the layer's \<open>on_new_span\<close> runs.\<close>

definition span_opened :: "world \<Rightarrow> world" where
  "span_opened w = w\<lparr>wd_spans := wd_spans w @ [no_extensions]\<rparr>"

definition on_new_span :: "rstring list \<Rightarrow> field list \<Rightarrow> nat \<Rightarrow> world \<Rightarrow> world" where
  "on_new_span ks attrs i w =
     (let tracked = visit_fields (field_collector_visit ks) [] attrs in
      if tracked \<noteq> [] \<and> i < length (wd_spans w)
      then w\<lparr>wd_spans := (wd_spans w)[i := (wd_spans w ! i)\<lparr>sd_tracked := Some tracked\<rparr>]\<rparr>
      else w)"

text \<open>
  The iteration order of a \<open>HashMap\<close> is arbitrary and differs from map to map:
  \<open>order i\<close> is the one of the map of span \<open>i\<close>.
\<close>

type_synonym hash_order = "nat \<Rightarrow> (rstring \<times> rstring) list \<Rightarrow> (rstring \<times> rstring) list"

definition span_attrs :: "hash_order \<Rightarrow> span_data list \<Rightarrow> nat \<Rightarrow> (rstring \<times> any_value) list" where
  "span_attrs order sp i =
     map (\<lambda>(k, v). (k, AvString v)) (order i (unwrap_or (sd_tracked (extensions sp i)) []))
     @ unwrap_or (sd_log_attrs (extensions sp i)) []"

definition inject_span_context :: "hash_order \<Rightarrow> span_data list \<Rightarrow> span_ref \<Rightarrow> log_record \<Rightarrow> log_record" where
  "inject_span_context order sp span lr =
     foldl (\<lambda>lr a. foldl (\<lambda>lr (k, v). add_attribute k v lr) lr (span_attrs order sp a)) lr (scope span)"

definition new_log_record :: "metadata \<Rightarrow> log_record" where
  "new_log_record meta =
     \<lparr>lr_severity = severity_of_level (md_level meta), lr_severity_text = level_str (md_level meta),
      lr_target = md_target meta, lr_event_name = md_name meta, lr_body = None, lr_attrs = []\<rparr>"

definition on_event :: "hash_order \<Rightarrow> tevent \<Rightarrow> span_ref option \<Rightarrow> world \<Rightarrow> world" where
  "on_event order ev event_span w =
     (let lr = visit_fields log_record_visit (new_log_record (te_meta ev)) (te_fields ev);
          lr = (case event_span of None \<Rightarrow> lr | Some span \<Rightarrow> inject_span_context order (wd_spans w) span lr)
      in w\<lparr>wd_emitted := wd_emitted w @ [lr]\<rparr>)"

end
