(* ===== verification/Config.thy ===== *)
theory Config
  imports F64 LogFmt Mtls LogBridge
begin

text \<open>
  The configuration of \<open>src/src/lib.rs\<close>: samplers, the values read from the
  environment, the resource, the builder with its setters, and the choice of the TLS transport.
\<close>

section \<open>Features and environment\<close>

text \<open>The Cargo features the code is compiled under, and the environment variables.\<close>

record features =
  ft_grpc :: bool
  ft_http :: bool
  ft_grpc_mtls :: bool
  ft_profiling :: bool

text \<open>The crate does not compile without a transport, and \<open>grpc-mtls\<close> enables \<open>grpc\<close>.\<close>

definition features_ok :: "features \<Rightarrow> bool" where
  "features_ok ft \<longleftrightarrow> (ft_grpc ft \<or> ft_http ft) \<and> (ft_grpc_mtls ft \<longrightarrow> ft_grpc ft)"

type_synonym env_vars = "rstring \<Rightarrow> rstring option"

section \<open>Samplers\<close>

datatype trace_sampler = AlwaysOn | AlwaysOff | TraceIdRatio f64 | ParentBased trace_sampler

datatype sdk_sampler = SdkAlwaysOn | SdkAlwaysOff | SdkTraceIdRatioBased f64 | SdkParentBased sdk_sampler

datatype log_format = Pretty | Json

primrec into_sdk_sampler :: "trace_sampler \<Rightarrow> sdk_sampler" where
  "into_sdk_sampler AlwaysOn = SdkAlwaysOn"
| "into_sdk_sampler AlwaysOff = SdkAlwaysOff"
| "into_sdk_sampler (TraceIdRatio r) = SdkTraceIdRatioBased r"
| "into_sdk_sampler (ParentBased inner) = SdkParentBased (into_sdk_sampler inner)"

definition f64_one :: f64 where
  "f64_one = Fin False (2 ^ 52) (- 52)"

definition sampler_ratio :: "rstring option \<Rightarrow> f64" where
  "sampler_ratio arg = unwrap_or (parse_f64 (unwrap_or arg (lit ''1.0''))) f64_one"

definition sampler_from_env :: "env_vars \<Rightarrow> rstring + trace_sampler option" where
  "sampler_from_env env =
     (case env (lit ''OTEL_TRACES_SAMPLER'') of
        None \<Rightarrow> Inr None
      | Some name \<Rightarrow>
          let arg = env (lit ''OTEL_TRACES_SAMPLER_ARG'') in
          if name = lit ''always_on'' then Inr (Some AlwaysOn)
          else if name = lit ''always_off'' then Inr (Some AlwaysOff)
          else if name = lit ''traceidratio'' then Inr (Some (TraceIdRatio (sampler_ratio arg)))
          else if name = lit ''parentbased_always_on'' then Inr (Some (ParentBased AlwaysOn))
          else if name = lit ''parentbased_always_off'' then Inr (Some (ParentBased AlwaysOff))
          else if name = lit ''parentbased_traceidratio'' then
            Inr (Some (ParentBased (TraceIdRatio (sampler_ratio arg))))
          else Inl (lit ''OTEL_TRACES_SAMPLER: unrecognised sampler name '' @ 39 # name @ 39
                 # lit ''. Valid values: always_on, always_off, traceidratio, parentbased_always_on, parentbased_always_off, parentbased_traceidratio''))"

section \<open>Protocol, endpoint, timeout\<close>

datatype export_protocol = Grpc | HttpProtobuf

definition protocol_from_env :: "features \<Rightarrow> env_vars \<Rightarrow> export_protocol option" where
  "protocol_from_env ft env =
     (case env (lit ''OTEL_EXPORTER_OTLP_PROTOCOL'') of
        None \<Rightarrow> None
      | Some val \<Rightarrow>
          if ft_grpc ft \<and> trim val = lit ''grpc'' then Some Grpc
          else if ft_http ft \<and> trim val = lit ''http/protobuf'' then Some HttpProtobuf
          else None)"

definition timeout_from_env :: "env_vars \<Rightarrow> duration option" where
  "timeout_from_env env =
     map_option from_millis
       (Option.bind (env (lit ''OTEL_EXPORTER_OTLP_TIMEOUT'')) (\<lambda>ms. parse_u64 (trim ms)))"

definition resolve_endpoint :: "rstring option \<Rightarrow> rstring option \<Rightarrow> rstring \<Rightarrow> rstring" where
  "resolve_endpoint configured runtime_default fallback =
     unwrap_or (or_else configured runtime_default) fallback"

section \<open>The resource\<close>

text \<open>The attributes set on the SDK's resource builder, in order; the host may be unreadable.\<close>

datatype res_value = RStr rstring | RInt int

type_synonym resource = "(rstring \<times> res_value) list"

definition opt_attr :: "rstring \<Rightarrow> rstring option \<Rightarrow> resource" where
  "opt_attr k v = (case v of None \<Rightarrow> [] | Some s \<Rightarrow> [(k, RStr s)])"

definition build_resource_in ::
    "rstring option \<Rightarrow> int \<Rightarrow> rstring \<Rightarrow> rstring option \<Rightarrow> rstring option \<Rightarrow> rstring option \<Rightarrow> resource" where
  "build_resource_in hostname pid service_name namespace version environment =
     [(lit ''service.name'', RStr service_name), (lit ''host.name'', RStr (unwrap_or hostname [])),
      (lit ''process.pid'', RInt pid)]
     @ opt_attr (lit ''service.namespace'') namespace
     @ opt_attr (lit ''service.version'') version
     @ opt_attr (lit ''deployment.environment.name'') environment"

definition build_resource ::
    "rstring option \<Rightarrow> int \<Rightarrow> rstring \<Rightarrow> rstring option \<Rightarrow> rstring option \<Rightarrow> resource" where
  "build_resource hostname pid service_name version environment =
     build_resource_in hostname pid service_name None version environment"

section \<open>The builder\<close>

text \<open>Layers and meter-provider closures are opaque to the code: numbers, in registration order.\<close>

record builder =
  bd_service_name :: "rstring option"
  bd_service_version :: "rstring option"
  bd_service_namespace :: "rstring option"
  bd_deployment_environment :: "rstring option"
  bd_sampler :: "trace_sampler option"
  bd_metrics :: bool
  bd_logs :: bool
  bd_protocol :: "export_protocol option"
  bd_max_export_batch_size :: "nat option"
  bd_metric_export_interval :: "duration option"
  bd_export_timeout :: "duration option"
  bd_shutdown_timeout :: duration
  bd_log_filter :: "rstring option"
  bd_log_format :: log_format
  bd_extra_layers :: "nat list"
  bd_extra_metric_readers :: "nat list"
  bd_runtime_metrics :: bool
  bd_mtls :: "mtls_material option"
  bd_mtls_source :: "cert_source option"
  bd_collector_spiffe_id :: "rstring option"
  bd_propagated_span_fields :: "rstring list"
  bd_pyroscope_endpoint :: "rstring option"
  bd_default_endpoint :: "rstring option"

definition DEFAULT_SHUTDOWN_TIMEOUT :: duration where
  "DEFAULT_SHUTDOWN_TIMEOUT = from_secs 5"

definition telemetry_from_env :: builder where
  "telemetry_from_env =
     \<lparr>bd_service_name = None, bd_service_version = None, bd_service_namespace = None,
      bd_deployment_environment = None, bd_sampler = None, bd_metrics = True, bd_logs = False,
      bd_protocol = None, bd_max_export_batch_size = None, bd_metric_export_interval = None,
      bd_export_timeout = None, bd_shutdown_timeout = DEFAULT_SHUTDOWN_TIMEOUT, bd_log_filter = None,
      bd_log_format = Pretty, bd_extra_layers = [], bd_extra_metric_readers = [], bd_runtime_metrics = True,
      bd_mtls = None, bd_mtls_source = None, bd_collector_spiffe_id = None,
      bd_propagated_span_fields = PROPAGATED_SPAN_FIELDS, bd_pyroscope_endpoint = None,
      bd_default_endpoint = None\<rparr>"

definition telemetry_builder :: "rstring \<Rightarrow> builder" where
  "telemetry_builder service_name = telemetry_from_env\<lparr>bd_service_name := Some service_name\<rparr>"

text \<open>The setters, each by what it changes.\<close>

definition with_log_filter :: "rstring \<Rightarrow> builder \<Rightarrow> builder" where
  "with_log_filter directive b = b\<lparr>bd_log_filter := Some directive\<rparr>"

definition with_log_format :: "log_format \<Rightarrow> builder \<Rightarrow> builder" where
  "with_log_format format b = b\<lparr>bd_log_format := format\<rparr>"

definition with_version :: "rstring \<Rightarrow> builder \<Rightarrow> builder" where
  "with_version version b = b\<lparr>bd_service_version := Some version\<rparr>"

definition with_service_namespace :: "rstring \<Rightarrow> builder \<Rightarrow> builder" where
  "with_service_namespace namespace b =
     b\<lparr>bd_service_namespace := filter_opt (\<lambda>n. n \<noteq> []) (Some namespace)\<rparr>"

definition with_environment :: "rstring \<Rightarrow> builder \<Rightarrow> builder" where
  "with_environment environment b = b\<lparr>bd_deployment_environment := Some environment\<rparr>"

definition with_mtls :: "mtls_material \<Rightarrow> builder \<Rightarrow> builder" where
  "with_mtls material b = b\<lparr>bd_mtls := Some material, bd_mtls_source := None, bd_protocol := Some Grpc\<rparr>"

definition with_mtls_source :: "cert_source \<Rightarrow> builder \<Rightarrow> builder" where
  "with_mtls_source source b = b\<lparr>bd_mtls_source := Some source, bd_mtls := None, bd_protocol := Some Grpc\<rparr>"

definition with_collector_spiffe_id :: "rstring \<Rightarrow> builder \<Rightarrow> builder" where
  "with_collector_spiffe_id ident b = b\<lparr>bd_collector_spiffe_id := Some ident\<rparr>"

definition with_sampler :: "trace_sampler \<Rightarrow> builder \<Rightarrow> builder" where
  "with_sampler s b = b\<lparr>bd_sampler := Some s\<rparr>"

definition with_metrics :: "bool \<Rightarrow> builder \<Rightarrow> builder" where
  "with_metrics enabled b = b\<lparr>bd_metrics := enabled\<rparr>"

definition with_runtime_metrics :: "bool \<Rightarrow> builder \<Rightarrow> builder" where
  "with_runtime_metrics enabled b = b\<lparr>bd_runtime_metrics := enabled\<rparr>"

definition with_default_endpoint :: "rstring \<Rightarrow> builder \<Rightarrow> builder" where
  "with_default_endpoint endpoint b = b\<lparr>bd_default_endpoint := Some endpoint\<rparr>"

definition with_protocol :: "export_protocol \<Rightarrow> builder \<Rightarrow> builder" where
  "with_protocol protocol b = b\<lparr>bd_protocol := Some protocol\<rparr>"

definition with_max_export_batch_size :: "nat \<Rightarrow> builder \<Rightarrow> builder" where
  "with_max_export_batch_size n b = b\<lparr>bd_max_export_batch_size := Some n\<rparr>"

definition with_metric_export_interval :: "duration \<Rightarrow> builder \<Rightarrow> builder" where
  "with_metric_export_interval interval b = b\<lparr>bd_metric_export_interval := Some interval\<rparr>"

definition with_logs :: "bool \<Rightarrow> builder \<Rightarrow> builder" where
  "with_logs enabled b = b\<lparr>bd_logs := enabled\<rparr>"

definition with_propagated_span_fields :: "rstring list \<Rightarrow> builder \<Rightarrow> builder" where
  "with_propagated_span_fields fds b = b\<lparr>bd_propagated_span_fields := fds\<rparr>"

definition with_export_timeout :: "duration \<Rightarrow> builder \<Rightarrow> builder" where
  "with_export_timeout timeout b = b\<lparr>bd_export_timeout := Some timeout\<rparr>"

definition with_shutdown_timeout :: "duration \<Rightarrow> builder \<Rightarrow> builder" where
  "with_shutdown_timeout timeout b = b\<lparr>bd_shutdown_timeout := timeout\<rparr>"

definition with_profiling :: "rstring \<Rightarrow> builder \<Rightarrow> builder" where
  "with_profiling endpoint b = b\<lparr>bd_pyroscope_endpoint := Some endpoint\<rparr>"

definition with_meter_provider_setup :: "nat \<Rightarrow> builder \<Rightarrow> builder" where
  "with_meter_provider_setup setup b = b\<lparr>bd_extra_metric_readers := bd_extra_metric_readers b @ [setup]\<rparr>"

definition with_layer :: "nat \<Rightarrow> builder \<Rightarrow> builder" where
  "with_layer layer b = b\<lparr>bd_extra_layers := bd_extra_layers b @ [layer]\<rparr>"

section \<open>The TLS transport\<close>

datatype mtls_transport = Snapshot mtls_material | Live channel

definition resolve_transport ::
    "(rstring \<Rightarrow> rstring + uri) \<Rightarrow> (rstring \<Rightarrow> rstring + unit) \<Rightarrow> mtls_material option \<Rightarrow> cert_source option
       \<Rightarrow> rstring \<Rightarrow> duration option \<Rightarrow> rstring option \<Rightarrow> rstring + mtls_transport option" where
  "resolve_transport parse_uri from_shared material source endpoint timeout expected_id =
     (let source = (case (source, material, expected_id) of
            (Some s, _, _) \<Rightarrow> Some s
          | (None, Some m, Some _) \<Rightarrow> Some (static_cert_source m)
          | _ \<Rightarrow> None)
      in case (source, material) of
           (Some s, _) \<Rightarrow>
             bind_res (make_channel parse_uri from_shared endpoint s timeout expected_id) (\<lambda>ch. Inr (Some (Live ch)))
         | (None, Some m) \<Rightarrow> Inr (Some (Snapshot m))
         | (None, None) \<Rightarrow> Inr None)"

section \<open>Exporters\<close>

datatype otel_signal = Traces | Metrics | Logs

text \<open>The TLS an exporter's builder is given: \<open>build_tls_config\<close> or the shared channel.\<close>

record client_tls =
  ct_ca :: bytes
  ct_cert_chain :: bytes
  ct_key :: bytes

datatype exporter_tls = TlsConfig client_tls | TlsChannel channel

record exporter_config =
  xc_signal :: otel_signal
  xc_protocol :: export_protocol
  xc_endpoint :: rstring
  xc_timeout :: "duration option"
  xc_tls :: "exporter_tls option"

definition build_tls_config :: "mtls_material \<Rightarrow> client_tls" where
  "build_tls_config m = \<lparr>ct_ca = trust_bundle_pem m, ct_cert_chain = client_cert_chain_pem m, ct_key = client_key_pem m\<rparr>"

definition apply_transport :: "mtls_transport \<Rightarrow> exporter_config \<Rightarrow> exporter_config" where
  "apply_transport t xc =
     (case t of
        Snapshot m \<Rightarrow> xc\<lparr>xc_tls := Some (TlsConfig (build_tls_config m))\<rparr>
      | Live ch \<Rightarrow> xc\<lparr>xc_tls := Some (TlsChannel ch)\<rparr>)"

text \<open>The three functions \<open>build_span_exporter\<close>, \<open>build_metric_exporter\<close> and
  \<open>build_log_exporter\<close> are the same code for three signals. \<open>build\<close> is the
  library's builder: an error message when it refuses the configuration.\<close>

definition exporter_for ::
    "otel_signal \<Rightarrow> export_protocol \<Rightarrow> rstring \<Rightarrow> duration option \<Rightarrow> mtls_transport option \<Rightarrow> exporter_config" where
  "exporter_for sig protocol endpoint timeout mtls =
     (case protocol of
        Grpc \<Rightarrow>
          let b = \<lparr>xc_signal = sig, xc_protocol = Grpc, xc_endpoint = endpoint, xc_timeout = timeout, xc_tls = None\<rparr>
          in (case mtls of Some m \<Rightarrow> apply_transport m b | None \<Rightarrow> b)
      | HttpProtobuf \<Rightarrow>
          \<lparr>xc_signal = sig, xc_protocol = HttpProtobuf, xc_endpoint = endpoint, xc_timeout = timeout, xc_tls = None\<rparr>)"

definition build_exporter ::
    "(exporter_config \<Rightarrow> rstring option) \<Rightarrow> otel_signal \<Rightarrow> export_protocol \<Rightarrow> rstring \<Rightarrow> duration option
       \<Rightarrow> mtls_transport option \<Rightarrow> rstring + exporter_config" where
  "build_exporter build sig protocol endpoint timeout mtls =
     (let xc = exporter_for sig protocol endpoint timeout mtls
      in case build xc of None \<Rightarrow> Inr xc | Some e \<Rightarrow> Inl e)"

definition build_span_exporter where "build_span_exporter build = build_exporter build Traces"

definition build_metric_exporter where "build_metric_exporter build = build_exporter build Metrics"

definition build_log_exporter where "build_log_exporter build = build_exporter build Logs"

end
