(* ===== verification/Profiling.thy ===== *)
theory Profiling
  imports Tracing Boot
begin

text \<open>
  The profiling bridge (\<open>src/src/profiling.rs\<close>): the check of its endpoint, the identity
  of the profiles, and the start of the two agents. The URL parser, the \<open>pyroscope\<close>
  agents and jemalloc's control are the parameter \<open>env\<close>; an error is its message.
\<close>

section \<open>The endpoint\<close>

record url =
  url_username :: rstring
  url_password :: "rstring option"
  url_host :: "rstring option"

definition loopback_hosts :: "rstring list" where
  "loopback_hosts = [lit ''127.0.0.1'', lit ''::1'', lit ''[::1]'', lit ''localhost'']"

definition validate_pyroscope_endpoint :: "(rstring \<Rightarrow> rstring + url) \<Rightarrow> rstring \<Rightarrow> rstring + unit" where
  "validate_pyroscope_endpoint parse_url endpoint =
     (if starts_with endpoint (lit ''unix://'') then Inr ()
      else if starts_with endpoint (lit ''http://'') \<or> starts_with endpoint (lit ''https://'') then
        bind_res (parse_url endpoint) (\<lambda>u.
        if url_username u \<noteq> [] \<or> url_password u \<noteq> None then
          Inl (lit ''pyroscope endpoint must not contain userinfo; got: '' @ endpoint
               @ lit '' (ADR platform/0203 AC1)'')
        else if unwrap_or (url_host u) [] \<in> set loopback_hosts then Inr ()
        else Inl (lit ''pyroscope endpoint must target loopback (127.0.0.1, ::1, localhost, or unix socket); got: ''
                  @ endpoint @ lit '' (ADR platform/0203 AC1)''))
      else Inl (lit ''pyroscope endpoint must be http://, https://, or unix://; got: '' @ endpoint))"

section \<open>Identity\<close>

record profiling_identity =
  pi_host_name :: "rstring option"
  pi_deployment_environment :: "rstring option"
  pi_service_version :: "rstring option"

definition tag_pair :: "rstring \<Rightarrow> rstring option \<Rightarrow> (rstring \<times> rstring) list" where
  "tag_pair k v = (case filter_opt (\<lambda>s. s \<noteq> []) v of Some s \<Rightarrow> [(k, s)] | None \<Rightarrow> [])"

definition tag_pairs :: "profiling_identity \<Rightarrow> (rstring \<times> rstring) list" where
  "tag_pairs pi' = tag_pair (lit ''host_name'') (pi_host_name pi')
     @ tag_pair (lit ''deployment_environment'') (pi_deployment_environment pi')
     @ tag_pair (lit ''service_version'') (pi_service_version pi')"

section \<open>Agents\<close>

datatype backend = Pprof | Jemalloc

record agent =
  ag_endpoint :: rstring
  ag_service :: rstring
  ag_sample_rate :: nat
  ag_backend :: backend
  ag_tags :: "(rstring \<times> rstring) list"

text \<open>How building an agent ends, and the state of jemalloc's profiling control.\<close>

datatype build_result = Built | BuildError rstring | BuildPanic

datatype prof_ctl = CtlPanics | CtlAbsent | CtlHeld | CtlFree bool "rstring + unit"

record prof_env =
  pe_parse_url :: "rstring \<Rightarrow> rstring + url"
  pe_build :: "agent \<Rightarrow> build_result"
  pe_start :: "agent \<Rightarrow> rstring + unit"
  pe_ctl :: prof_ctl

datatype sampling_activation = Activated | Unavailable rstring | Panicked

definition activate_jemalloc_sampling :: "prof_ctl \<Rightarrow> sampling_activation" where
  "activate_jemalloc_sampling ctl =
     (case ctl of
        CtlPanics \<Rightarrow> Panicked
      | CtlAbsent \<Rightarrow> Unavailable (lit ''jemalloc profiling not compiled into this binary'')
      | CtlHeld \<Rightarrow> Unavailable (lit ''jemalloc profiling control is held elsewhere; sampling not activated'')
      | CtlFree activated act \<Rightarrow>
          if activated then Activated
          else (case act of Inr _ \<Rightarrow> Activated | Inl e \<Rightarrow> Unavailable e))"

text \<open>A running agent or nothing, with the events logged; errors are events here.\<close>

definition PROFILING_TARGET :: rstring where
  "PROFILING_TARGET = lit ''otel_bootstrap::profiling''"

definition no_heap :: "rstring \<Rightarrow> rstring \<Rightarrow> effect list" where
  "no_heap advice e =
     [Event WARN PROFILING_TARGET (lit ''jemalloc heap profiling unavailable '' @ 8212 # lit '' continuing without it; '' @ advice)
        [display_field (lit ''error'') e]]"

definition not_jemalloc :: "effect list" where
  "not_jemalloc =
     [Event WARN PROFILING_TARGET (lit ''jemalloc heap profiling unavailable '' @ 8212
        # lit '' this process is not using jemalloc as its global allocator; continuing without it'') []]"

definition start_memory_agent ::
    "prof_env \<Rightarrow> rstring \<Rightarrow> rstring \<Rightarrow> (rstring \<times> rstring) list \<Rightarrow> effect list \<times> (rstring + agent option)" where
  "start_memory_agent env service endpoint tags =
     (case activate_jemalloc_sampling (pe_ctl env) of
        Unavailable e \<Rightarrow>
          (no_heap (lit ''set _RJEM_MALLOC_CONF=prof:true,prof_active:false and use jemalloc as the global allocator'') e,
           Inr None)
      | Panicked \<Rightarrow> (not_jemalloc, Inr None)
      | Activated \<Rightarrow>
          let a = \<lparr>ag_endpoint = endpoint, ag_service = service, ag_sample_rate = 100,
                   ag_backend = Jemalloc, ag_tags = tags\<rparr>
          in (case pe_build env a of
                BuildError e \<Rightarrow>
                  (no_heap (lit ''check the global allocator is jemalloc and prof:true,prof_active:true is set'') e,
                   Inr None)
              | BuildPanic \<Rightarrow> (not_jemalloc, Inr None)
              | Built \<Rightarrow>
                  (case pe_start env a of
                     Inr _ \<Rightarrow> ([Event INFO PROFILING_TARGET (lit ''jemalloc heap profiling started'') []], Inr (Some a))
                   | Inl e \<Rightarrow>
                       ([Event WARN PROFILING_TARGET (lit ''jemalloc heap profiling failed to start '' @ 8212 # lit '' continuing without it'')
                           [display_field (lit ''error'') e]], Inr None))))"

section \<open>The bridge\<close>

record prof_features =
  pf_bridge :: bool
  pf_jemalloc :: bool

record profiling_handle =
  pr_agent :: "agent option"
  pr_memory_agent :: "agent option"

text \<open>
  \<open>start_pyroscope_bridge\<close>: \<open>started\<close> is the process-wide \<open>PROFILING_STARTED\<close>.
  The second definition of the source, without the bridge feature, is the first branch. A panic
  of the CPU agent's builder is not caught by the code; it is an error here.
\<close>

definition start_pyroscope_bridge ::
    "prof_features \<Rightarrow> prof_env \<Rightarrow> bool \<Rightarrow> rstring \<Rightarrow> rstring \<Rightarrow> profiling_identity
       \<Rightarrow> bool \<times> effect list \<times> (rstring + profiling_handle option)" where
  "start_pyroscope_bridge ft env started service endpoint identity =
     (if \<not> pf_bridge ft then (started, [], Inr None)
      else case validate_pyroscope_endpoint (pe_parse_url env) endpoint of
        Inl e \<Rightarrow> (started, [], Inl e)
      | Inr _ \<Rightarrow>
          if started then (started, [], Inr None)
          else
            let tags = tag_pairs identity;
                a = \<lparr>ag_endpoint = endpoint, ag_service = service, ag_sample_rate = 100,
                     ag_backend = Pprof, ag_tags = tags\<rparr>
            in (case pe_build env a of
                  BuildError e \<Rightarrow> (True, [], Inl e)
                | BuildPanic \<Rightarrow> (True, [], Inl (lit ''panic''))
                | Built \<Rightarrow>
                    (case pe_start env a of
                       Inl e \<Rightarrow> (True, [], Inl e)
                     | Inr _ \<Rightarrow>
                         if pf_jemalloc ft then
                           let (eff, mem) = start_memory_agent env service endpoint tags
                           in (True, eff, bind_res mem (\<lambda>m.
                                Inr (Some \<lparr>pr_agent = Some a, pr_memory_agent = m\<rparr>)))
                         else (True, [], Inr (Some \<lparr>pr_agent = Some a, pr_memory_agent = None\<rparr>)))))"

text \<open>Dropping the handle takes and stops each agent, so a second drop stops none.\<close>

definition profiling_drop :: "profiling_handle \<Rightarrow> profiling_handle \<times> agent list" where
  "profiling_drop h =
     (\<lparr>pr_agent = None, pr_memory_agent = None\<rparr>,
      (case pr_agent h of Some a \<Rightarrow> [a] | None \<Rightarrow> [])
      @ (case pr_memory_agent h of Some a \<Rightarrow> [a] | None \<Rightarrow> []))"

section \<open>Facts\<close>

definition on_loopback :: "(rstring \<Rightarrow> rstring + url) \<Rightarrow> rstring \<Rightarrow> bool" where
  "on_loopback parse_url endpoint \<longleftrightarrow>
     starts_with endpoint (lit ''unix://'')
     \<or> (\<exists>u. parse_url endpoint = Inr u \<and> url_username u = [] \<and> url_password u = None
          \<and> (\<exists>h\<in>set loopback_hosts. url_host u = Some h))"

lemma validate_ok:
  "validate_pyroscope_endpoint parse_url endpoint = Inr () \<Longrightarrow> on_loopback parse_url endpoint"
  by (cases "parse_url endpoint"; cases "url_host (projr (parse_url endpoint))")
     (auto simp: validate_pyroscope_endpoint_def on_loopback_def loopback_hosts_def split: if_splits)

definition handle_agents :: "profiling_handle \<Rightarrow> agent list" where
  "handle_agents h = snd (profiling_drop h)"

lemma memory_agent_ok:
  "\<exists>m. snd (start_memory_agent env s e tags) = Inr m
     \<and> (\<forall>a. m = Some a \<longrightarrow> ag_endpoint a = e \<and> ag_service a = s \<and> ag_tags a = tags)"
  by (auto simp: start_memory_agent_def Let_def split: sampling_activation.split build_result.split sum.split)

text \<open>A start that gives a handle was the first, on loopback, and its agents are the caller's.\<close>

lemma start_handle:
  assumes "start_pyroscope_bridge ft env started service endpoint identity = (started', eff, Inr (Some h))"
  shows "\<not> started \<and> started' \<and> on_loopback (pe_parse_url env) endpoint
    \<and> (\<forall>a\<in>set (handle_agents h). ag_endpoint a = endpoint \<and> ag_service a = service \<and> ag_tags a = tag_pairs identity)"
proof -
  obtain m where "snd (start_memory_agent env service endpoint (tag_pairs identity)) = Inr m"
      "\<forall>a. m = Some a \<longrightarrow> ag_endpoint a = endpoint \<and> ag_service a = service \<and> ag_tags a = tag_pairs identity"
    using memory_agent_ok by blast
  with assms show ?thesis
    by (auto simp: start_pyroscope_bridge_def Let_def case_prod_beta handle_agents_def profiling_drop_def
        split: if_splits sum.splits build_result.splits option.splits dest: validate_ok [where parse_url = "pe_parse_url env"])
qed

lemma start_flag: "started \<Longrightarrow> fst (start_pyroscope_bridge ft env started service endpoint identity)"
  by (auto simp: start_pyroscope_bridge_def Let_def split: sum.split)

text \<open>A process that asks for profiling any number of times.\<close>

fun starts ::
    "prof_features \<Rightarrow> prof_env \<Rightarrow> bool \<Rightarrow> (rstring \<times> rstring \<times> profiling_identity) list
       \<Rightarrow> (rstring + profiling_handle option) list" where
  "starts ft env started [] = []"
| "starts ft env started ((service, endpoint, identity) # cs) =
     (let (started', eff, r) = start_pyroscope_bridge ft env started service endpoint identity
      in r # starts ft env started' cs)"

fun started_handles :: "(rstring + profiling_handle option) list \<Rightarrow> profiling_handle list" where
  "started_handles [] = []"
| "started_handles (Inr (Some h) # rs) = h # started_handles rs"
| "started_handles (_ # rs) = started_handles rs"

lemma starts_after: "started \<Longrightarrow> started_handles (starts ft env started cs) = []"
proof (induction ft env started cs rule: starts.induct)
  case (2 ft env started service endpoint identity cs)
  obtain st eff r where s: "start_pyroscope_bridge ft env started service endpoint identity = (st, eff, r)"
    by (cases "start_pyroscope_bridge ft env started service endpoint identity")
  have "st" using start_flag [OF 2(2), of ft env service endpoint identity] s by simp
  moreover have "\<nexists>h. r = Inr (Some h)" using start_handle s 2(2) by blast
  ultimately show ?case
    using 2(1) [OF s [symmetric] refl] s by (cases r rule: sum.exhaust) (auto split: option.splits intro: option.exhaust)
qed simp

section \<open>Properties\<close>

definition toy_prof :: prof_env where
  "toy_prof = \<lparr>pe_parse_url = (\<lambda>_. Inr \<lparr>url_username = [], url_password = None, url_host = Some (lit ''localhost'')\<rparr>),
     pe_build = (\<lambda>_. Built), pe_start = (\<lambda>_. Inr ()), pe_ctl = CtlPanics\<rparr>"

definition bridge_only :: prof_features where
  "bridge_only = \<lparr>pf_bridge = True, pf_jemalloc = False\<rparr>"

definition no_identity :: profiling_identity where
  "no_identity = \<lparr>pi_host_name = None, pi_deployment_environment = None, pi_service_version = None\<rparr>"

text \<open>
  C35. Profiles stay on the pod: in a process that starts profiling any number of times with any
  endpoints, at most one start gives agents, and every agent it gives uploads to an endpoint
  that is a Unix socket or whose URL has a loopback host and no user information, under the
  tags of the identity it was started with, none of them empty.
\<close>

theorem profiles_stay_on_loopback:
  "length (started_handles (starts ft env started cs)) \<le> 1
   \<and> (\<forall>h\<in>set (started_handles (starts ft env started cs)). \<exists>(service, endpoint, identity)\<in>set cs.
        \<forall>a\<in>set (snd (profiling_drop h)). ag_endpoint a = endpoint \<and> ag_tags a = tag_pairs identity
          \<and> (\<forall>(k, v)\<in>set (ag_tags a). v \<noteq> [])
          \<and> (starts_with endpoint (lit ''unix://'')
             \<or> (\<exists>u. pe_parse_url env endpoint = Inr u \<and> url_username u = [] \<and> url_password u = None
                  \<and> (\<exists>h\<in>set loopback_hosts. url_host u = Some h))))"
proof (induction ft env started cs rule: starts.induct)
  case (2 ft env started service endpoint identity cs)
  obtain st eff r where s: "start_pyroscope_bridge ft env started service endpoint identity = (st, eff, r)"
    by (cases "start_pyroscope_bridge ft env started service endpoint identity")
  note IH = 2 [OF s [symmetric] refl]
  show ?case
  proof (cases "\<exists>h. r = Inr (Some h)")
    case True
    then obtain h where h: "r = Inr (Some h)" by blast
    note sh = start_handle [OF s [unfolded h]]
    have "\<forall>(k, v)\<in>set (tag_pairs identity). v \<noteq> []"
      by (auto simp: tag_pairs_def tag_pair_def filter_opt_def split: option.splits if_splits)
    moreover have "started_handles (starts ft env st cs) = []"
      using sh starts_after by blast
    ultimately show ?thesis
      using s h sh by (simp add: handle_agents_def on_loopback_def)
  next
    case False
    then have "started_handles (starts ft env started ((service, endpoint, identity) # cs))
        = started_handles (starts ft env st cs)"
      using s by (cases r) (auto intro: option.exhaust)
    with IH show ?thesis by simp
  qed
qed simp

theorem profiles_stay_on_loopback_witness:
  "length (started_handles (starts bridge_only toy_prof False
     [(lit ''orders'', lit ''http://localhost:4040'', no_identity)])) \<le> 1"
  using profiles_stay_on_loopback [of bridge_only toy_prof False "[(lit ''orders'', lit ''http://localhost:4040'', no_identity)]"]
  by blast

text \<open>
  Heap profiling never fails a start: whatever the state of jemalloc and whatever its agent
  does, the start returns the same error or the same CPU agent as without heap profiling, and a
  panic or an error there only leaves the heap agent out.
\<close>

lemma heap_profiling_never_fails_start:
  "case snd (snd (start_pyroscope_bridge (ft\<lparr>pf_jemalloc := False\<rparr>) env started service endpoint identity)) of
     Inl e \<Rightarrow> snd (snd (start_pyroscope_bridge (ft\<lparr>pf_jemalloc := True\<rparr>) env started service endpoint identity)) = Inl e
   | Inr None \<Rightarrow> snd (snd (start_pyroscope_bridge (ft\<lparr>pf_jemalloc := True\<rparr>) env started service endpoint identity)) = Inr None
   | Inr (Some h) \<Rightarrow> \<exists>m. snd (snd (start_pyroscope_bridge (ft\<lparr>pf_jemalloc := True\<rparr>) env started service endpoint identity))
       = Inr (Some (h\<lparr>pr_memory_agent := m\<rparr>))
       \<and> (pe_ctl env = CtlPanics \<or> pe_ctl env = CtlAbsent \<or> pe_ctl env = CtlHeld \<longrightarrow> m = None)"
proof -
  obtain m where m: "snd (start_memory_agent env service endpoint (tag_pairs identity)) = Inr m"
    using memory_agent_ok by blast
  have "pe_ctl env = CtlPanics \<or> pe_ctl env = CtlAbsent \<or> pe_ctl env = CtlHeld \<longrightarrow> m = None"
    using m by (auto simp: start_memory_agent_def activate_jemalloc_sampling_def)
  with m show ?thesis
    by (auto simp: start_pyroscope_bridge_def Let_def case_prod_beta split: sum.split build_result.split)
qed

lemma heap_profiling_never_fails_start_witness:
  "snd (snd (start_pyroscope_bridge (bridge_only\<lparr>pf_jemalloc := True\<rparr>) toy_prof False (lit ''orders'')
     (lit ''unix:///run/p.sock'') no_identity)) \<noteq> Inr None"
proof -
  have "\<exists>h. snd (snd (start_pyroscope_bridge (bridge_only\<lparr>pf_jemalloc := False\<rparr>) toy_prof False (lit ''orders'')
     (lit ''unix:///run/p.sock'') no_identity)) = Inr (Some h)"
    by (simp add: start_pyroscope_bridge_def bridge_only_def validate_pyroscope_endpoint_def toy_prof_def lit_def Let_def)
  with heap_profiling_never_fails_start [of bridge_only toy_prof False "lit ''orders''" "lit ''unix:///run/p.sock''" no_identity]
  show ?thesis by auto
qed

end
