(* ===== verification/TelemetryInit.thy ===== *)
theory TelemetryInit
  imports Config BootProps ExportRetry Profiling
begin

text \<open>
  \<open>TelemetryBuilder::init\<close> (\<open>src/src/lib.rs\<close>) as the sequence of what it does to the
  process, error branches included, the convenience functions around it, the testing mode of
  \<open>src/src/testing.rs\<close>, and the handles it returns with their shutdown and drop.
\<close>

section \<open>Surroundings\<close>

text \<open>
  What the libraries and the operating system answer; an error is its message. Some of the libraries'
  constructors need an async runtime and panic where there is none: which ones is theirs to say.
\<close>

record externals =
  xe_filter :: "rstring \<Rightarrow> rstring option"
  xe_build :: "exporter_config \<Rightarrow> rstring option"
  xe_parse_uri :: "rstring \<Rightarrow> rstring + uri"
  xe_from_shared :: "rstring \<Rightarrow> rstring + unit"
  xe_hostname :: "rstring option"
  xe_pid :: int
  xe_in_runtime :: bool
  xe_exporter_needs_runtime :: "exporter_config \<Rightarrow> bool"
  xe_channel_needs_runtime :: bool
  xe_subscriber_error :: rstring
  xe_prof_features :: prof_features
  xe_prof :: prof_env

text \<open>The process-wide state the code touches: profiling, the subscriber, the boot timeline.\<close>

record globals =
  gl_profiling_started :: bool
  gl_subscriber_set :: bool
  gl_timeline :: timeline

section \<open>Providers, layers, effects\<close>

text \<open>
  A sampler of \<open>None\<close> is the SDK's default, an exporter of \<open>None\<close> the in-memory one
  of the testing mode, which is not wrapped for retrying.
\<close>

record tracer_provider =
  tp_number :: nat
  tp_resource :: resource
  tp_sampler :: "sdk_sampler option"
  tp_exporter :: "exporter_config option"
  tp_retry :: "retry option"
  tp_batch_size :: "nat option"

record meter_provider =
  mp_resource :: resource
  mp_exporter :: "exporter_config option"
  mp_interval :: "duration option"
  mp_installers :: "nat list"

record logger_provider =
  lp_resource :: resource
  lp_exporter :: exporter_config
  lp_retry :: retry

datatype layer =
    ExtraLayers "nat list"
  | FailureBackoff
  | FilterLayer "rstring option"
  | FmtLayer log_format
  | OtelLayer
  | ProfilingTag
  | LogBridge "rstring list"

datatype propagator = TraceContext | Baggage

datatype init_effect =
    SetTracerProvider tracer_provider
  | SetPropagator "propagator list"
  | SetMeterProvider meter_provider
  | InstallRuntimeMetrics
  | SetSubscriber "layer list"
  | StderrLine rstring
  | Logged effect
  | BootEffect effect

record handles =
  hd_tracer :: tracer_provider
  hd_meter :: "meter_provider option"
  hd_logger :: "logger_provider option"
  hd_shutdown_timeout :: duration
  hd_boot_owner :: bool
  hd_profiling :: "profiling_handle option"

section \<open>Resolving the settings\<close>

record settings =
  st_protocol :: export_protocol
  st_endpoint :: rstring
  st_timeout :: "duration option"
  st_service_name :: rstring
  st_resource :: resource
  st_sampler :: trace_sampler
  st_transport :: "mtls_transport option"

definition default_protocol :: "features \<Rightarrow> export_protocol" where
  "default_protocol ft = (if ft_grpc ft then Grpc else HttpProtobuf)"

definition local_endpoint :: "export_protocol \<Rightarrow> rstring" where
  "local_endpoint p = (case p of Grpc \<Rightarrow> lit ''http://localhost:4317'' | HttpProtobuf \<Rightarrow> lit ''http://localhost:4318'')"

text \<open>The first part of \<open>init\<close>, which has no effect on the process.\<close>

definition resolve_settings :: "features \<Rightarrow> externals \<Rightarrow> env_vars \<Rightarrow> builder \<Rightarrow> rstring + settings" where
  "resolve_settings ft ext env b =
     (case Option.bind (bd_log_filter b) (xe_filter ext) of
        Some e \<Rightarrow> Inl e
      | None \<Rightarrow>
          if bd_metric_export_interval b = Some 0 then Inl (lit ''metric_export_interval must be greater than zero'')
          else
            let protocol = unwrap_or (or_else (bd_protocol b) (protocol_from_env ft env)) (default_protocol ft);
                endpoint = resolve_endpoint (env (lit ''OTEL_EXPORTER_OTLP_ENDPOINT'')) (bd_default_endpoint b)
                  (local_endpoint protocol);
                timeout = or_else (bd_export_timeout b) (timeout_from_env env);
                service_name = unwrap_or (bd_service_name b)
                  (unwrap_or (env (lit ''OTEL_SERVICE_NAME'')) (lit ''unknown_service''));
                res = build_resource_in (xe_hostname ext) (xe_pid ext) service_name
                  (bd_service_namespace b) (bd_service_version b) (bd_deployment_environment b)
            in bind_res (case bd_sampler b of
                    Some s \<Rightarrow> Inr s
                  | None \<Rightarrow> bind_res (sampler_from_env env) (\<lambda>s. Inr (unwrap_or s AlwaysOn))) (\<lambda>sampler.
               bind_res (if ft_grpc_mtls ft
                    then resolve_transport (xe_parse_uri ext) (xe_from_shared ext) (bd_mtls b) (bd_mtls_source b)
                           endpoint timeout (bd_collector_spiffe_id b)
                    else Inr None) (\<lambda>transport.
               Inr \<lparr>st_protocol = protocol, st_endpoint = endpoint, st_timeout = timeout,
                    st_service_name = service_name, st_resource = res, st_sampler = sampler,
                    st_transport = transport\<rparr>)))"

section \<open>Installing\<close>

text \<open>The optional meter: nothing when metrics are off.\<close>

definition init_meter ::
    "externals \<Rightarrow> builder \<Rightarrow> settings \<Rightarrow> init_effect list \<times> (rstring + meter_provider option)" where
  "init_meter ext b st =
     (if bd_metrics b then
        case build_metric_exporter (xe_build ext) (st_protocol st) (st_endpoint st) (st_timeout st) (st_transport st) of
          Inl e \<Rightarrow> ([], Inl e)
        | Inr xc \<Rightarrow>
            let mp = \<lparr>mp_resource = st_resource st, mp_exporter = Some xc,
                      mp_interval = bd_metric_export_interval b, mp_installers = bd_extra_metric_readers b\<rparr>
            in (SetMeterProvider mp # (if bd_runtime_metrics b then [InstallRuntimeMetrics] else []), Inr (Some mp))
      else ([], Inr None))"

definition init_logger :: "externals \<Rightarrow> builder \<Rightarrow> settings \<Rightarrow> rstring + logger_provider option" where
  "init_logger ext b st =
     (if bd_logs b then
        bind_res (build_log_exporter (xe_build ext) (st_protocol st) (st_endpoint st) (st_timeout st) (st_transport st))
          (\<lambda>xc. Inr (Some \<lparr>lp_resource = st_resource st, lp_exporter = xc, lp_retry = retry_new (xe_in_runtime ext)\<rparr>))
      else Inr None)"

definition init_profiling ::
    "features \<Rightarrow> externals \<Rightarrow> builder \<Rightarrow> settings \<Rightarrow> bool
       \<Rightarrow> bool \<times> effect list \<times> (rstring + profiling_handle option)" where
  "init_profiling ft ext b st started =
     (if \<not> ft_profiling ft then (started, [], Inr None)
      else case bd_pyroscope_endpoint b of
          None \<Rightarrow> (started, [], Inr None)
        | Some endpoint \<Rightarrow>
            start_pyroscope_bridge (xe_prof_features ext) (xe_prof ext) started (st_service_name st) endpoint
              \<lparr>pi_host_name = filter_opt (\<lambda>h. h \<noteq> []) (xe_hostname ext),
               pi_deployment_environment = bd_deployment_environment b,
               pi_service_version = bd_service_version b\<rparr>)"

definition subscriber_layers :: "features \<Rightarrow> externals \<Rightarrow> builder \<Rightarrow> logger_provider option \<Rightarrow> layer list" where
  "subscriber_layers ft ext b lp =
     (if bd_extra_layers b = [] then [] else [ExtraLayers (bd_extra_layers b)])
     @ [FailureBackoff, FilterLayer (bd_log_filter b), FmtLayer (bd_log_format b), OtelLayer]
     @ (if ft_profiling ft \<and> pf_bridge (xe_prof_features ext) then [ProfilingTag] else [])
     @ (if lp \<noteq> None then [LogBridge (bd_propagated_span_fields b)] else [])"

definition install_subscriber ::
    "features \<Rightarrow> externals \<Rightarrow> builder \<Rightarrow> logger_provider option \<Rightarrow> bool \<Rightarrow> bool \<times> init_effect list" where
  "install_subscriber ft ext b lp already =
     (if already then
        (True, [StderrLine (lit ''otel-bootstrap: global tracing subscriber already installed '' @ 8212 # lit '' OTLP ''
            @ (if lp \<noteq> None then lit ''log records'' else lit ''telemetry'')
            @ lit '' will NOT be exported to the collector: '' @ xe_subscriber_error ext)])
      else (True, [SetSubscriber (subscriber_layers ft ext b lp)]))"

text \<open>
  \<open>init\<close>. \<open>number\<close> tells this call's tracer provider from others.
\<close>

definition init ::
    "features \<Rightarrow> externals \<Rightarrow> env_vars \<Rightarrow> nat \<Rightarrow> builder \<Rightarrow> globals
       \<Rightarrow> globals \<times> init_effect list \<times> (rstring + handles)" where
  "init ft ext env number b gl =
     (case resolve_settings ft ext env b of
        Inl e \<Rightarrow> (gl, [], Inl e)
      | Inr st \<Rightarrow>
          (case build_span_exporter (xe_build ext) (st_protocol st) (st_endpoint st) (st_timeout st) (st_transport st) of
             Inl e \<Rightarrow> (gl, [], Inl e)
           | Inr xc \<Rightarrow>
               let tp = \<lparr>tp_number = number, tp_resource = st_resource st, tp_sampler = Some (into_sdk_sampler (st_sampler st)),
                         tp_exporter = Some xc, tp_retry = Some (retry_new (xe_in_runtime ext)),
                         tp_batch_size = bd_max_export_batch_size b\<rparr>;
                   eff1 = [SetTracerProvider tp, SetPropagator [TraceContext, Baggage]];
                   (eff2, meter) = init_meter ext b st
               in case meter of
                    Inl e \<Rightarrow> (gl, eff1 @ eff2, Inl e)
                  | Inr mp \<Rightarrow>
                      (case init_logger ext b st of
                         Inl e \<Rightarrow> (gl, eff1 @ eff2, Inl e)
                       | Inr lp \<Rightarrow>
                           let (started, peff, prof) = init_profiling ft ext b st (gl_profiling_started gl);
                               gl = gl\<lparr>gl_profiling_started := started\<rparr>;
                               eff3 = map Logged peff
                           in case prof of
                                Inl e \<Rightarrow> (gl, eff1 @ eff2 @ eff3, Inl e)
                              | Inr ph \<Rightarrow>
                                  let (set', eff4) = install_subscriber ft ext b lp (gl_subscriber_set gl);
                                      (attached', tm, inside, after) =
                                        attach (gl_timeline gl) number (st_service_name st);
                                      gl = gl\<lparr>gl_subscriber_set := set', gl_timeline := tm\<rparr>
                                  in (gl, eff1 @ eff2 @ eff3 @ eff4 @ map BootEffect (inside @ after),
                                      Inr \<lparr>hd_tracer = tp, hd_meter = mp, hd_logger = lp,
                                           hd_shutdown_timeout = bd_shutdown_timeout b,
                                           hd_boot_owner = (attached' \<noteq> None), hd_profiling = ph\<rparr>))))"

text \<open>
  \<open>init\<close> is the run in which no constructor panics. The constructors are reached in this order: the
  channel of live material, the exporters of spans, metrics and logs, each after the ones before it
  succeeded. One that panics unwinds \<open>init\<close> where its error would have ended it, and so leaves the
  process as that error would.
\<close>

datatype 'a init_end = Answered 'a | Unwound

definition build_panics :: "externals \<Rightarrow> exporter_config \<Rightarrow> bool" where
  "build_panics ext xc \<longleftrightarrow> \<not> xe_in_runtime ext \<and> xe_exporter_needs_runtime ext xc"

fun first_panics :: "externals \<Rightarrow> exporter_config list \<Rightarrow> bool" where
  "first_panics ext [] \<longleftrightarrow> False"
| "first_panics ext (xc # xcs) \<longleftrightarrow> build_panics ext xc \<or> (xe_build ext xc = None \<and> first_panics ext xcs)"

definition channel_panics :: "features \<Rightarrow> externals \<Rightarrow> env_vars \<Rightarrow> builder \<Rightarrow> bool" where
  "channel_panics ft ext env b \<longleftrightarrow>
     (case resolve_settings ft ext env b of
        Inr st \<Rightarrow> (case st_transport st of Some (Live ch) \<Rightarrow> \<not> xe_in_runtime ext \<and> xe_channel_needs_runtime ext | _ \<Rightarrow> False)
      | Inl e \<Rightarrow> False)"

definition exporter_panics :: "features \<Rightarrow> externals \<Rightarrow> env_vars \<Rightarrow> builder \<Rightarrow> bool" where
  "exporter_panics ft ext env b \<longleftrightarrow>
     (case resolve_settings ft ext env b of
        Inr st \<Rightarrow> first_panics ext
          (map (\<lambda>sig. exporter_for sig (st_protocol st) (st_endpoint st) (st_timeout st) (st_transport st))
             (Traces # (if bd_metrics b then [Metrics] else []) @ (if bd_logs b then [Logs] else [])))
      | Inl e \<Rightarrow> False)"

definition init_panics :: "features \<Rightarrow> externals \<Rightarrow> env_vars \<Rightarrow> builder \<Rightarrow> bool" where
  "init_panics ft ext env b \<longleftrightarrow> channel_panics ft ext env b \<or> exporter_panics ft ext env b"

definition refusing :: "externals \<Rightarrow> externals" where
  "refusing ext = ext\<lparr>xe_build := (\<lambda>xc. if build_panics ext xc then Some [] else xe_build ext xc)\<rparr>"

definition init_run ::
    "features \<Rightarrow> externals \<Rightarrow> env_vars \<Rightarrow> nat \<Rightarrow> builder \<Rightarrow> globals
       \<Rightarrow> globals \<times> init_effect list \<times> (rstring + handles) init_end" where
  "init_run ft ext env number b gl =
     (if channel_panics ft ext env b then (gl, [], Unwound)
      else let (gl, eff, r) = init ft (refusing ext) env number b gl
           in (gl, eff, if exporter_panics ft ext env b then Unwound else Answered r))"

definition init_telemetry where
  "init_telemetry ft ext env number service_name = init ft ext env number (telemetry_builder service_name)"

definition init_telemetry_with_sampler where
  "init_telemetry_with_sampler ft ext env number service_name sampler =
     init ft ext env number
       (case sampler of
          Some s \<Rightarrow> with_sampler s (telemetry_builder service_name)
        | None \<Rightarrow> telemetry_builder service_name)"

text \<open>\<open>Telemetry::testing\<close>: in-memory exporters, no retry, no error.\<close>

definition testing ::
    "externals \<Rightarrow> nat \<Rightarrow> rstring \<Rightarrow> globals \<Rightarrow> globals \<times> init_effect list \<times> handles" where
  "testing ext number service_name gl =
     (let res = build_resource (xe_hostname ext) (xe_pid ext) service_name None None;
          tp = \<lparr>tp_number = number, tp_resource = res, tp_sampler = None, tp_exporter = None,
                tp_retry = None, tp_batch_size = None\<rparr>;
          mp = \<lparr>mp_resource = res, mp_exporter = None, mp_interval = None, mp_installers = []\<rparr>;
          sub = (if gl_subscriber_set gl then [] else [SetSubscriber [FilterLayer None, FmtLayer Pretty, OtelLayer]]);
          (attached', tm, inside, after) = attach (gl_timeline gl) number service_name
      in (gl\<lparr>gl_subscriber_set := True, gl_timeline := tm\<rparr>,
          [SetTracerProvider tp, SetMeterProvider mp] @ sub @ map BootEffect (inside @ after),
          \<lparr>hd_tracer = tp, hd_meter = Some mp, hd_logger = None, hd_shutdown_timeout = DEFAULT_SHUTDOWN_TIMEOUT,
           hd_boot_owner = (attached' \<noteq> None), hd_profiling = None\<rparr>))"

section \<open>Handles\<close>

datatype shutdown_effect =
    CloseBoot effect
  | ShutDown otel_signal
  | Warned rstring
  | StopAgent agent

definition close_boot :: "handles \<Rightarrow> timeline \<Rightarrow> instant \<Rightarrow> timeline \<times> shutdown_effect list" where
  "close_boot h tm now =
     (if hd_boot_owner h then let (tm', eff) = close tm now in (tm', map CloseBoot eff) else (tm, []))"

text \<open>Shutting one provider down: \<open>result\<close> is its error, which is logged and absorbed.\<close>

definition shutdown_one :: "otel_signal \<Rightarrow> rstring \<Rightarrow> rstring option \<Rightarrow> shutdown_effect list" where
  "shutdown_one sig who result =
     ShutDown sig # (case result of None \<Rightarrow> [] | Some e \<Rightarrow> [Warned (who @ lit '' provider shutdown error: '' @ e)])"

definition shutdown_providers :: "handles \<Rightarrow> (otel_signal \<Rightarrow> rstring option) \<Rightarrow> shutdown_effect list" where
  "shutdown_providers h results =
     shutdown_one Traces (lit ''tracer'') (results Traces)
     @ (if hd_meter h \<noteq> None then shutdown_one Metrics (lit ''meter'') (results Metrics) else [])
     @ (if hd_logger h \<noteq> None then shutdown_one Logs (lit ''logger'') (results Logs) else [])"

definition shutdown ::
    "handles \<Rightarrow> (otel_signal \<Rightarrow> rstring option) \<Rightarrow> timeline \<Rightarrow> instant
       \<Rightarrow> timeline \<times> shutdown_effect list \<times> (rstring + unit)" where
  "shutdown h results tm now =
     (let (tm', eff) = close_boot h tm now in (tm', eff @ shutdown_providers h results, Inr ()))"

text \<open>
  The drop: the providers shut down on a thread of their own, \<open>took\<close> after the start
  (\<open>None\<close> when it never ends), and the drop waits for it at most the shutdown timeout. The
  components are the timeline, what the dropping thread does, what the other thread does, and
  how long the drop waits for the providers; the agents of profiling stop after it.
\<close>

definition drop_handles ::
    "handles \<Rightarrow> (otel_signal \<Rightarrow> rstring option) \<Rightarrow> duration option \<Rightarrow> timeline \<Rightarrow> instant \<Rightarrow> rstring
       \<Rightarrow> timeline \<times> shutdown_effect list \<times> shutdown_effect list \<times> duration" where
  "drop_handles h results took tm now shown_timeout =
     (let (tm', eff) = close_boot h tm now;
          in_time = (case took of Some d \<Rightarrow> d \<le> hd_shutdown_timeout h | None \<Rightarrow> False);
          warn = (if in_time then [] else
            [Warned (lit ''telemetry shutdown did not complete within '' @ shown_timeout
                     @ lit ''; some spans/metrics may not have been exported'')]);
          agents = (case hd_profiling h of None \<Rightarrow> [] | Some p \<Rightarrow> map StopAgent (snd (profiling_drop p)))
      in (tm', eff @ warn @ agents, shutdown_providers h results,
          if in_time then the took else hd_shutdown_timeout h))"

end
