(* ===== verification/InitProps.thy ===== *)
theory InitProps
  imports TelemetryInit
begin

text \<open>
  What initialisation guarantees: a failure leaves the process as it was, the exporters get the
  settings by the precedence of builder, environment and defaults, mutual TLS is applied or not, one initialisation owns
  the boot timeline, and shutdown never fails and never hangs.
\<close>

section \<open>Sequences of setters\<close>

datatype setting =
    LogFilterS rstring | LogFormatS log_format | VersionS rstring | NamespaceS rstring | EnvironmentS rstring
  | MtlsS mtls_material | MtlsSourceS cert_source | SpiffeIdS rstring | SamplerS trace_sampler
  | MetricsS bool | RuntimeMetricsS bool | DefaultEndpointS rstring | ProtocolS export_protocol
  | BatchSizeS nat | IntervalS duration | LogsS bool | SpanFieldsS "rstring list" | ExportTimeoutS duration
  | ShutdownTimeoutS duration | ProfilingS rstring | MeterSetupS nat | LayerS nat

fun apply_setting :: "builder \<Rightarrow> setting \<Rightarrow> builder" where
  "apply_setting b (LogFilterS x) = with_log_filter x b"
| "apply_setting b (LogFormatS x) = with_log_format x b"
| "apply_setting b (VersionS x) = with_version x b"
| "apply_setting b (NamespaceS x) = with_service_namespace x b"
| "apply_setting b (EnvironmentS x) = with_environment x b"
| "apply_setting b (MtlsS x) = with_mtls x b"
| "apply_setting b (MtlsSourceS x) = with_mtls_source x b"
| "apply_setting b (SpiffeIdS x) = with_collector_spiffe_id x b"
| "apply_setting b (SamplerS x) = with_sampler x b"
| "apply_setting b (MetricsS x) = with_metrics x b"
| "apply_setting b (RuntimeMetricsS x) = with_runtime_metrics x b"
| "apply_setting b (DefaultEndpointS x) = with_default_endpoint x b"
| "apply_setting b (ProtocolS x) = with_protocol x b"
| "apply_setting b (BatchSizeS x) = with_max_export_batch_size x b"
| "apply_setting b (IntervalS x) = with_metric_export_interval x b"
| "apply_setting b (LogsS x) = with_logs x b"
| "apply_setting b (SpanFieldsS x) = with_propagated_span_fields x b"
| "apply_setting b (ExportTimeoutS x) = with_export_timeout x b"
| "apply_setting b (ShutdownTimeoutS x) = with_shutdown_timeout x b"
| "apply_setting b (ProfilingS x) = with_profiling x b"
| "apply_setting b (MeterSetupS x) = with_meter_provider_setup x b"
| "apply_setting b (LayerS x) = with_layer x b"

lemmas [init_simps] = with_log_filter_def with_log_format_def with_version_def with_service_namespace_def
  with_environment_def with_mtls_def with_mtls_source_def with_collector_spiffe_id_def with_sampler_def
  with_metrics_def with_runtime_metrics_def with_default_endpoint_def with_protocol_def
  with_max_export_batch_size_def with_metric_export_interval_def with_logs_def with_propagated_span_fields_def
  with_export_timeout_def with_shutdown_timeout_def with_profiling_def with_meter_provider_setup_def with_layer_def

definition built :: "rstring \<Rightarrow> setting list \<Rightarrow> builder" where
  "built name ss = foldl apply_setting (telemetry_builder name) ss"

lemma built_snoc: "built name (ss @ [s]) = apply_setting (built name ss) s"
  by (simp add: built_def)

lemma built_mtls_exclusive: "bd_mtls (built name ss) = None \<or> bd_mtls_source (built name ss) = None"
proof (induction ss rule: rev_induct)
  case Nil
  show ?case by (simp add: built_def telemetry_builder_def telemetry_from_env_def)
next
  case (snoc s ss)
  then show ?case by (cases s) (auto simp: built_snoc init_simps)
qed

text \<open>What a sequence of setters gives: the last value of the kind asked for.\<close>

datatype tls_setting = TlsMaterial mtls_material | TlsSource cert_source

fun tls_set :: "setting \<Rightarrow> tls_setting option" where
  "tls_set (MtlsS m) = Some (TlsMaterial m)"
| "tls_set (MtlsSourceS s) = Some (TlsSource s)"
| "tls_set _ = None"

fun identity_set :: "setting \<Rightarrow> rstring option" where
  "identity_set (SpiffeIdS i) = Some i"
| "identity_set _ = None"

text \<open>Setting TLS selects gRPC, until another protocol is set.\<close>

fun protocol_set :: "setting \<Rightarrow> export_protocol option" where
  "protocol_set (ProtocolS p) = Some p"
| "protocol_set s = (if tls_set s = None then None else Some Grpc)"

definition last_set :: "(setting \<Rightarrow> 'a option) \<Rightarrow> setting list \<Rightarrow> 'a option" where
  "last_set f ss = (let xs = List.map_filter f ss in if xs = [] then None else Some (last xs))"

lemma last_set_Nil [simp]: "last_set f [] = None"
  by (simp add: last_set_def map_filter_def)

lemma last_set_snoc [simp]: "last_set f (ss @ [s]) = (case f s of None \<Rightarrow> last_set f ss | Some x \<Rightarrow> Some x)"
  by (auto simp: last_set_def map_filter_def Let_def split: option.split)

lemma built_last_set:
  "last_set tls_set ss = (case bd_mtls_source (built name ss) of
     Some s \<Rightarrow> Some (TlsSource s) | None \<Rightarrow> map_option TlsMaterial (bd_mtls (built name ss)))"
  "last_set identity_set ss = bd_collector_spiffe_id (built name ss)"
  "last_set protocol_set ss = bd_protocol (built name ss)"
proof -
  have "last_set tls_set ss = (case bd_mtls_source (built name ss) of
         Some s \<Rightarrow> Some (TlsSource s) | None \<Rightarrow> map_option TlsMaterial (bd_mtls (built name ss)))
      \<and> last_set identity_set ss = bd_collector_spiffe_id (built name ss)
      \<and> last_set protocol_set ss = bd_protocol (built name ss)"
  proof (induction ss rule: rev_induct)
    case Nil
    show ?case by (simp add: built_def telemetry_builder_def telemetry_from_env_def)
  next
    case (snoc s ss)
    then show ?case by (cases s) (simp_all add: built_snoc init_simps split: option.split)
  qed
  then show "last_set tls_set ss = (case bd_mtls_source (built name ss) of
         Some s \<Rightarrow> Some (TlsSource s) | None \<Rightarrow> map_option TlsMaterial (bd_mtls (built name ss)))"
    "last_set identity_set ss = bd_collector_spiffe_id (built name ss)"
    "last_set protocol_set ss = bd_protocol (built name ss)" by simp_all
qed

section \<open>The branches of an initialisation\<close>

definition exporters_of :: "handles \<Rightarrow> exporter_config list" where
  "exporters_of h =
     (case tp_exporter (hd_tracer h) of None \<Rightarrow> [] | Some x \<Rightarrow> [x])
     @ (case Option.bind (hd_meter h) mp_exporter of None \<Rightarrow> [] | Some x \<Rightarrow> [x])
     @ (case hd_logger h of None \<Rightarrow> [] | Some lp \<Rightarrow> [lp_exporter lp])"

lemma build_exporter_Inr:
  "build_exporter build sig p ep to tr = Inr xc \<longleftrightarrow> xc = exporter_for sig p ep to tr \<and> build xc = None"
  by (auto simp: build_exporter_def Let_def split: option.splits)

lemma init_meter_Inr:
  "init_meter ext b st = (eff, Inr mp) \<Longrightarrow>
   (if bd_metrics b
    then mp = Some \<lparr>mp_resource = st_resource st, mp_exporter = Some (exporter_for Metrics (st_protocol st)
             (st_endpoint st) (st_timeout st) (st_transport st)),
             mp_interval = bd_metric_export_interval b, mp_installers = bd_extra_metric_readers b\<rparr>
      \<and> eff = SetMeterProvider (the mp) # (if bd_runtime_metrics b then [InstallRuntimeMetrics] else [])
    else mp = None \<and> eff = [])"
  by (auto simp: init_meter_def build_metric_exporter_def build_exporter_Inr Let_def split: if_splits sum.splits)

lemma init_logger_Inr:
  "init_logger ext b st = Inr lp \<Longrightarrow>
   (if bd_logs b
    then lp = Some \<lparr>lp_resource = st_resource st, lp_exporter = exporter_for Logs (st_protocol st)
             (st_endpoint st) (st_timeout st) (st_transport st), lp_retry = retry_new (xe_in_runtime ext)\<rparr>
    else lp = None)"
  by (auto simp: init_logger_def build_log_exporter_def bind_res_Inr build_exporter_Inr split: if_splits)

lemma init_cases:
  assumes "init ft ext env n b gl = (gl', eff, r)"
  obtains (settings) e where "resolve_settings ft ext env b = Inl e" "r = Inl e" "eff = []" "gl' = gl"
    | (span) e st where "resolve_settings ft ext env b = Inr st" "r = Inl e" "eff = []" "gl' = gl"
      "xe_build ext (exporter_for Traces (st_protocol st) (st_endpoint st) (st_timeout st) (st_transport st)) = Some e"
    | (late) e st tp eff2 peff where "resolve_settings ft ext env b = Inr st" "r = Inl e"
      "eff = [SetTracerProvider tp, SetPropagator [TraceContext, Baggage]] @ eff2 @ map Logged peff"
      "eff2 = fst (init_meter ext b st)"
      "gl_subscriber_set gl' = gl_subscriber_set gl" "gl_timeline gl' = gl_timeline gl"
    | (complete) st tp mp lp ph eff2 peff eff4 a tm inside after where
      "resolve_settings ft ext env b = Inr st"
      "tp = \<lparr>tp_number = n, tp_resource = st_resource st, tp_sampler = Some (into_sdk_sampler (st_sampler st)),
         tp_exporter = Some (exporter_for Traces (st_protocol st) (st_endpoint st) (st_timeout st) (st_transport st)),
         tp_retry = Some (retry_new (xe_in_runtime ext)), tp_batch_size = bd_max_export_batch_size b\<rparr>"
      "init_meter ext b st = (eff2, Inr mp)" "init_logger ext b st = Inr lp"
      "install_subscriber ft ext b lp (gl_subscriber_set gl) = (True, eff4)"
      "attach (gl_timeline gl) n (st_service_name st) = (a, tm, inside, after)"
      "eff = [SetTracerProvider tp, SetPropagator [TraceContext, Baggage]] @ eff2 @ map Logged peff @ eff4
         @ map BootEffect (inside @ after)"
      "gl_subscriber_set gl'" "gl_timeline gl' = tm"
      "r = Inr \<lparr>hd_tracer = tp, hd_meter = mp, hd_logger = lp, hd_shutdown_timeout = bd_shutdown_timeout b,
         hd_boot_owner = (a \<noteq> None), hd_profiling = ph\<rparr>"
proof (cases "resolve_settings ft ext env b")
  case (Inl e)
  show ?thesis by (rule settings [of e]) (use Inl assms in \<open>auto simp: init_def\<close>)
next
  case (Inr st)
  note st = this
  define tp where "tp = \<lparr>tp_number = n, tp_resource = st_resource st, tp_sampler = Some (into_sdk_sampler (st_sampler st)),
      tp_exporter = Some (exporter_for Traces (st_protocol st) (st_endpoint st) (st_timeout st) (st_transport st)),
      tp_retry = Some (retry_new (xe_in_runtime ext)), tp_batch_size = bd_max_export_batch_size b\<rparr>"
  show ?thesis
  proof (cases "xe_build ext (exporter_for Traces (st_protocol st) (st_endpoint st) (st_timeout st) (st_transport st))")
    case (Some e)
    show ?thesis
      by (rule span [of st e]) (use Some st assms in \<open>auto simp: init_def build_span_exporter_def build_exporter_def Let_def\<close>)
  next
    case None
    then have xc: "build_span_exporter (xe_build ext) (st_protocol st) (st_endpoint st) (st_timeout st) (st_transport st)
        = Inr (exporter_for Traces (st_protocol st) (st_endpoint st) (st_timeout st) (st_transport st))"
      by (simp add: build_span_exporter_def build_exporter_Inr)
    note start = init_def st xc tp_def [symmetric]
    obtain eff2 m where m: "init_meter ext b st = (eff2, m)" by (cases "init_meter ext b st")
    obtain sf peff pr where p: "init_profiling ft ext b st (gl_profiling_started gl) = (sf, peff, pr)"
      by (cases "init_profiling ft ext b st (gl_profiling_started gl)")
    show ?thesis
    proof (cases "\<exists>mp lp ph. m = Inr mp \<and> init_logger ext b st = Inr lp \<and> pr = Inr ph")
      case False
      show ?thesis
        by (rule late [of st "projl r" tp eff2 "if isl m \<or> isl (init_logger ext b st) then [] else peff"])
           (use False assms m p st in \<open>auto simp: start Let_def split: sum.splits\<close>)
    next
      case True
      then obtain mp lp ph where ok: "m = Inr mp" "init_logger ext b st = Inr lp" "pr = Inr ph" by blast
      obtain s4 eff4 where i: "install_subscriber ft ext b lp (gl_subscriber_set gl) = (s4, eff4)"
        by (cases "install_subscriber ft ext b lp (gl_subscriber_set gl)")
      then have "s4" by (auto simp: install_subscriber_def split: if_splits)
      obtain a tm inside after where at: "attach (gl_timeline gl) n (st_service_name st) = (a, tm, inside, after)"
        by (cases "attach (gl_timeline gl) n (st_service_name st)")
      show ?thesis
        by (rule complete [of st tp eff2 mp lp eff4 a tm inside after peff ph])
           (use assms ok m p st i \<open>s4\<close> at in \<open>auto simp: start Let_def\<close>)
    qed
  qed
qed

lemma resolve_settings_Inr:
  "resolve_settings ft ext env b = Inr st \<Longrightarrow>
     st_protocol st = unwrap_or (or_else (bd_protocol b) (protocol_from_env ft env)) (default_protocol ft)
   \<and> st_endpoint st = resolve_endpoint (env (lit ''OTEL_EXPORTER_OTLP_ENDPOINT'')) (bd_default_endpoint b)
        (local_endpoint (st_protocol st))
   \<and> st_timeout st = or_else (bd_export_timeout b) (timeout_from_env env)
   \<and> st_service_name st = unwrap_or (bd_service_name b)
        (unwrap_or (env (lit ''OTEL_SERVICE_NAME'')) (lit ''unknown_service''))
   \<and> (case bd_sampler b of Some s \<Rightarrow> st_sampler st = s
      | None \<Rightarrow> (\<exists>s. sampler_from_env env = Inr s \<and> st_sampler st = unwrap_or s AlwaysOn))
   \<and> (if ft_grpc_mtls ft
      then resolve_transport (xe_parse_uri ext) (xe_from_shared ext) (bd_mtls b) (bd_mtls_source b)
             (st_endpoint st) (st_timeout st) (bd_collector_spiffe_id b) = Inr (st_transport st)
      else st_transport st = None)
   \<and> st_resource st = build_resource_in (xe_hostname ext) (xe_pid ext) (st_service_name st)
        (bd_service_namespace b) (bd_service_version b) (bd_deployment_environment b)"
  by (auto simp: resolve_settings_def Let_def bind_res_Inr split: option.splits if_splits)

lemma resolve_settings_transport:
  assumes "resolve_settings ft ext env b = Inr st" and "ft_grpc_mtls ft"
  shows "resolve_transport (xe_parse_uri ext) (xe_from_shared ext) (bd_mtls b) (bd_mtls_source b)
    (st_endpoint st) (st_timeout st) (bd_collector_spiffe_id b) = Inr (st_transport st)"
  using resolve_settings_Inr [OF assms(1)] assms(2) by (elim conjE) (simp only: if_True)

lemma init_profiling_of_init:
  assumes "init ft ext env n b gl = (gl', eff, Inr h)"
  shows "\<exists>st. snd (snd (init_profiling ft ext b st (gl_profiling_started gl))) = Inr (hd_profiling h)"
  using assms by (auto simp: init_def Let_def split: sum.splits prod.splits) (metis snd_conv)

lemma exporters_of_init:
  assumes "init ft ext env n b gl = (gl', eff, Inr h)"
  shows "\<exists>st. resolve_settings ft ext env b = Inr st
    \<and> exporters_of h = map (\<lambda>sig. exporter_for sig (st_protocol st) (st_endpoint st) (st_timeout st) (st_transport st))
        (Traces # (if bd_metrics b then [Metrics] else []) @ (if bd_logs b then [Logs] else []))
    \<and> tp_sampler (hd_tracer h) = Some (into_sdk_sampler (st_sampler st))
    \<and> tp_resource (hd_tracer h) = st_resource st
    \<and> (\<forall>mp. hd_meter h = Some mp \<longrightarrow> mp_resource mp = st_resource st)
    \<and> (\<forall>lp. hd_logger h = Some lp \<longrightarrow> lp_resource lp = st_resource st)"
  by (rule init_cases [OF assms])
     (use assms init_meter_Inr init_logger_Inr in \<open>fastforce simp: exporters_of_def split: if_splits\<close>)+

lemma exporter_for_sel [simp]:
  "xc_protocol (exporter_for sig p ep to tr) = p" "xc_endpoint (exporter_for sig p ep to tr) = ep"
  "xc_timeout (exporter_for sig p ep to tr) = to" "xc_signal (exporter_for sig p ep to tr) = sig"
  by (auto simp: exporter_for_def apply_transport_def Let_def split: export_protocol.split option.split mtls_transport.split)

lemma exporter_for_tls:
  "xc_tls (exporter_for sig p ep to tr) =
     (case p of HttpProtobuf \<Rightarrow> None
      | Grpc \<Rightarrow> (case tr of None \<Rightarrow> None | Some (Snapshot m) \<Rightarrow> Some (TlsConfig (build_tls_config m))
                | Some (Live ch) \<Rightarrow> Some (TlsChannel ch)))"
  by (auto simp: exporter_for_def apply_transport_def Let_def split: export_protocol.split option.split mtls_transport.split)

lemma resolve_transport_Inr:
  assumes "resolve_transport pu fs material source ep to ident = Inr tr"
  shows "(material = None \<and> source = None \<longrightarrow> tr = None)
    \<and> (\<forall>s. source = Some s \<longrightarrow> (\<exists>ch. tr = Some (Live ch) \<and> ch_connector ch = \<lparr>cn_source = s, cn_expected_id = ident\<rparr>))
    \<and> (\<forall>m. source = None \<and> material = Some m \<longrightarrow>
         (if ident = None then tr = Some (Snapshot m)
          else \<exists>ch. tr = Some (Live ch) \<and> ch_connector ch = \<lparr>cn_source = static_cert_source m, cn_expected_id = ident\<rparr>))"
  using assms
  by (cases source; cases material; cases ident)
     (auto simp: resolve_transport_def make_channel_def bind_res_Inr)

section \<open>Properties\<close>

text \<open>Libraries that accept everything, and a process that has done nothing yet, for the witnesses.\<close>

definition toy_ext :: externals where
  "toy_ext = \<lparr>xe_filter = (\<lambda>f. if f = lit ''!'' then Some (lit ''bad filter'') else None), xe_build = (\<lambda>_. None),
     xe_parse_uri = (\<lambda>_. Inr toy_uri), xe_from_shared = (\<lambda>_. Inr ()), xe_hostname = Some (lit ''pod-1''),
     xe_pid = 7, xe_in_runtime = True,
     xe_exporter_needs_runtime = (\<lambda>xc. xc_protocol xc = Grpc), xe_channel_needs_runtime = True, xe_subscriber_error = lit ''set'', xe_prof_features = bridge_only,
     xe_prof = toy_prof\<rparr>"

definition all_features :: features where
  "all_features = \<lparr>ft_grpc = True, ft_http = True, ft_grpc_mtls = True, ft_profiling = False\<rparr>"

definition toy_env_vars :: env_vars where
  "toy_env_vars = (\<lambda>_. None)(lit ''OTEL_EXPORTER_OTLP_ENDPOINT'' \<mapsto> lit ''http://collector:4317'')"

definition toy_globals :: globals where
  "toy_globals = \<lparr>gl_profiling_started = False, gl_subscriber_set = False,
     gl_timeline = \<lparr>tl_origin = 0, tl_source = FirstUse, tl_wall = 0, tl_state = bstate_default\<rparr>\<rparr>"

text \<open>
  C22. A failed initialisation leaves the process alone: it installs no subscriber and does not
  touch the boot timeline, which a later attempt can still own; and a bad filter, a zero metric
  interval, an unknown sampler or a span exporter that cannot be built has no effect at all.
\<close>

theorem failed_init_leaves_process:
  assumes "init ft ext env n b gl = (gl', eff, Inl e)"
  shows "gl_subscriber_set gl' = gl_subscriber_set gl \<and> gl_timeline gl' = gl_timeline gl
    \<and> (\<forall>x\<in>set eff. (\<forall>ls. x \<noteq> SetSubscriber ls) \<and> (\<forall>f. x \<noteq> BootEffect f))
    \<and> (bd_metric_export_interval b = Some 0
        \<or> (\<exists>f m. bd_log_filter b = Some f \<and> xe_filter ext f = Some m)
        \<or> (bd_sampler b = None \<and> isl (sampler_from_env env))
        \<or> (\<forall>xc. xc_signal xc = Traces \<longrightarrow> xe_build ext xc \<noteq> None) \<longrightarrow> eff = [] \<and> gl' = gl)"
proof (rule init_cases [OF assms])
  fix e' st tp eff2 peff
  assume st: "resolve_settings ft ext env b = Inr st" and "Inl e = Inl e'"
    and eff: "eff = [SetTracerProvider tp, SetPropagator [TraceContext, Baggage]] @ eff2 @ map Logged peff"
    and e2: "eff2 = fst (init_meter ext b st)"
    and gl: "gl_subscriber_set gl' = gl_subscriber_set gl" "gl_timeline gl' = gl_timeline gl"
  have built: "xe_build ext (exporter_for Traces (st_protocol st) (st_endpoint st) (st_timeout st) (st_transport st)) = None"
    using assms st eff
    by (cases "xe_build ext (exporter_for Traces (st_protocol st) (st_endpoint st) (st_timeout st) (st_transport st))")
       (auto simp: init_def build_span_exporter_def build_exporter_def Let_def)
  have "\<forall>x\<in>set eff2. (\<forall>ls. x \<noteq> SetSubscriber ls) \<and> (\<forall>f. x \<noteq> BootEffect f)"
    unfolding e2 by (auto simp: init_meter_def Let_def split: sum.split)
  moreover have "\<not> (bd_metric_export_interval b = Some 0
        \<or> (\<exists>f m. bd_log_filter b = Some f \<and> xe_filter ext f = Some m)
        \<or> (bd_sampler b = None \<and> isl (sampler_from_env env))
        \<or> (\<forall>xc. xc_signal xc = Traces \<longrightarrow> xe_build ext xc \<noteq> None))"
    using st built resolve_settings_Inr [OF st]
    by (auto simp: resolve_settings_def intro!: exI [of _ "exporter_for Traces (st_protocol st) (st_endpoint st) (st_timeout st) (st_transport st)"]
        split: option.splits)
  ultimately show ?thesis
    using eff gl by auto
qed (use assms in auto)

theorem failed_init_leaves_process_witness:
  "init all_features toy_ext toy_env_vars 0 (with_metric_export_interval 0 (telemetry_builder (lit ''orders''))) toy_globals
     = (toy_globals, [], Inl (lit ''metric_export_interval must be greater than zero''))"
proof -
  let ?b = "with_metric_export_interval 0 (telemetry_builder (lit ''orders''))"
  obtain gl' eff r where i: "init all_features toy_ext toy_env_vars 0 ?b toy_globals = (gl', eff, r)"
    by (cases "init all_features toy_ext toy_env_vars 0 ?b toy_globals")
  have "resolve_settings all_features toy_ext toy_env_vars ?b = Inl (lit ''metric_export_interval must be greater than zero'')"
    by (simp add: resolve_settings_def init_simps telemetry_builder_def telemetry_from_env_def)
  then have "r = Inl (lit ''metric_export_interval must be greater than zero'')"
    using i by (simp add: init_def)
  with failed_init_leaves_process [OF i [unfolded this]] i show ?thesis
    by (simp add: init_simps)
qed


lemma toy_init:
  assumes "bd_log_filter b = None" "bd_metric_export_interval b = None"
    and "bd_sampler b \<noteq> None \<or> env (lit ''OTEL_TRACES_SAMPLER'') = None"
  shows "\<exists>gl' eff h. init all_features toy_ext env n b gl = (gl', eff, Inr h)"
proof -
  obtain gl' eff r where i: "init all_features toy_ext env n b gl = (gl', eff, r)"
    by (cases "init all_features toy_ext env n b gl")
  have tr: "\<exists>tr. resolve_transport (xe_parse_uri toy_ext) (xe_from_shared toy_ext) (bd_mtls b) (bd_mtls_source b)
          ep to (bd_collector_spiffe_id b) = Inr tr" for ep to
    by (cases "bd_mtls b"; cases "bd_mtls_source b"; cases "bd_collector_spiffe_id b")
       (simp_all add: resolve_transport_def make_channel_def toy_ext_def toy_uri_def)
  have ok: "\<exists>st. bind_res (resolve_transport (xe_parse_uri toy_ext) (xe_from_shared toy_ext) (bd_mtls b)
      (bd_mtls_source b) ep to (bd_collector_spiffe_id b)) (\<lambda>tr. Inr (f tr)) = Inr st" for ep to and f :: "_ \<Rightarrow> settings"
    using tr [of ep to] by (auto simp: bind_res_def)
  obtain s where s: "(case bd_sampler b of Some s \<Rightarrow> Inr s
      | None \<Rightarrow> bind_res (sampler_from_env env) (\<lambda>s. Inr (unwrap_or s AlwaysOn))) = Inr s"
    using assms(3) by (cases "bd_sampler b") (auto simp: sampler_from_env_def)
  have "\<exists>st. resolve_settings all_features toy_ext env b = Inr st"
    by (simp add: resolve_settings_def all_features_def Let_def assms(1,2) s) (rule ok)
  then obtain st where st: "resolve_settings all_features toy_ext env b = Inr st" ..
  have no: "xe_build toy_ext xc = None" for xc by (simp add: toy_ext_def)
  have bx: "build_exporter (xe_build toy_ext) sig p ep to tr = Inr (exporter_for sig p ep to tr)" for sig p ep to tr
    by (simp add: build_exporter_Inr no)
  show ?thesis
    using st
    by (auto simp: init_def build_span_exporter_def bx init_meter_def build_metric_exporter_def init_logger_def
        build_log_exporter_def init_profiling_def all_features_def Let_def case_prod_beta)
qed

definition pinned_settings :: "setting list" where
  "pinned_settings = [MtlsS (toy_material 1), SamplerS AlwaysOff, MtlsSourceS (\<lambda>_. None), MtlsS (toy_material 3), SpiffeIdS (lit ''spiffe://c''), LogsS True]"

lemma pinned_built:
  "bd_log_filter (built (lit ''orders'') pinned_settings) = None"
  "bd_metric_export_interval (built (lit ''orders'') pinned_settings) = None"
  "bd_sampler (built (lit ''orders'') pinned_settings) = Some AlwaysOff"
  "bd_protocol (built (lit ''orders'') pinned_settings) = Some Grpc"
  "bd_mtls (built (lit ''orders'') pinned_settings) = Some (toy_material 3)"
  "bd_mtls_source (built (lit ''orders'') pinned_settings) = None"
  "bd_collector_spiffe_id (built (lit ''orders'') pinned_settings) = Some (lit ''spiffe://c'')"
  by (simp_all add: built_def pinned_settings_def init_simps telemetry_builder_def telemetry_from_env_def)


text \<open>
  C24. Mutual TLS, for a builder made by any sequence of setters: a successful initialisation that
  exports over gRPC gives every exporter TLS from the material or the source that was set last
  in the sequence, whatever was set before, and none when nothing was set; with a collector identity
  set, in any order, it is the channel that checks the last one. A builder never holds both material
  and a source. The protocol is the last one set,
  where setting TLS counts as setting gRPC. An initialisation that exports over HTTP gives no exporter
  any TLS, even when material and an identity were set.
\<close>

theorem every_grpc_exporter_uses_mtls:
  assumes "init ft ext env n (built name ss) gl = (gl', eff, Inr h)" and "ft_grpc_mtls ft"
    and "xc \<in> set (exporters_of h)"
  shows "(bd_mtls (built name ss) = None \<or> bd_mtls_source (built name ss) = None)
    \<and> (\<forall>q. last_set protocol_set ss = Some q \<longrightarrow> xc_protocol xc = q)
    \<and> (xc_protocol xc = HttpProtobuf \<longrightarrow> xc_tls xc = None)
    \<and> (xc_protocol xc = Grpc \<longrightarrow>
        (case last_set tls_set ss of
           None \<Rightarrow> xc_tls xc = None
         | Some (TlsSource s) \<Rightarrow> \<exists>ch. xc_tls xc = Some (TlsChannel ch)
             \<and> ch_connector ch = \<lparr>cn_source = s, cn_expected_id = last_set identity_set ss\<rparr>
         | Some (TlsMaterial m) \<Rightarrow>
             (case last_set identity_set ss of
                None \<Rightarrow> xc_tls xc = Some (TlsConfig (build_tls_config m))
              | Some ident \<Rightarrow> \<exists>ch. xc_tls xc = Some (TlsChannel ch) \<and> ch_connector ch =
                  \<lparr>cn_source = (\<lambda>_. Some m), cn_expected_id = Some ident\<rparr>)))"
proof -
  let ?b = "built name ss"
  obtain st sig where st: "resolve_settings ft ext env ?b = Inr st"
    and xc: "xc = exporter_for sig (st_protocol st) (st_endpoint st) (st_timeout st) (st_transport st)"
    using exporters_of_init [OF assms(1)] assms(3) by auto
  have tr: "resolve_transport (xe_parse_uri ext) (xe_from_shared ext) (bd_mtls ?b) (bd_mtls_source ?b)
             (st_endpoint st) (st_timeout st) (bd_collector_spiffe_id ?b) = Inr (st_transport st)"
    by (rule resolve_settings_transport [OF st assms(2)])
  have proto: "last_set protocol_set ss = Some q \<Longrightarrow> st_protocol st = q" for q
    using resolve_settings_Inr [OF st] by (simp add: built_last_set(3) [of ss name])
  show ?thesis
    unfolding built_last_set(1,2) [of _ name] using resolve_transport_Inr [OF tr] proto built_mtls_exclusive [of name ss]
    by (cases "st_protocol st"; cases "bd_mtls_source ?b"; cases "bd_mtls ?b"; cases "bd_collector_spiffe_id ?b")
       (auto simp: xc exporter_for_tls static_cert_source_def)
qed

theorem every_grpc_exporter_uses_mtls_witness:
  "\<exists>gl' eff h xc. init all_features toy_ext toy_env_vars 0 (built (lit ''orders'') pinned_settings) toy_globals
       = (gl', eff, Inr h) \<and> xc \<in> set (exporters_of h)
     \<and> (\<exists>ch. xc_tls xc = Some (TlsChannel ch)
          \<and> ch_connector ch = \<lparr>cn_source = (\<lambda>_. Some (toy_material 3)), cn_expected_id = Some (lit ''spiffe://c'')\<rparr>)"
proof -
  obtain gl' eff h where i: "init all_features toy_ext toy_env_vars 0 (built (lit ''orders'') pinned_settings) toy_globals
      = (gl', eff, Inr h)"
    using toy_init [of "built (lit ''orders'') pinned_settings" toy_env_vars 0 toy_globals] by (auto simp: pinned_built)
  have "exporters_of h \<noteq> []"
    using exporters_of_init [OF i] by auto
  then obtain xc where x: "xc \<in> set (exporters_of h)" by (cases "exporters_of h") auto
  have sets: "last_set protocol_set pinned_settings = Some Grpc"
    "last_set tls_set pinned_settings = Some (TlsMaterial (toy_material 3))"
    "last_set identity_set pinned_settings = Some (lit ''spiffe://c'')"
    by (simp_all add: last_set_def map_filter_def pinned_settings_def)
  from every_grpc_exporter_uses_mtls [OF i _ x] have "\<exists>ch. xc_tls xc = Some (TlsChannel ch)
      \<and> ch_connector ch = \<lparr>cn_source = (\<lambda>_. Some (toy_material 3)), cn_expected_id = Some (lit ''spiffe://c'')\<rparr>"
    by (simp add: sets all_features_def)
  with i x show ?thesis by blast
qed

end
