(* ===== verification/ExportBackoff.thy ===== *)
theory ExportBackoff
  imports Tracing RustTime
begin

text \<open>
  The back-off of export-failure events (\<open>src/src/export_backoff.rs\<close>): \<open>admit\<close> and
  the layer's \<open>event_enabled\<close>. Its calls are serialised by a mutex, but each thread reads
  the clock before taking it, so the times of a sequence of calls are in no particular order.
\<close>

section \<open>Code\<close>

definition FIRST_BACKOFF :: duration where
  "FIRST_BACKOFF = from_secs 60"

definition MAX_BACKOFF :: duration where
  "MAX_BACKOFF = from_secs (60 * 60)"

record window =
  next_allowed :: instant
  backoff :: duration

type_synonym windows = "rstring \<Rightarrow> window option"

definition admit :: "windows \<Rightarrow> rstring \<Rightarrow> instant \<Rightarrow> windows \<times> bool" where
  "admit ws kind now =
     (case ws kind of
        None \<Rightarrow>
          (ws(kind \<mapsto> \<lparr>next_allowed = now + int FIRST_BACKOFF, backoff = FIRST_BACKOFF\<rparr>), True)
      | Some w \<Rightarrow>
          if next_allowed w \<le> now then
            let b = min (backoff w * 2) MAX_BACKOFF
            in (ws(kind \<mapsto> \<lparr>next_allowed = now + int b, backoff = b\<rparr>), True)
          else (ws, False))"

text \<open>The visitor \<open>EventName\<close>.\<close>

definition event_name_visit :: "rstring option \<Rightarrow> field \<Rightarrow> rstring option" where
  "event_name_visit v fd =
     (case fd_value fd of
        StrV s \<Rightarrow> if fd_name fd = lit ''name'' then Some s else v
      | _ \<Rightarrow> if fd_name fd = lit ''name'' \<and> v = None then Some (trim_matches 34 (fd_debug fd)) else v)"

definition export_failure_kind :: "tevent \<Rightarrow> rstring option" where
  "export_failure_kind ev =
     (let meta = te_meta ev in
      if \<not> starts_with (md_target meta) (lit ''opentelemetry'') \<or> WARN < md_level meta then None
      else let kind = unwrap_or (visit_fields event_name_visit None (te_fields ev)) (md_name meta)
           in if contains kind (lit ''Export'') then Some kind else None)"

definition event_enabled :: "windows \<Rightarrow> tevent \<Rightarrow> instant \<Rightarrow> windows \<times> bool" where
  "event_enabled ws ev now =
     (case export_failure_kind ev of
        Some kind \<Rightarrow> admit ws kind now
      | None \<Rightarrow> (ws, True))"

section \<open>Sequences of calls\<close>

type_synonym ('s, 'k) gate = "'s \<Rightarrow> 'k \<Rightarrow> instant \<Rightarrow> 's \<times> bool"

fun gate_run :: "('s, 'k) gate \<Rightarrow> 's \<Rightarrow> ('k \<times> instant) list \<Rightarrow> 's" where
  "gate_run g s [] = s"
| "gate_run g s ((k, t) # cs) = gate_run g (fst (g s k t)) cs"

text \<open>The times at which calls of one key are let through, in the order of the calls.\<close>

fun admitted_at :: "('s, 'k) gate \<Rightarrow> 's \<Rightarrow> 'k \<Rightarrow> ('k \<times> instant) list \<Rightarrow> instant list" where
  "admitted_at g s k [] = []"
| "admitted_at g s k ((j, t) # cs) =
     (if j = k \<and> snd (g s j t) then [t] else []) @ admitted_at g (fst (g s j t)) k cs"

lemma gate_run_append [simp]: "gate_run g s (cs @ ds) = gate_run g (gate_run g s cs) ds"
  by (induction g s cs rule: gate_run.induct) simp_all

lemma admitted_at_append [simp]:
  "admitted_at g s k (cs @ ds) = admitted_at g s k cs @ admitted_at g (gate_run g s cs) k ds"
  by (induction g s k cs rule: admitted_at.induct) simp_all

section \<open>The interface of a rate limiter\<close>

text \<open>
  A limiter keeps a slot per key, the time before which the key is refused and its current
  gap; a gap is what separates an admission from the next, and grows at each.
\<close>

locale rate_limiter =
  fixes gate :: "('s, 'k) gate"
    and slot :: "'s \<Rightarrow> 'k \<Rightarrow> (instant \<times> duration) option"
    and first_gap :: duration
    and grow :: "duration \<Rightarrow> duration"
  assumes first: "slot s k = None \<Longrightarrow>
      snd (gate s k t) \<and> slot (fst (gate s k t)) k = Some (t + int first_gap, first_gap)"
    and late: "slot s k = Some (n, b) \<Longrightarrow> n \<le> t \<Longrightarrow>
      snd (gate s k t) \<and> slot (fst (gate s k t)) k = Some (t + int (grow b), grow b)"
    and early: "slot s k = Some (n, b) \<Longrightarrow> t < n \<Longrightarrow> gate s k t = (s, False)"
    and other: "j \<noteq> k \<Longrightarrow> slot (fst (gate s k t)) j = slot s j"
begin

text \<open>The slot after a run, given the times admitted in it.\<close>

lemma slot_run:
  assumes "slot s k = None"
  shows "slot (gate_run gate s cs) k =
    (if admitted_at gate s k cs = [] then None
     else let b = (grow ^^ (length (admitted_at gate s k cs) - 1)) first_gap
          in Some (last (admitted_at gate s k cs) + int b, b))"
proof (induction cs rule: rev_induct)
  case Nil
  with assms show ?case by simp
next
  case (snoc c cs)
  obtain j t where c: "c = (j, t)" by (cases c)
  let ?s = "gate_run gate s cs" and ?ts = "admitted_at gate s k cs"
  show ?case
  proof (cases "j = k")
    case False
    with snoc c show ?thesis by (simp add: other)
  next
    case True
    show ?thesis
    proof (cases "?ts = []")
      case True
      then have "slot ?s k = None" using snoc by simp
      from first [OF this, of t] True \<open>j = k\<close> c show ?thesis by simp
    next
      case ne: False
      define b where "b = (grow ^^ (length ?ts - 1)) first_gap"
      have sl: "slot ?s k = Some (last ?ts + int b, b)"
        using snoc ne by (simp add: b_def Let_def)
      have up: "grow b = (grow ^^ length ?ts) first_gap"
        using ne by (cases "length ?ts") (auto simp: b_def)
      show ?thesis
      proof (cases "last ?ts + int b \<le> t")
        case True
        from late [OF sl this] ne \<open>j = k\<close> c up show ?thesis by (simp add: Let_def)
      next
        case False
        then have "gate ?s k t = (?s, False)" using early [OF sl] by simp
        with snoc ne \<open>j = k\<close> c show ?thesis by simp
      qed
    qed
  qed
qed

lemma admitted_spaced:
  assumes "slot s k = None" and "Suc i < length (admitted_at gate s k cs)"
  shows "admitted_at gate s k cs ! i + int ((grow ^^ i) first_gap) \<le> admitted_at gate s k cs ! Suc i"
  using assms(2)
proof (induction cs rule: rev_induct)
  case Nil
  then show ?case by simp
next
  case (snoc c cs)
  obtain j t where c: "c = (j, t)" by (cases c)
  let ?s = "gate_run gate s cs" and ?ts = "admitted_at gate s k cs"
  show ?case
  proof (cases "Suc i < length ?ts")
    case True
    with snoc c show ?thesis by (simp add: nth_append)
  next
    case False
    then have adm: "j = k" "snd (gate ?s k t)" "length ?ts = Suc i"
      using snoc.prems c by (auto split: if_splits)
    have ne: "?ts \<noteq> []" using adm(3) by auto
    have l: "last ?ts = ?ts ! i"
      using adm(3) last_conv_nth [OF ne] by simp
    have sl: "slot ?s k = Some (?ts ! i + int ((grow ^^ i) first_gap), (grow ^^ i) first_gap)"
      using slot_run [OF assms(1), of cs] ne adm(3) l by (simp add: Let_def)
    have "?ts ! i + int ((grow ^^ i) first_gap) \<le> t"
      using adm(2) early [OF sl, of t] by fastforce
    with adm c show ?thesis by (simp add: nth_append)
  qed
qed

lemma admitted_after_gap:
  assumes "slot s k = None"
    and "case admitted_at gate s k cs of [] \<Rightarrow> True
         | ts \<Rightarrow> last ts + int ((grow ^^ (length ts - 1)) first_gap) \<le> t"
  shows "snd (gate (gate_run gate s cs) k t)"
proof (cases "admitted_at gate s k cs = []")
  case True
  with slot_run [OF assms(1), of cs] first show ?thesis by simp
next
  case False
  then have "last (admitted_at gate s k cs)
      + int ((grow ^^ (length (admitted_at gate s k cs) - 1)) first_gap) \<le> t"
    using assms(2) by (simp split: list.splits)
  with slot_run [OF assms(1), of cs] False late show ?thesis by (simp add: Let_def)
qed

text \<open>A key is not affected by the calls of the others.\<close>

lemma admitted_independent:
  "slot s k = slot s' k \<Longrightarrow>
   admitted_at gate s k cs = admitted_at gate s' k (filter (\<lambda>c. fst c = k) cs)"
proof (induction cs arbitrary: s s')
  case Nil
  then show ?case by simp
next
  case (Cons c cs)
  obtain j t where c: "c = (j, t)" by (cases c)
  show ?case
  proof (cases "j = k")
    case False
    with Cons c show ?thesis by (simp add: other)
  next
    case True
    have "snd (gate s k t) = snd (gate s' k t) \<and> slot (fst (gate s k t)) k = slot (fst (gate s' k t)) k"
    proof (cases "slot s k")
      case None
      with Cons.prems first [of s k t] first [of s' k t] show ?thesis by simp
    next
      case (Some w)
      obtain n b where "w = (n, b)" by (cases w)
      with Some Cons.prems late [of s k n b t] late [of s' k n b t] early [of s k n b t] early [of s' k n b t]
      show ?thesis by (cases "n \<le> t") auto
    qed
    with True c Cons.IH show ?thesis by simp
  qed
qed

end

section \<open>The code is a rate limiter\<close>

definition window_slot :: "windows \<Rightarrow> rstring \<Rightarrow> (instant \<times> duration) option" where
  "window_slot ws kind = map_option (\<lambda>w. (next_allowed w, backoff w)) (ws kind)"

definition double_backoff :: "duration \<Rightarrow> duration" where
  "double_backoff b = min (b * 2) MAX_BACKOFF"

interpretation failure_gate: rate_limiter admit window_slot FIRST_BACKOFF double_backoff
  by unfold_locales (auto simp: admit_def window_slot_def double_backoff_def Let_def split: option.splits)

definition nth_backoff :: "nat \<Rightarrow> duration" where
  "nth_backoff n = min (FIRST_BACKOFF * 2 ^ n) MAX_BACKOFF"

lemma double_backoff_pow: "(double_backoff ^^ n) FIRST_BACKOFF = nth_backoff n"
proof (induction n)
  case 0
  show ?case by (simp add: nth_backoff_def FIRST_BACKOFF_def MAX_BACKOFF_def from_secs_def)
next
  case (Suc n)
  have "(double_backoff ^^ Suc n) FIRST_BACKOFF = min ((double_backoff ^^ n) FIRST_BACKOFF * 2) MAX_BACKOFF"
    by (simp add: double_backoff_def)
  also have "\<dots> = min (min (FIRST_BACKOFF * 2 ^ n) MAX_BACKOFF * 2) MAX_BACKOFF"
    by (simp add: Suc nth_backoff_def)
  also have "\<dots> = nth_backoff (Suc n)"
    by (simp add: nth_backoff_def min_def)
  finally show ?case .
qed

lemma nth_backoff_max: "nth_backoff n \<le> MAX_BACKOFF"
  by (simp add: nth_backoff_def)

definition fresh :: windows where
  "fresh = (\<lambda>_. None)"

lemma fresh_slot [simp]: "window_slot fresh k = None"
  by (simp add: fresh_def window_slot_def)

text \<open>The layer over a sequence of events: each event with the layer's verdict.\<close>

fun layer_run :: "windows \<Rightarrow> (tevent \<times> instant) list \<Rightarrow> (tevent \<times> bool) list" where
  "layer_run ws [] = []"
| "layer_run ws ((ev, now) # es) =
     (let (ws', b) = event_enabled ws ev now in (ev, b) # layer_run ws' es)"

definition is_export_failure :: "tevent \<Rightarrow> bool" where
  "is_export_failure ev \<longleftrightarrow> export_failure_kind ev \<noteq> None"

lemma event_other: "\<not> is_export_failure ev \<Longrightarrow> event_enabled ws ev now = (ws, True)"
  by (simp add: event_enabled_def is_export_failure_def)

lemma layer_run_Cons:
  "layer_run ws ((ev, now) # es) = (ev, snd (event_enabled ws ev now)) # layer_run (fst (event_enabled ws ev now)) es"
  by (simp add: case_prod_beta)

lemma layer_run_failures:
  "filter (\<lambda>p. is_export_failure (fst p)) (layer_run ws es)
     = layer_run ws (filter (\<lambda>p. is_export_failure (fst p)) es)"
proof (induction es arbitrary: ws)
  case (Cons e es)
  then show ?case
    by (cases e; cases "is_export_failure (fst e)") (simp_all add: layer_run_Cons event_other del: layer_run.simps(2))
qed simp

lemma layer_run_others: "(ev, b) \<in> set (layer_run ws es) \<Longrightarrow> \<not> is_export_failure ev \<Longrightarrow> b"
proof (induction es arbitrary: ws)
  case (Cons e es)
  then show ?case
    by (cases e) (auto simp: layer_run_Cons event_other simp del: layer_run.simps(2))
qed simp

lemma export_failure_conds:
  "is_export_failure ev \<Longrightarrow> \<not> WARN < md_level (te_meta ev) \<and> starts_with (md_target (te_meta ev)) (lit ''opentelemetry'')"
  by (auto simp: is_export_failure_def export_failure_kind_def Let_def split: if_splits)

section \<open>Properties\<close>

text \<open>
  C10. The lines of one kind of failure are spaced: whatever the calls and the order of their
  clock readings, between the n-th admission of a kind and the next lie at least a minute
  doubled n times, and an hour from the sixth on.
\<close>

theorem failures_spaced_by_backoff:
  assumes "Suc n < length (admitted_at admit fresh k cs)"
  shows "admitted_at admit fresh k cs ! n + int (min (from_secs (60 * 2 ^ n)) (from_secs 3600))
    \<le> admitted_at admit fresh k cs ! Suc n"
  using failure_gate.admitted_spaced [OF fresh_slot assms] unfolding double_backoff_pow
  by (simp add: nth_backoff_def FIRST_BACKOFF_def MAX_BACKOFF_def from_secs_def mult.commute)

theorem failures_spaced_by_backoff_witness:
  "admitted_at admit fresh (lit ''E'') [(lit ''E'', 0), (lit ''E'', 59 * 10 ^ 9), (lit ''E'', 61 * 10 ^ 9)] ! 0
     + int (from_secs 60) \<le> 61 * 10 ^ 9"
proof -
  have "admitted_at admit fresh (lit ''E'') [(lit ''E'', 0), (lit ''E'', 59 * 10 ^ 9), (lit ''E'', 61 * 10 ^ 9)]
      = [0, 61 * 10 ^ 9]"
    by (simp add: admit_def fresh_def FIRST_BACKOFF_def from_secs_def Let_def)
  with failures_spaced_by_backoff [of 0 "lit ''E''" "[(lit ''E'', 0), (lit ''E'', 59 * 10 ^ 9), (lit ''E'', 61 * 10 ^ 9)]"]
  show ?thesis by (simp add: from_secs_def)
qed

text \<open>
  C11. No kind is silenced: the first failure of a kind is let through, and so is every failure
  at least an hour after the last one that was, whatever happened before and in between.
\<close>

theorem failure_logged_within_the_hour:
  assumes "\<forall>u\<in>set (admitted_at admit fresh k cs). u + int (from_secs 3600) \<le> t"
  shows "snd (admit (gate_run admit fresh cs) k t)"
proof -
  have "last ts + int (nth_backoff (length ts - 1)) \<le> t" if "ts = admitted_at admit fresh k cs" "ts \<noteq> []" for ts
    using assms that nth_backoff_max [of "length ts - 1"] last_in_set [of ts]
    by (fastforce simp: MAX_BACKOFF_def)
  then show ?thesis
    by (intro failure_gate.admitted_after_gap [OF fresh_slot])
       (auto simp: double_backoff_pow split: list.split)
qed

theorem failure_logged_within_the_hour_witness:
  "snd (admit (gate_run admit fresh [(lit ''E'', 0), (lit ''E'', 5)]) (lit ''E'') (3600 * 10 ^ 9))"
  by (rule failure_logged_within_the_hour)
     (simp add: admit_def fresh_def FIRST_BACKOFF_def from_secs_def)

text \<open>
  Kinds are independent: which failures of a kind are logged depends only on the failures
  of that kind, not on how often others fail.
\<close>

lemma kinds_are_independent:
  "admitted_at admit fresh k cs = admitted_at admit fresh k (filter (\<lambda>c. fst c = k) cs)"
  by (rule failure_gate.admitted_independent) simp

text \<open>
  Nothing else is filtered: in any sequence of events, one that is not an export failure of
  the SDK (any event above a warning, any event of another target) passes, and the verdicts on
  the export failures are those they would have had without the other events.
\<close>

lemma only_export_failures_are_limited:
  "(\<forall>(ev, b)\<in>set (layer_run fresh es).
      WARN < md_level (te_meta ev) \<or> \<not> starts_with (md_target (te_meta ev)) (lit ''opentelemetry'')
        \<or> \<not> is_export_failure ev \<longrightarrow> b)
   \<and> filter (\<lambda>p. is_export_failure (fst p)) (layer_run fresh es)
      = layer_run fresh (filter (\<lambda>p. is_export_failure (fst p)) es)"
proof
  show "\<forall>(ev, b)\<in>set (layer_run fresh es).
      WARN < md_level (te_meta ev) \<or> \<not> starts_with (md_target (te_meta ev)) (lit ''opentelemetry'')
        \<or> \<not> is_export_failure ev \<longrightarrow> b"
    using layer_run_others export_failure_conds by blast
qed (rule layer_run_failures)

definition app_event :: tevent where
  "app_event = \<lparr>te_meta = \<lparr>md_name = lit ''event'', md_target = lit ''orders'', md_level = ERROR\<rparr>, te_fields = []\<rparr>"

lemma only_export_failures_are_limited_witness:
  "layer_run fresh [(app_event, 0), (app_event, 1)] = [(app_event, True), (app_event, True)]"
proof -
  have "\<not> starts_with (md_target (te_meta app_event)) (lit ''opentelemetry'')"
    by (simp add: app_event_def lit_def)
  with only_export_failures_are_limited [of "[(app_event, 0), (app_event, 1)]"] show ?thesis
    by (simp add: layer_run_Cons del: layer_run.simps(2))
qed

end
