(* ===== verification/LogBridgeProps.thy ===== *)
theory LogBridgeProps
  imports LogBridge
begin

text \<open>
  The contract of the log bridge over every sequence of operations of a process: spans opening,
  attributes written on them, events. What a span holds, what a record carries and in which
  precedence, and that nothing leaks from a span into the records of others.
\<close>

section \<open>Sequences of operations\<close>

datatype bridge_op =
    NewSpan "field list"
  | RecordAttr "nat option" rstring any_value
  | RequestId "nat option" rstring
  | EmitEvent tevent "span_ref option"

fun bridge_do :: "rstring list \<Rightarrow> hash_order \<Rightarrow> world \<Rightarrow> bridge_op \<Rightarrow> world" where
  "bridge_do ks order w (NewSpan attrs) =
     on_new_span ks attrs (length (wd_spans w)) (span_opened w)"
| "bridge_do ks order w (RecordAttr sp k v) = record_span_log_attr_on True sp k v w"
| "bridge_do ks order w (RequestId sp rid) = emit_request_id_on True sp rid w"
| "bridge_do ks order w (EmitEvent ev sp) = on_event order ev sp w"

definition bridge_run :: "rstring list \<Rightarrow> hash_order \<Rightarrow> bridge_op list \<Rightarrow> world" where
  "bridge_run ks order ops = foldl (bridge_do ks order) \<lparr>wd_spans = [], wd_emitted = []\<rparr> ops"

lemma bridge_run_Nil [simp]: "wd_spans (bridge_run ks order []) = []" "wd_emitted (bridge_run ks order []) = []"
  by (simp_all add: bridge_run_def)

lemma bridge_run_snoc [simp]: "bridge_run ks order (ops @ [c]) = bridge_do ks order (bridge_run ks order ops) c"
  by (simp add: bridge_run_def)

section \<open>What one operation does to the spans\<close>

definition captured :: "rstring list \<Rightarrow> field list \<Rightarrow> (rstring \<times> rstring) list" where
  "captured ks attrs = visit_fields (field_collector_visit ks) [] attrs"

definition opened :: "rstring list \<Rightarrow> field list \<Rightarrow> span_data" where
  "opened ks attrs =
     no_extensions\<lparr>sd_tracked := (if captured ks attrs = [] then None else Some (captured ks attrs))\<rparr>"

definition put_attr :: "rstring \<Rightarrow> any_value \<Rightarrow> span_data \<Rightarrow> span_data" where
  "put_attr k v sd = sd\<lparr>sd_log_attrs := Some (upsert k v (unwrap_or (sd_log_attrs sd) []))\<rparr>"

lemma new_span_spans:
  "wd_spans (bridge_do ks order w (NewSpan attrs)) =
     wd_spans w @ [opened ks attrs]"
  by (simp add: on_new_span_def span_opened_def opened_def captured_def no_extensions_def Let_def)

lemma record_attr_spans:
  "wd_spans (record_span_log_attr_on True sp k v w) =
     (case sp of Some i \<Rightarrow> if i < length (wd_spans w) then (wd_spans w)[i := put_attr k v (wd_spans w ! i)]
                 else wd_spans w
      | None \<Rightarrow> wd_spans w)"
  by (auto simp: record_span_log_attr_on_def put_attr_def Let_def split: option.split)

lemma set_attribute_spans:
  "wd_spans (set_attribute sp k v w) =
     (case sp of Some i \<Rightarrow> if i < length (wd_spans w)
          then (wd_spans w)[i := (wd_spans w ! i)\<lparr>sd_trace_attrs := sd_trace_attrs (wd_spans w ! i) @ [(k, v)]\<rparr>]
          else wd_spans w
      | None \<Rightarrow> wd_spans w)"
  by (auto simp: set_attribute_def split: option.split)

lemma on_event_spans [simp]: "wd_spans (on_event order ev sp w) = wd_spans w"
  by (simp add: on_event_def Let_def)

lemma writers_emitted [simp]:
  "wd_emitted (record_span_log_attr_on b sp k v w) = wd_emitted w"
  "wd_emitted (set_attribute sp k v' w) = wd_emitted w"
  "wd_emitted (emit_request_id_on b sp v' w) = wd_emitted w"
  "wd_emitted (bridge_do ks order w (NewSpan attrs)) = wd_emitted w"
  by (simp_all add: record_span_log_attr_on_def set_attribute_def emit_request_id_on_def on_new_span_def
      span_opened_def Let_def split: option.split)

lemmas spans_simps = new_span_spans record_attr_spans set_attribute_spans emit_request_id_on_def

section \<open>The invariant\<close>

definition span_ok :: "rstring list \<Rightarrow> span_data \<Rightarrow> bool" where
  "span_ok ks sd \<longleftrightarrow>
     (case sd_tracked sd of None \<Rightarrow> True
        | Some xs \<Rightarrow> xs \<noteq> [] \<and> distinct (map fst xs) \<and> fst ` set xs \<subseteq> set ks)
     \<and> (case sd_log_attrs sd of None \<Rightarrow> True | Some ys \<Rightarrow> distinct (map fst ys))"

definition world_ok :: "rstring list \<Rightarrow> world \<Rightarrow> bool" where
  "world_ok ks w \<longleftrightarrow> (\<forall>i<length (wd_spans w). span_ok ks (wd_spans w ! i))"

lemma captured_ok:
  "distinct (map fst (captured ks attrs)) \<and> fst ` set (captured ks attrs) \<subseteq> set ks"
  unfolding captured_def
  by (induction attrs rule: rev_induct)
     (auto simp: field_collector_visit_def upsert_distinct upsert_keys split: fvalue.split)

lemma opened_ok: "span_ok ks (opened ks attrs)"
  using captured_ok [of ks attrs]
  by (auto simp: span_ok_def opened_def no_extensions_def split: option.split)

lemma put_attr_ok: "span_ok ks sd \<Longrightarrow> span_ok ks (put_attr k v sd)"
  by (auto simp: span_ok_def put_attr_def upsert_distinct split: option.splits)

lemma trace_attr_ok: "span_ok ks (sd\<lparr>sd_trace_attrs := xs\<rparr>) = span_ok ks sd"
  by (simp add: span_ok_def)

lemma world_ok_record: "world_ok ks w \<Longrightarrow> world_ok ks (record_span_log_attr_on True sp k v w)"
  by (cases sp) (auto simp: world_ok_def record_attr_spans nth_list_update put_attr_ok)

lemma world_ok_set: "world_ok ks w \<Longrightarrow> world_ok ks (set_attribute sp k v w)"
  by (cases sp) (auto simp: world_ok_def set_attribute_spans nth_list_update trace_attr_ok)

lemma world_ok_do: "world_ok ks w \<Longrightarrow> world_ok ks (bridge_do ks order w c)"
proof (cases c)
  case (NewSpan attrs)
  assume "world_ok ks w"
  then show ?thesis
    unfolding NewSpan world_ok_def new_span_spans
    by (auto simp: nth_append less_Suc_eq opened_ok)
qed (simp_all add: world_ok_record world_ok_set emit_request_id_on_def, simp add: world_ok_def)

lemma world_ok_run: "world_ok ks (bridge_run ks order ops)"
  by (induction ops rule: rev_induct) (auto simp: world_ok_do, simp add: world_ok_def)

lemma extensions_ok: "span_ok ks (extensions (wd_spans (bridge_run ks order ops)) i)"
  using world_ok_run [of ks order ops] by (auto simp: extensions_def world_ok_def span_ok_def no_extensions_def)

lemma extensions_known [simp]: "i < length sp \<Longrightarrow> extensions sp i = sp ! i"
  by (simp add: extensions_def)

section \<open>The record of an event\<close>

definition event_record :: "tevent \<Rightarrow> log_record" where
  "event_record ev = visit_fields log_record_visit (new_log_record (te_meta ev)) (te_fields ev)"

lemma add_attributes: "foldl (\<lambda>lr (k, v). add_attribute k v lr) lr kvs = lr\<lparr>lr_attrs := lr_attrs lr @ kvs\<rparr>"
  by (induction kvs arbitrary: lr) (auto simp: add_attribute_def)

lemma inject_attrs:
  "inject_span_context order sp span lr =
     lr\<lparr>lr_attrs := lr_attrs lr @ concat (map (span_attrs order sp) (scope span))\<rparr>"
proof -
  have "foldl (\<lambda>lr a. foldl (\<lambda>lr (k, v). add_attribute k v lr) lr (span_attrs order sp a)) lr is
      = lr\<lparr>lr_attrs := lr_attrs lr @ concat (map (span_attrs order sp) is)\<rparr>" for "is"
    by (induction "is" arbitrary: lr) (auto simp: add_attributes)
  then show ?thesis by (simp add: inject_span_context_def)
qed

definition scope_of :: "span_ref option \<Rightarrow> nat list" where
  "scope_of sp = (case sp of None \<Rightarrow> [] | Some span \<Rightarrow> scope span)"

lemma on_event_emits:
  "wd_emitted (on_event order ev sp w) = wd_emitted w @
     [(event_record ev)\<lparr>lr_attrs := lr_attrs (event_record ev)
         @ concat (map (span_attrs order (wd_spans w)) (scope_of sp))\<rparr>]"
  by (simp add: on_event_def event_record_def inject_attrs scope_of_def Let_def split: option.split)

text \<open>What a span says of a key: a captured field before an attribute written later.\<close>

definition span_value :: "span_data \<Rightarrow> rstring \<Rightarrow> any_value option" where
  "span_value sd k =
     or_else (map_option AvString (map_of (unwrap_or (sd_tracked sd) []) k))
             (map_of (unwrap_or (sd_log_attrs sd) []) k)"

fun nearest :: "span_data list \<Rightarrow> nat list \<Rightarrow> rstring \<Rightarrow> any_value option" where
  "nearest sp [] k = None"
| "nearest sp (i # is) k = or_else (span_value (extensions sp i) k) (nearest sp is k)"

lemma map_of_append_or_else: "map_of (xs @ ys) k = or_else (map_of xs k) (map_of ys k)"
  by (simp add: or_else_def map_add_def split: option.split)

lemma map_of_map_value: "map_of (map (\<lambda>(k, v). (k, f v)) xs) j = map_option f (map_of xs j)"
  by (induction xs) auto

lemma map_of_permuted:
  assumes "mset xs = mset ys" and "distinct (map fst ys)"
  shows "map_of xs = map_of ys"
proof -
  have "set xs = set ys" using assms(1) by (rule mset_eq_setD)
  moreover have dist: "distinct (map fst xs)"
    using assms mset_eq_imp_distinct_iff [of "map fst xs" "map fst ys"] by (simp add: mset_map)
  ultimately show ?thesis
    using assms(2) by (simp add: map_of_inject_set)
qed

lemma span_attrs_lookup:
  assumes "\<And>i xs. mset (order i xs) = mset xs" and "span_ok ks (extensions sp i)"
  shows "map_of (span_attrs order sp i) k = span_value (extensions sp i) k"
proof -
  have "map_of (order i (unwrap_or (sd_tracked (extensions sp i)) [])) = map_of (unwrap_or (sd_tracked (extensions sp i)) [])"
    using assms by (intro map_of_permuted) (auto simp: span_ok_def split: option.splits)
  then show ?thesis
    by (simp add: span_attrs_def span_value_def map_of_append_or_else map_of_map_value del: map_of_append)
qed

lemma scope_lookup:
  assumes "\<And>i xs. mset (order i xs) = mset xs" and "\<forall>i\<in>set is. span_ok ks (extensions sp i)"
  shows "map_of (concat (map (span_attrs order sp) is)) k = nearest sp is k"
  using assms(2)
  by (induction "is") (simp_all add: map_of_append_or_else span_attrs_lookup [where ks = ks, OF assms(1)] del: map_of_append)

section \<open>The history of a span's attributes\<close>

text \<open>The writes to span \<open>i\<close> among operations that start with \<open>n\<close> spans open.\<close>

fun writes :: "nat \<Rightarrow> bridge_op list \<Rightarrow> nat \<Rightarrow> (rstring \<times> any_value) list" where
  "writes n [] i = []"
| "writes n (NewSpan attrs # ops) i = writes (Suc n) ops i"
| "writes n (RecordAttr sp k v # ops) i = (if sp = Some i \<and> i < n then [(k, v)] else []) @ writes n ops i"
| "writes n (RequestId sp rid # ops) i =
     (if sp = Some i \<and> i < n then [(REQUEST_ID, AvString rid)] else []) @ writes n ops i"
| "writes n (EmitEvent ev sp # ops) i = writes n ops i"

fun opens :: "bridge_op \<Rightarrow> bool" where
  "opens (NewSpan _) = True" | "opens _ = False"

lemma writes_append: "writes n (ops @ ops') i = writes n ops i @ writes (n + length (filter opens ops)) ops' i"
  by (induction n ops i rule: writes.induct) auto

lemma spans_do_length: "length (wd_spans (bridge_do ks order w c)) = length (wd_spans w) + (if opens c then 1 else 0)"
  by (cases c) (auto simp: spans_simps simp del: bridge_do.simps(1) split: option.split)

lemma spans_run_length: "length (wd_spans (bridge_run ks order ops)) = length (filter opens ops)"
  by (induction ops rule: rev_induct) (auto simp: spans_do_length)

definition log_attrs_of :: "world \<Rightarrow> nat \<Rightarrow> (rstring \<times> any_value) list" where
  "log_attrs_of w i = unwrap_or (sd_log_attrs (wd_spans w ! i)) []"

lemma log_attrs_do:
  assumes "i < length (wd_spans w)"
  shows "log_attrs_of (bridge_do ks order w c) i
    = attr_list.puts (writes (length (wd_spans w)) [c] i) (log_attrs_of w i)"
proof (cases c)
  case (NewSpan attrs)
  with assms show ?thesis
    by (simp add: log_attrs_of_def new_span_spans nth_append attr_list.puts_def del: bridge_do.simps(1))
qed (use assms in \<open>auto simp: log_attrs_of_def spans_simps put_attr_def attr_list.puts_def nth_list_update
       split: option.split\<close>)

lemma log_attrs_new:
  "i = length (wd_spans w) \<Longrightarrow> opens c \<Longrightarrow> log_attrs_of (bridge_do ks order w c) i = []"
  by (cases c) (simp_all add: log_attrs_of_def new_span_spans opened_def no_extensions_def del: bridge_do.simps(1))

lemma writes_before: "n + length (filter opens ops) \<le> i \<Longrightarrow> writes n ops i = []"
  by (induction n ops i rule: writes.induct) auto

lemma log_attrs_run:
  "i < length (wd_spans (bridge_run ks order ops)) \<Longrightarrow>
   log_attrs_of (bridge_run ks order ops) i = attr_list.puts (writes 0 ops i) []"
proof (induction ops rule: rev_induct)
  case (snoc c ops)
  let ?w = "bridge_run ks order ops"
  show ?case
  proof (cases "i < length (wd_spans ?w)")
    case True
    with snoc.IH log_attrs_do [OF True] show ?thesis
      by (simp add: writes_append attr_list.puts_def spans_run_length)
  next
    case False
    then have new: "i = length (wd_spans ?w)" "opens c"
      using snoc.prems by (auto simp: spans_do_length split: if_splits)
    then have "writes 0 ops i = []" using writes_before [of 0 ops i] by (simp add: spans_run_length)
    moreover have "writes n [c] i = []" for n
      using new(2) by (cases c) simp_all
    ultimately show ?thesis
      using log_attrs_new [OF new] by (simp add: writes_append attr_list.puts_def)
  qed
qed simp

lemma trace_do:
  "j < length (wd_spans w) \<Longrightarrow>
   (\<forall>x\<in>set (sd_trace_attrs (wd_spans w ! j)). x \<in> set (sd_trace_attrs (wd_spans (bridge_do ks order w c) ! j)))"
  by (cases c) (auto simp: spans_simps nth_append nth_list_update put_attr_def simp del: bridge_do.simps(1)
      split: option.split)

lemma trace_attrs_kept:
  assumes "j < length (wd_spans (bridge_run ks order ops))"
    and "x \<in> set (sd_trace_attrs (wd_spans (bridge_run ks order ops) ! j))"
  shows "x \<in> set (sd_trace_attrs (wd_spans (bridge_run ks order (ops @ ops')) ! j))"
proof (induction ops' rule: rev_induct)
  case Nil
  show ?case using assms(2) by simp
next
  case (snoc c ops')
  have "j < length (wd_spans (bridge_run ks order (ops @ ops')))"
    using assms(1) by (simp add: spans_run_length)
  from trace_do [OF this] snoc show ?case
    by (simp flip: append_assoc)
qed

section \<open>Properties\<close>

definition hello :: tevent where
  "hello = \<lparr>te_meta = \<lparr>md_name = lit ''event'', md_target = lit ''orders'', md_level = INFO\<rparr>,
     te_fields = [\<lparr>fd_name = lit ''message'', fd_value = DebugV, fd_debug = lit ''hello''\<rparr>]\<rparr>"

definition rq_ops :: "bridge_op list" where
  "rq_ops = [NewSpan [], RequestId (Some 0) (lit ''old''), NewSpan []]"

text \<open>
  C15. The nearest value wins: in every history, the record of an event reads, for each key, the
  event's own field, else the value of the nearest enclosing span that has the key, a captured
  field before an attribute written later, whatever the iteration order of the hash maps.
\<close>

theorem record_takes_nearest_value:
  assumes "\<And>i xs. mset (order i xs) = mset xs" and "w = bridge_run ks order ops"
  shows "\<exists>lr. wd_emitted (on_event order ev sp w) = wd_emitted w @ [lr]
    \<and> (\<forall>k. map_of (lr_attrs lr) k =
          or_else (map_of (lr_attrs (event_record ev)) k) (nearest (wd_spans w) (scope_of sp) k))"
proof -
  have "\<forall>i\<in>set (scope_of sp). span_ok ks (extensions (wd_spans w) i)"
    by (simp add: assms(2) extensions_ok)
  from scope_lookup [OF assms(1) this] show ?thesis
    by (simp add: on_event_emits map_of_append_or_else del: map_of_append)
qed

theorem record_takes_nearest_value_witness:
  "\<exists>lr. wd_emitted (on_event (\<lambda>i. rev) hello (Some \<lparr>sr_id = 1, scope = [1, 0]\<rparr>) (bridge_run [] (\<lambda>i. rev) rq_ops)) = [lr]
     \<and> map_of (lr_attrs lr) REQUEST_ID =
         or_else (map_of (lr_attrs (event_record hello)) REQUEST_ID) (Some (AvString (lit ''old'')))"
proof -
  let ?w = "bridge_run [] (\<lambda>i. rev) rq_ops" and ?sp = "Some \<lparr>sr_id = 1, scope = [1, 0]\<rparr>"
  have sp: "wd_spans ?w = [put_attr REQUEST_ID (AvString (lit ''old'')) ((opened [] [])
      \<lparr>sd_trace_attrs := [(REQUEST_ID, lit ''old'')]\<rparr>), opened [] []]"
    by (simp add: bridge_run_def rq_ops_def spans_simps opened_def no_extensions_def del: bridge_do.simps(1))
  have "nearest (wd_spans ?w) (scope_of ?sp) REQUEST_ID = Some (AvString (lit ''old''))"
    by (simp add: scope_of_def sp opened_def no_extensions_def captured_def put_attr_def span_value_def)
  moreover have "wd_emitted ?w = []"
    by (simp add: bridge_run_def rq_ops_def del: bridge_do.simps(1))
  ultimately show ?thesis
    using record_takes_nearest_value [of "\<lambda>i. rev" ?w "[]" rq_ops hello ?sp] by fastforce
qed

text \<open>
  Attributes are upserted: in every history, a span's log attributes hold one entry per key
  ever written on it since it opened, with the value written last.
\<close>

lemma last_write_wins:
  assumes "i < length (wd_spans (bridge_run ks order ops))"
  shows "map_of (log_attrs_of (bridge_run ks order ops) i) k = map_of (rev (writes 0 ops i)) k
    \<and> distinct (map fst (log_attrs_of (bridge_run ks order ops) i))"
  using log_attrs_run [OF assms] attr_list.look_puts [of "writes 0 ops i" "[]" k]
    attr_list.puts_distinct [of "[]" "writes 0 ops i"]
  by (simp split: option.split)

lemma last_write_wins_witness:
  "map_of (log_attrs_of (bridge_run [] (\<lambda>i. rev) (rq_ops @ [RequestId (Some 0) (lit ''new'')])) 0) REQUEST_ID
     = Some (AvString (lit ''new''))"
  using last_write_wins [of 0 "[]" "\<lambda>i. rev" "rq_ops @ [RequestId (Some 0) (lit ''new'')]" REQUEST_ID]
  by (simp add: spans_run_length rq_ops_def del: bridge_run_snoc)

text \<open>The fields each span was opened with, in the order of the spans.\<close>

fun openings :: "bridge_op list \<Rightarrow> field list list" where
  "openings [] = []"
| "openings (NewSpan attrs # ops) = attrs # openings ops"
| "openings (c # ops) = openings ops"

lemma openings_append [simp]: "openings (xs @ ys) = openings xs @ openings ys"
  by (induction xs rule: openings.induct) simp_all

lemma openings_length: "length (openings ops) = length (filter opens ops)"
  by (induction ops rule: openings.induct) simp_all

lemma tracked_do:
  "j < length (wd_spans w) \<Longrightarrow> sd_tracked (wd_spans (bridge_do ks order w c) ! j) = sd_tracked (wd_spans w ! j)"
  by (cases c) (auto simp: spans_simps nth_append nth_list_update put_attr_def simp del: bridge_do.simps(1)
      split: option.split)

text \<open>What is captured of a span when it opens is never changed.\<close>

lemma tracked_run:
  "i < length (openings ops) \<Longrightarrow> sd_tracked (wd_spans (bridge_run ks order ops) ! i) =
     (if captured ks (openings ops ! i) = [] then None else Some (captured ks (openings ops ! i)))"
proof (induction ops rule: rev_induct)
  case (snoc c ops)
  have len: "length (wd_spans (bridge_run ks order ops)) = length (openings ops)"
    by (simp add: spans_run_length openings_length)
  show ?case
  proof (cases "i < length (openings ops)")
    case True
    with snoc.IH tracked_do [of i "bridge_run ks order ops" ks order c] show ?thesis
      by (simp add: len nth_append)
  next
    case False
    with snoc.prems obtain attrs where "c = NewSpan attrs" "i = length (openings ops)"
      by (cases c) (auto simp: less_Suc_eq)
    then show ?thesis
      using new_span_spans [of ks order "bridge_run ks order ops" attrs]
      by (simp add: nth_append len opened_def del: bridge_do.simps(1))
  qed
qed simp

text \<open>A captured field: the text of a string, the debug form of anything else without its quotes.\<close>

definition field_text :: "field \<Rightarrow> rstring" where
  "field_text fd = (case fd_value fd of StrV s \<Rightarrow> s | _ \<Rightarrow> trim_matches 34 (fd_debug fd))"

lemma captured_value:
  "map_of (captured ks attrs) k =
     (if k \<in> set ks then map_of (rev (map (\<lambda>fd. (fd_name fd, field_text fd)) attrs)) k else None)"
  unfolding captured_def
  by (induction attrs rule: rev_induct)
     (auto simp: field_collector_visit_def field_text_def upsert_map_of split: fvalue.split)

text \<open>
  C16. What a span holds keeps its shape and is never lost. In every history, whatever else happened
  since it opened, a span holds captured fields exactly when it was opened with one to be propagated;
  they have one entry per name, only names to be propagated, and for each of these the value of the
  last field of that name the span was opened with; and its log attributes have one entry per key
  written on it since, with the value written last.
\<close>

theorem spans_keep_their_shape:
  assumes "i < length (wd_spans (bridge_run ks order ops))"
    and "sd = wd_spans (bridge_run ks order ops) ! i" and "attrs = openings ops ! i"
  shows "(sd_tracked sd = None \<longleftrightarrow> (\<forall>fd\<in>set attrs. fd_name fd \<notin> set ks))
    \<and> (\<forall>xs. sd_tracked sd = Some xs \<longrightarrow> distinct (map fst xs) \<and> fst ` set xs \<subseteq> set ks
        \<and> (\<forall>k\<in>set ks. map_of xs k = map_of (rev (map (\<lambda>fd. (fd_name fd, field_text fd)) attrs)) k))
    \<and> (\<forall>ys. sd_log_attrs sd = Some ys \<longrightarrow> distinct (map fst ys))
    \<and> (\<forall>k. map_of (unwrap_or (sd_log_attrs sd) []) k = map_of (rev (writes 0 ops i)) k)"
proof -
  have i: "i < length (openings ops)"
    using assms(1) by (simp add: spans_run_length openings_length)
  note tracked = tracked_run [OF i, of ks order]
  have none: "captured ks attrs = [] \<longleftrightarrow> (\<forall>fd\<in>set attrs. fd_name fd \<notin> set ks)"
  proof -
    have "captured ks attrs = [] \<longleftrightarrow> (\<forall>k. map_of (captured ks attrs) k = None)"
      by (cases "captured ks attrs") auto
    also have "\<dots> \<longleftrightarrow> (\<forall>fd\<in>set attrs. fd_name fd \<notin> set ks)"
      by (auto simp: captured_value map_of_eq_None_iff image_image)
    finally show ?thesis .
  qed
  have "\<forall>k. map_of (unwrap_or (sd_log_attrs sd) []) k = map_of (rev (writes 0 ops i)) k"
    using last_write_wins [OF assms(1)] assms(2) by (simp add: log_attrs_of_def)
  moreover have "\<forall>ys. sd_log_attrs sd = Some ys \<longrightarrow> distinct (map fst ys)"
    using last_write_wins [OF assms(1)] assms(2) by (auto simp: log_attrs_of_def)
  ultimately show ?thesis
    using tracked none captured_ok [of ks attrs] assms(2,3)
    by (auto simp: captured_value split: if_splits)
qed

theorem spans_keep_their_shape_witness:
  "sd_tracked (wd_spans (bridge_run [lit ''a'', lit ''b''] (\<lambda>_ xs. xs)
      [NewSpan [str_field (lit ''a'') (lit ''1''), str_field (lit ''c'') (lit ''2''), str_field (lit ''a'') (lit ''3'')],
       RequestId (Some 0) (lit ''r'')]) ! 0) \<noteq> None
   \<and> map_of (unwrap_or (sd_log_attrs (wd_spans (bridge_run [lit ''a'', lit ''b''] (\<lambda>_ xs. xs)
      [NewSpan [str_field (lit ''a'') (lit ''1''), str_field (lit ''c'') (lit ''2''), str_field (lit ''a'') (lit ''3'')],
       RequestId (Some 0) (lit ''r'')]) ! 0)) []) REQUEST_ID = Some (AvString (lit ''r''))"
  using spans_keep_their_shape [of 0 "[lit ''a'', lit ''b'']" "\<lambda>_ xs. xs"
      "[NewSpan [str_field (lit ''a'') (lit ''1''), str_field (lit ''c'') (lit ''2''), str_field (lit ''a'') (lit ''3'')],
       RequestId (Some 0) (lit ''r'')]", OF _ refl refl]
  by (simp add: spans_run_length str_field_def)

text \<open>
  Nothing leaks: what a record carries beyond its event's own fields is exactly what the
  spans around the event hold, and the spans change neither its body nor its severity, target
  or name; so an event outside all spans carries its own fields only.
\<close>

lemma record_holds_only_its_scope:
  assumes "\<And>i xs. mset (order i xs) = mset xs"
  shows "\<exists>lr. wd_emitted (on_event order ev sp w) = wd_emitted w @ [lr]
    \<and> set (lr_attrs lr) = set (lr_attrs (event_record ev))
        \<union> (\<Union>i\<in>set (scope_of sp). (\<lambda>(k, v). (k, AvString v)) ` set (unwrap_or (sd_tracked (extensions (wd_spans w) i)) [])
             \<union> set (unwrap_or (sd_log_attrs (extensions (wd_spans w) i)) []))
    \<and> lr\<lparr>lr_attrs := []\<rparr> = (event_record ev)\<lparr>lr_attrs := []\<rparr>"
proof -
  have "set (span_attrs order (wd_spans w) i) = (\<lambda>(k, v). (k, AvString v)) ` set (unwrap_or (sd_tracked (extensions (wd_spans w) i)) [])
      \<union> set (unwrap_or (sd_log_attrs (extensions (wd_spans w) i)) [])" for i
    using mset_eq_setD [OF assms] by (simp add: span_attrs_def)
  then show ?thesis by (simp add: on_event_emits)
qed

lemma record_holds_only_its_scope_witness:
  "\<exists>lr. wd_emitted (on_event (\<lambda>i. rev) hello None (bridge_run [] (\<lambda>i. rev) rq_ops)) = wd_emitted (bridge_run [] (\<lambda>i. rev) rq_ops) @ [lr]
     \<and> set (lr_attrs lr) = set (lr_attrs (event_record hello))"
  using record_holds_only_its_scope [of "\<lambda>i. rev" hello None "bridge_run [] (\<lambda>i. rev) rq_ops"] by (simp add: scope_of_def) blast

text \<open>A request id set on a span stays there, whatever happens short of writing it anew.\<close>

lemma request_id_kept:
  assumes "i < length (wd_spans (bridge_run ks order ops))"
    and "\<forall>v. (REQUEST_ID, v) \<notin> set (writes (length (filter opens ops)) ops' i)"
  shows "(REQUEST_ID, AvString rid) \<in> set (span_attrs order (wd_spans (bridge_run ks order (ops @ RequestId (Some i) rid # ops'))) i)"
    and "(REQUEST_ID, rid) \<in> set (sd_trace_attrs (wd_spans (bridge_run ks order (ops @ RequestId (Some i) rid # ops')) ! i))"
proof -
  let ?ops = "ops @ RequestId (Some i) rid # ops'" and ?w = "bridge_run ks order (ops @ RequestId (Some i) rid # ops')"
  have i: "i < length (filter opens ops)" "i < length (wd_spans ?w)"
    using assms(1) by (simp_all add: spans_run_length)
  have "writes 0 ?ops i = writes 0 ops i @ (REQUEST_ID, AvString rid) # writes (length (filter opens ops)) ops' i"
    using i(1) by (simp add: writes_append)
  moreover have "map_of (rev (writes (length (filter opens ops)) ops' i)) REQUEST_ID = None"
    using assms(2) by (auto simp: map_of_eq_None_iff)
  ultimately have "map_of (rev (writes 0 ?ops i)) REQUEST_ID = Some (AvString rid)"
    by (simp add: map_add_def)
  then have "map_of (log_attrs_of ?w i) REQUEST_ID = Some (AvString rid)"
    using log_attrs_run [OF i(2)] attr_list.look_puts [of "writes 0 ?ops i" "[]" REQUEST_ID] by simp
  then show "(REQUEST_ID, AvString rid) \<in> set (span_attrs order (wd_spans ?w) i)"
    using extensions_known [OF i(2)] by (auto simp: span_attrs_def log_attrs_of_def dest: map_of_SomeD)
  show "(REQUEST_ID, rid) \<in> set (sd_trace_attrs (wd_spans ?w ! i))"
    using trace_attrs_kept [of i ks order "ops @ [RequestId (Some i) rid]" "(REQUEST_ID, rid)" ops'] assms(1)
    by (simp add: spans_simps put_attr_def spans_run_length)
qed

text \<open>
  A request id set on a span reaches both signals for good: whatever happens afterwards,
  short of writing it anew on that span, the span's trace attributes hold it and so does the
  record of every event inside the span or a descendant of it.
\<close>

lemma request_id_reaches_every_record:
  assumes "i < length (wd_spans (bridge_run ks order ops))"
    and "w = bridge_run ks order (ops @ RequestId (Some i) rid # ops')"
    and "\<forall>v. (REQUEST_ID, v) \<notin> set (writes (length (filter opens ops)) ops' i)"
    and "i \<in> set (scope_of sp)"
  shows "\<exists>lr. wd_emitted (on_event order ev sp w) = wd_emitted w @ [lr]
    \<and> (REQUEST_ID, AvString rid) \<in> set (lr_attrs lr)
    \<and> (REQUEST_ID, rid) \<in> set (sd_trace_attrs (wd_spans w ! i))"
  using request_id_kept [OF assms(1,3)] assms(2,4) by (auto simp: on_event_emits)

lemma request_id_reaches_every_record_witness:
  "\<exists>lr. wd_emitted (on_event (\<lambda>i. rev) hello (Some \<lparr>sr_id = 1, scope = [1, 0]\<rparr>) (bridge_run [] (\<lambda>i. rev) rq_ops)) = [lr]
     \<and> (REQUEST_ID, AvString (lit ''old'')) \<in> set (lr_attrs lr)"
proof -
  let ?w = "bridge_run [] (\<lambda>i. rev) rq_ops"
  have "0 \<in> set (scope_of (Some \<lparr>sr_id = 1, scope = [1, 0]\<rparr>))"
    by (simp add: scope_of_def)
  moreover have "wd_emitted ?w = []"
    by (simp add: bridge_run_def rq_ops_def del: bridge_do.simps(1))
  ultimately show ?thesis
    using request_id_reaches_every_record [of 0 "[]" "\<lambda>i. rev" "[NewSpan []]" ?w "lit ''old''"
        "[NewSpan []]" "Some \<lparr>sr_id = 1, scope = [1, 0]\<rparr>" hello]
    by (simp add: spans_run_length rq_ops_def) blast
qed

end
