(* ===== verification/Pipeline.thy ===== *)
theory Pipeline
  imports InitProps ExportBackoff LogBridgeProps BootContract "HOL-Library.Sublist"
begin

text \<open>
  What becomes of an event in a process with telemetry: the stack of layers that \<open>init\<close>
  (\<open>src/src/lib.rs\<close>) installs, the back-off of \<open>export_backoff.rs\<close> in it and the log
  bridge of \<open>log_bridge.rs\<close> on top of it. How a stack of layers treats an event is the
  library's: a parameter, of which \<open>layered\<close> states what it documents.
\<close>

section \<open>Layers\<close>

text \<open>
  The layers that are not the program's: whether the filter of a directive, which may name spans, and
  the extra layers want a callsite in a span, and whether an extra layer lets an event through.
\<close>

record layer_env =
  le_filter :: "rstring option \<Rightarrow> metadata \<Rightarrow> span_ref option \<Rightarrow> bool"
  le_extra :: "nat \<Rightarrow> metadata \<Rightarrow> span_ref option \<Rightarrow> bool"
  le_extra_event :: "nat \<Rightarrow> tevent \<Rightarrow> span_ref option \<Rightarrow> bool"
  le_order :: hash_order

record pipeline =
  pp_windows :: windows
  pp_console :: "(tevent \<times> instant) list"
  pp_extra :: "(nat \<times> tevent) list"
  pp_span_events :: "(nat \<times> tevent) list"
  pp_world :: world

definition idle :: pipeline where
  "idle = \<lparr>pp_windows = fresh, pp_console = [], pp_extra = [], pp_span_events = [],
     pp_world = \<lparr>wd_spans = [], wd_emitted = []\<rparr>\<rparr>"

text \<open>
  Whether a layer wants a callsite at all. A list of layers wants what each of them wants, and an
  empty list, which answers that no event will ever interest it, wants nothing.
\<close>

fun layer_enabled :: "layer_env \<Rightarrow> metadata \<Rightarrow> span_ref option \<Rightarrow> layer \<Rightarrow> bool" where
  "layer_enabled env meta sp (ExtraLayers xs) \<longleftrightarrow> xs \<noteq> [] \<and> list_all (\<lambda>x. le_extra env x meta sp) xs"
| "layer_enabled env meta sp (FilterLayer d) \<longleftrightarrow> le_filter env d meta sp"
| "layer_enabled env meta sp _ \<longleftrightarrow> True"

text \<open>Whether a layer lets an event that occurs through.\<close>

fun layer_event_enabled ::
    "layer_env \<Rightarrow> tevent \<Rightarrow> span_ref option \<Rightarrow> instant \<Rightarrow> layer \<Rightarrow> pipeline \<Rightarrow> pipeline \<times> bool" where
  "layer_event_enabled env ev sp now FailureBackoff pp =
     (let (ws, b) = event_enabled (pp_windows pp) ev now in (pp\<lparr>pp_windows := ws\<rparr>, b))"
| "layer_event_enabled env ev sp now (ExtraLayers xs) pp = (pp, list_all (\<lambda>x. le_extra_event env x ev sp) xs)"
| "layer_event_enabled env ev sp now _ pp = (pp, True)"

text \<open>What a layer does with an event.\<close>

fun layer_on_event :: "layer_env \<Rightarrow> tevent \<Rightarrow> span_ref option \<Rightarrow> instant \<Rightarrow> layer \<Rightarrow> pipeline \<Rightarrow> pipeline" where
  "layer_on_event env ev sp now (ExtraLayers xs) pp = pp\<lparr>pp_extra := pp_extra pp @ map (\<lambda>x. (x, ev)) xs\<rparr>"
| "layer_on_event env ev sp now (FmtLayer f) pp = pp\<lparr>pp_console := pp_console pp @ [(ev, now)]\<rparr>"
| "layer_on_event env ev sp now OtelLayer pp =
     (case sp of None \<Rightarrow> pp | Some span \<Rightarrow> pp\<lparr>pp_span_events := pp_span_events pp @ [(sr_id span, ev)]\<rparr>)"
| "layer_on_event env ev sp now (LogBridge ks) pp = pp\<lparr>pp_world := on_event (le_order env) ev sp (pp_world pp)\<rparr>"
| "layer_on_event env ev sp now _ pp = pp"

section \<open>Stacks\<close>

text \<open>The layers are asked in turn, and one that says no ends it.\<close>

fun ask :: "layer_env \<Rightarrow> tevent \<Rightarrow> span_ref option \<Rightarrow> instant \<Rightarrow> layer list \<Rightarrow> pipeline \<Rightarrow> pipeline \<times> bool" where
  "ask env ev sp now [] pp = (pp, True)"
| "ask env ev sp now (l # ls) pp =
     (let (pp', b) = layer_event_enabled env ev sp now l pp in if b then ask env ev sp now ls pp' else (pp', False))"

type_synonym dispatcher = "layer list \<Rightarrow> pipeline \<Rightarrow> tevent \<Rightarrow> span_ref option \<Rightarrow> instant \<Rightarrow> pipeline"

text \<open>
  What \<open>tracing-subscriber\<close> documents of a stack, given from the inside: an event whose
  callsite some layer does not want goes to none of them; of another the layers are asked from the
  outside in, and if all let it through each is given it from the inside out.
\<close>

definition layered :: "layer_env \<Rightarrow> dispatcher \<Rightarrow> bool" where
  "layered env dispatch \<longleftrightarrow>
     (\<forall>layers pp ev sp now. dispatch layers pp ev sp now =
        (if list_all (layer_enabled env (te_meta ev) sp) layers then
           let (pp', b) = ask env ev sp now (rev layers) pp
           in if b then foldl (\<lambda>pp l. layer_on_event env ev sp now l pp) pp' layers else pp'
         else pp))"

text \<open>A process: events occur, in spans that come and go.\<close>

datatype pipe_op = Occurs tevent "span_ref option" instant | Spans "span_data list"

fun pipe_step :: "dispatcher \<Rightarrow> layer list \<Rightarrow> pipeline \<Rightarrow> pipe_op \<Rightarrow> pipeline" where
  "pipe_step dispatch layers pp (Occurs ev sp now) = dispatch layers pp ev sp now"
| "pipe_step dispatch layers pp (Spans sps) = pp\<lparr>pp_world := (pp_world pp)\<lparr>wd_spans := sps\<rparr>\<rparr>"

definition pipe_run :: "dispatcher \<Rightarrow> layer list \<Rightarrow> pipe_op list \<Rightarrow> pipeline" where
  "pipe_run dispatch layers ops = foldl (pipe_step dispatch layers) idle ops"

section \<open>The installed stack\<close>

text \<open>The callsites the installed stack wants: what the filter and the extra layers want.\<close>

definition wanted :: "layer_env \<Rightarrow> builder \<Rightarrow> tevent \<times> span_ref option \<times> instant \<Rightarrow> bool" where
  "wanted env b = (\<lambda>(ev, sp, now). le_filter env (bd_log_filter b) (te_meta ev) sp
     \<and> (\<forall>x\<in>set (bd_extra_layers b). le_extra env x (te_meta ev) sp))"

text \<open>The events the extra layers let through.\<close>

definition passed :: "layer_env \<Rightarrow> builder \<Rightarrow> tevent \<times> span_ref option \<times> instant \<Rightarrow> bool" where
  "passed env b = (\<lambda>(ev, sp, now). \<forall>x\<in>set (bd_extra_layers b). le_extra_event env x ev sp)"

lemma stack_enabled:
  "list_all (layer_enabled env (te_meta ev) sp) (subscriber_layers ft ext b lp) \<longleftrightarrow> wanted env b (ev, sp, now)"
  by (auto simp: subscriber_layers_def wanted_def list_all_iff)

lemma ask_append:
  "ask env ev sp now (xs @ ys) pp =
     (let (pp', b) = ask env ev sp now xs pp in if b then ask env ev sp now ys pp' else (pp', False))"
  by (induction xs arbitrary: pp) (auto simp: case_prod_beta Let_def)

lemma ask_installed:
  "ask env ev sp now (rev (subscriber_layers ft ext b lp)) pp =
     (let (ws, ok) = event_enabled (pp_windows pp) ev now
      in (pp\<lparr>pp_windows := ws\<rparr>, ok \<and> passed env b (ev, sp, now)))"
  by (simp add: subscriber_layers_def passed_def ask_append Let_def case_prod_beta list_all_iff)

lemma tell_installed:
  "foldl (\<lambda>pp l. layer_on_event env ev sp now l pp) pp (subscriber_layers ft ext b (Some lp)) =
     pp\<lparr>pp_console := pp_console pp @ [(ev, now)],
        pp_extra := pp_extra pp @ map (\<lambda>x. (x, ev)) (bd_extra_layers b),
        pp_span_events := pp_span_events pp @ (case sp of None \<Rightarrow> [] | Some span \<Rightarrow> [(sr_id span, ev)]),
        pp_world := on_event (le_order env) ev sp (pp_world pp)\<rparr>"
  by (simp add: subscriber_layers_def split: option.split)

lemma dispatch_installed:
  assumes "layered env dispatch"
  shows "dispatch (subscriber_layers ft ext b (Some lp)) pp ev sp now =
    (if \<not> wanted env b (ev, sp, now) then pp
     else let (ws, ok) = event_enabled (pp_windows pp) ev now; pp' = pp\<lparr>pp_windows := ws\<rparr>
          in if ok \<and> passed env b (ev, sp, now)
             then foldl (\<lambda>pp l. layer_on_event env ev sp now l pp) pp' (subscriber_layers ft ext b (Some lp))
             else pp')"
  using assms by (simp add: layered_def stack_enabled [where now = now] ask_installed case_prod_beta Let_def)

section \<open>A run\<close>

fun events_of :: "pipe_op list \<Rightarrow> (tevent \<times> span_ref option \<times> instant) list" where
  "events_of [] = []"
| "events_of (Occurs ev sp now # ops) = (ev, sp, now) # events_of ops"
| "events_of (Spans sps # ops) = events_of ops"

lemma events_of_append [simp]: "events_of (xs @ ys) = events_of xs @ events_of ys"
  by (induction xs rule: events_of.induct) simp_all

text \<open>An event as the console shows it.\<close>

definition at_moment :: "tevent \<times> span_ref option \<times> instant \<Rightarrow> tevent \<times> instant" where
  "at_moment = (\<lambda>(ev, sp, now). (ev, now))"

lemma at_moment_simps [simp]: "at_moment (ev, sp, now) = (ev, now)" "fst (at_moment e) = fst e"
  by (simp_all add: at_moment_def case_prod_beta)

text \<open>The export failures among some events, each with its kind.\<close>

definition failure_calls :: "(tevent \<times> span_ref option \<times> instant) list \<Rightarrow> (rstring \<times> instant) list" where
  "failure_calls es = List.map_filter (\<lambda>(ev, sp, t). map_option (\<lambda>k. (k, t)) (export_failure_kind ev)) es"

lemma failure_calls_append [simp]: "failure_calls (xs @ ys) = failure_calls xs @ failure_calls ys"
  by (simp add: failure_calls_def List.map_filter_def)

lemma failure_calls_one:
  "failure_calls [(ev, sp, t)] = (case export_failure_kind ev of None \<Rightarrow> [] | Some k \<Rightarrow> [(k, t)])"
  by (simp add: failure_calls_def List.map_filter_def split: option.split)

text \<open>The record of an event: its own, and the attributes of its spans after.\<close>

definition record_of :: "tevent \<times> instant \<Rightarrow> log_record \<Rightarrow> bool" where
  "record_of shown lr \<longleftrightarrow>
     (\<exists>as. lr = (event_record (fst shown))\<lparr>lr_attrs := lr_attrs (event_record (fst shown)) @ as\<rparr>)"

lemma record_of_attrs: "record_of (ev, t) ((event_record ev)\<lparr>lr_attrs := lr_attrs (event_record ev) @ as\<rparr>)"
  by (auto simp: record_of_def)

definition of_kind :: "rstring \<Rightarrow> tevent \<times> instant \<Rightarrow> bool" where
  "of_kind k shown \<longleftrightarrow> export_failure_kind (fst shown) = Some k"

definition other :: "tevent \<times> instant \<Rightarrow> bool" where
  "other shown \<longleftrightarrow> export_failure_kind (fst shown) = None"

text \<open>
  The failures shown are those the back-off admitted, without the ones an extra layer held back
  after it.
\<close>

definition pipe_ok :: "(tevent \<times> span_ref option \<times> instant \<Rightarrow> bool)
    \<Rightarrow> (tevent \<times> span_ref option \<times> instant) list \<Rightarrow> pipeline \<Rightarrow> bool" where
  "pipe_ok pass es pp \<longleftrightarrow>
     pp_windows pp = gate_run admit fresh (failure_calls es)
     \<and> filter other (pp_console pp) = filter other (map at_moment (filter pass es))
     \<and> (\<forall>k. subseq (map snd (filter (of_kind k) (pp_console pp))) (admitted_at admit fresh k (failure_calls es)))
     \<and> (list_all pass es \<longrightarrow> (\<forall>k. map snd (filter (of_kind k) (pp_console pp)) = admitted_at admit fresh k (failure_calls es)))
     \<and> list_all2 record_of (pp_console pp) (wd_emitted (pp_world pp))"

lemma pipe_ok_idle: "pipe_ok pass [] idle"
  by (simp add: pipe_ok_def idle_def failure_calls_def List.map_filter_def)

lemma subseq_snoc: "subseq xs ys \<Longrightarrow> subseq (xs @ [x]) (ys @ [x])" "subseq xs ys \<Longrightarrow> subseq xs (ys @ [x])"
  by (simp_all add: list_emb_append_mono list_emb_prefix)

lemma pipe_ok_occurs:
  assumes "layered env dispatch" and "pipe_ok (passed env b) es pp"
  shows "pipe_ok (passed env b) (es @ (if wanted env b (ev, sp, now) then [(ev, sp, now)] else []))
    (dispatch (subscriber_layers ft ext b (Some lp)) pp ev sp now)"
proof (cases "wanted env b (ev, sp, now)")
  case False
  with assms(2) show ?thesis by (simp add: dispatch_installed [OF assms(1)])
next
  case True
  show ?thesis
  proof (cases "export_failure_kind ev")
    case None
    with assms(2) True show ?thesis
      by (auto simp: dispatch_installed [OF assms(1)] event_enabled_def tell_installed pipe_ok_def failure_calls_one
          other_def of_kind_def on_event_emits list_all2_snoc record_of_attrs)
  next
    case (Some k)
    obtain ws ok where admit: "admit (pp_windows pp) k now = (ws, ok)" by (cases "admit (pp_windows pp) k now")
    with assms(2) Some True show ?thesis
      by (cases ok; cases "passed env b (ev, sp, now)")
         (auto simp: Let_def dispatch_installed [OF assms(1)] event_enabled_def tell_installed pipe_ok_def failure_calls_one
          other_def of_kind_def on_event_emits list_all2_snoc record_of_attrs subseq_snoc)
  qed
qed

lemma pipe_ok_run:
  assumes "layered env dispatch"
  shows "pipe_ok (passed env b) (filter (wanted env b) (events_of ops))
    (pipe_run dispatch (subscriber_layers ft ext b (Some lp)) ops)"
proof (induction ops rule: rev_induct)
  case Nil
  show ?case by (simp add: pipe_run_def pipe_ok_idle)
next
  case (snoc op ops)
  then show ?case
  proof (cases op)
    case (Occurs ev sp now)
    with pipe_ok_occurs [where ev = ev and now = now and sp = sp and b = b and ft = ft and ext = ext and lp = lp,
        OF assms snoc] show ?thesis
      by (simp add: pipe_run_def split: if_splits)
  next
    case (Spans sps)
    with snoc show ?thesis by (simp add: pipe_run_def pipe_ok_def)
  qed
qed

section \<open>Spaced moments\<close>

text \<open>The \<open>n\<close>-th of some moments and every later one are \<open>gap n\<close> apart.\<close>

fun spaced :: "(nat \<Rightarrow> duration) \<Rightarrow> instant list \<Rightarrow> bool" where
  "spaced gap [] \<longleftrightarrow> True"
| "spaced gap (t # ts) \<longleftrightarrow> (\<forall>u\<in>set ts. t + int (gap 0) \<le> u) \<and> spaced (\<lambda>n. gap (Suc n)) ts"

lemma spaced_gap: "spaced gap ts \<Longrightarrow> (\<And>n. gap' n \<le> gap n) \<Longrightarrow> spaced gap' ts"
proof (induction ts arbitrary: gap gap')
  case (Cons t ts)
  have "spaced (\<lambda>n. gap' (Suc n)) ts" using Cons.IH [of "\<lambda>n. gap (Suc n)" "\<lambda>n. gap' (Suc n)"] Cons.prems by simp
  moreover have "int (gap' 0) \<le> int (gap 0)" using Cons.prems(2) by simp
  ultimately show ?case using Cons.prems(1) by fastforce
qed simp

lemma spaced_subseq: "subseq us ts \<Longrightarrow> spaced gap ts \<Longrightarrow> mono gap \<Longrightarrow> spaced gap us"
proof (induction us ts arbitrary: gap rule: list_emb.induct)
  case (list_emb_Cons us ts t)
  have "spaced gap ts"
    using list_emb_Cons.prems by (auto intro: spaced_gap [of "\<lambda>n. gap (Suc n)"] simp: mono_def)
  with list_emb_Cons show ?case by blast
next
  case (list_emb_Cons2 x y us ts)
  have "mono (\<lambda>n. gap (Suc n))" using list_emb_Cons2.prems(2) by (simp add: mono_def)
  moreover have "set us \<subseteq> set ts" using list_emb_Cons2.hyps(2) by (auto dest: list_emb_set)
  ultimately show ?case using list_emb_Cons2 by auto
qed simp

lemma spaced_nth: "spaced gap ts \<Longrightarrow> Suc n < length ts \<Longrightarrow> ts ! n + int (gap n) \<le> ts ! Suc n"
proof (induction ts arbitrary: gap n)
  case (Cons t ts)
  show ?case
  proof (cases n)
    case (Suc m)
    with Cons.IH [of "\<lambda>n. gap (Suc n)" m] Cons.prems show ?thesis by simp
  qed (use Cons.prems in auto)
qed simp

lemma spaced_adjacent:
  "(\<And>n. Suc n < length ts \<Longrightarrow> ts ! n + int (gap n) \<le> ts ! Suc n) \<Longrightarrow> spaced gap ts"
proof (induction ts arbitrary: gap)
  case (Cons t ts)
  have tail: "spaced (\<lambda>n. gap (Suc n)) ts"
    by (rule Cons.IH) (use Cons.prems [of "Suc n" for n] in simp)
  show ?case
  proof (cases ts)
    case (Cons u us)
    have "t + int (gap 0) \<le> u" using Cons.prems [of 0] Cons by simp
    moreover have "\<forall>v\<in>set us. u \<le> v" using tail Cons by fastforce
    ultimately show ?thesis using tail Cons by auto
  qed simp
qed simp

section \<open>Console and collector\<close>

lemma nth_backoff_mono: "mono nth_backoff"
  by (rule monoI, unfold nth_backoff_def, intro min.mono mult_le_mono2 power_increasing) simp_all

lemma failures_spaced:
  assumes "pipe_ok pass es pp"
  shows "spaced nth_backoff (map snd (filter (of_kind k) (pp_console pp)))"
proof (rule spaced_subseq)
  show "subseq (map snd (filter (of_kind k) (pp_console pp))) (admitted_at admit fresh k (failure_calls es))"
    using assms by (simp add: pipe_ok_def)
  show "spaced nth_backoff (admitted_at admit fresh k (failure_calls es))"
    by (rule spaced_adjacent) (use failure_gate.admitted_spaced [OF fresh_slot] in \<open>simp add: double_backoff_pow\<close>)
qed (rule nth_backoff_mono)

text \<open>
  C17. Console and collector agree, and failures flood neither. In a process whose logs are
  exported, whatever events occur in whatever spans, the records the bridge emits through the logger
  of the exporting provider are those of the events shown on the console, one each and in their
  order, with the attributes of their spans added. What is shown is decided by all the layers
  together: of the events that are no export failure of the SDK it is exactly those whose callsite the
  filter and every extra layer want and which no extra layer holds back, so an extra layer that does
  not want an event keeps it from console and collector alike; and of one kind of failure, which the
  export of a log itself may cause, the n-th shown and the next are at least a minute doubled n times
  apart, an hour at most. The hypothesis is what the library documents of a stack of layers.
\<close>

theorem console_and_collector_agree:
  assumes "layered env dispatch"
    and "pipe_run dispatch (subscriber_layers ft ext b (Some lp)) ops = pp"
    and "ts = map snd (filter (of_kind k) (pp_console pp))"
  shows "list_all2 record_of (pp_console pp) (wd_emitted (pp_world pp))
    \<and> filter other (pp_console pp)
        = filter other (map at_moment (filter (passed env b) (filter (wanted env b) (events_of ops))))
    \<and> (Suc n < length ts \<longrightarrow> ts ! n + int (min (from_secs (60 * 2 ^ n)) (from_secs 3600)) \<le> ts ! Suc n)"
proof -
  note ok = pipe_ok_run [OF assms(1), of b ops ft ext lp, unfolded assms(2)]
  have "ts ! n + int (nth_backoff n) \<le> ts ! Suc n" if "Suc n < length ts"
    using spaced_nth [OF failures_spaced [OF ok], of n k] assms(3) that by simp
  with ok show ?thesis
    by (simp add: pipe_ok_def nth_backoff_def FIRST_BACKOFF_def MAX_BACKOFF_def from_secs_def mult.commute)
qed

section \<open>The boot in the logs\<close>

text \<open>What an event says: level, target and fields, the message among them.\<close>

definition said :: "tevent \<Rightarrow> level \<times> rstring \<times> field list" where
  "said ev = (md_level (te_meta ev), md_target (te_meta ev), te_fields ev)"

fun effect_said :: "effect \<Rightarrow> (level \<times> rstring \<times> field list) option" where
  "effect_said (Event l t m fds) = Some (l, t, display_field (lit ''message'') m # fds)"
| "effect_said _ = None"

text \<open>A record as a reader of the collector finds it, and what it should find for a phase.\<close>

definition phase_log :: "log_record \<Rightarrow> severity \<times> any_value option \<times> (rstring \<times> any_value) list" where
  "phase_log lr = (lr_severity lr, lr_body lr, take 4 (lr_attrs lr))"

definition logged_phase :: "phase \<Rightarrow> severity \<times> any_value option \<times> (rstring \<times> any_value) list" where
  "logged_phase ph =
     (case ph_outcome ph of Ok \<Rightarrow> SevInfo | Failed \<Rightarrow> SevWarn,
      Some (AvString (case ph_outcome ph of Ok \<Rightarrow> lit ''boot phase complete'' | Failed \<Rightarrow> lit ''boot phase failed'')),
      [(lit ''phase'', AvString (ph_name ph)), (lit ''outcome'', AvString (outcome_str (ph_outcome ph))),
       (lit ''took_ms'', AvString (dec (unat (millis (ph_took ph))))), (lit ''at_ms'', AvString (dec (unat (millis (ph_at ph)))))])"

definition is_phase_record :: "log_record \<Rightarrow> bool" where
  "is_phase_record lr \<longleftrightarrow> lr_target lr = LOG_TARGET \<and> lr_body lr \<noteq> Some (AvString BOOT_READY)"

text \<open>The record of what is said, whatever the callsite is called.\<close>

definition said_record :: "level \<times> rstring \<times> field list \<Rightarrow> log_record" where
  "said_record x = visit_fields log_record_visit
     (new_log_record \<lparr>md_name = [], md_target = fst (snd x), md_level = fst x\<rparr>) (snd (snd x))"

lemma visit_event_name:
  "visit_fields log_record_visit (lr\<lparr>lr_event_name := x\<rparr>) fds = (visit_fields log_record_visit lr fds)\<lparr>lr_event_name := x\<rparr>"
  by (induction fds arbitrary: lr rule: rev_induct)
     (simp_all add: log_record_visit_def add_attribute_def split: fvalue.split)

lemma event_record_said: "event_record ev = (said_record (said ev))\<lparr>lr_event_name := md_name (te_meta ev)\<rparr>"
  by (simp add: event_record_def said_record_def said_def new_log_record_def flip: visit_event_name)

lemma visit_target: "lr_target (visit_fields log_record_visit lr fds) = lr_target lr"
  by (induction fds rule: rev_induct) (simp_all add: log_record_visit_def add_attribute_def split: fvalue.split)

lemma said_record_target [simp]: "lr_target (said_record x) = fst (snd x)"
  by (simp add: said_record_def visit_target new_log_record_def)

lemmas visit_simps = said_record_def new_log_record_def log_record_visit_def add_attribute_def display_field_def
  str_field_def u64_field_def

lemma phase_said:
  "effect_said (phase_event ph) = Some x \<Longrightarrow>
     is_phase_record (said_record x) \<and> phase_log (said_record x) = logged_phase ph \<and> length (lr_attrs (said_record x)) = 4
     \<and> (fst x = INFO \<or> fst x = WARN)"
  by (cases "ph_outcome ph")
     (auto simp: phase_event_def Let_def visit_simps is_phase_record_def phase_log_def logged_phase_def BOOT_READY_def
        severity_of_level_def lit_def)

lemma other_said: "effect_said e = Some x \<Longrightarrow> \<not> is_phase_event e \<Longrightarrow> \<not> is_phase_record (said_record x)"
  by (cases e) (auto simp: visit_simps is_phase_record_def lit_def split: fvalue.split)

lemma boot_target_other: "md_target (te_meta ev) = LOG_TARGET \<Longrightarrow> export_failure_kind ev = None"
  by (simp add: export_failure_kind_def LOG_TARGET_def lit_def)


lemma due_said:
  assumes "boot_reach dflt c" and "quiet c" and "bs_exporter (tl_state (cf_tl c)) = Some ex"
  shows "filter_mset is_phase_event (mset (cf_out c)) = image_mset phase_event (mset (due c))"
  using boot_reach_inv [OF assms(1)] assms(3)
  by (simp add: quiet_all_eff [OF assms(2), symmetric] boot_inv_def inv_due_def cf_state_def)

text \<open>The phase records among what some effects say are those of the phase events.\<close>

abbreviation says_phase :: "level \<times> rstring \<times> field list \<Rightarrow> bool" where
  "says_phase x \<equiv> is_phase_record (said_record x)"

lemma said_phases:
  assumes "\<forall>e\<in>set out. is_phase_event e \<longrightarrow> (\<exists>ph. e = phase_event ph)"
  shows "map (phase_log \<circ> said_record) (filter says_phase (List.map_filter effect_said out))
    = map (phase_log \<circ> said_record \<circ> the \<circ> effect_said) (filter is_phase_event out)"
  using assms
proof (induction out)
  case (Cons e out)
  show ?case
  proof (cases "is_phase_event e")
    case True
    then obtain x where x: "effect_said e = Some x" by (cases e) auto
    obtain ph where "e = phase_event ph" using True Cons.prems by auto
    with phase_said [of ph x] x True Cons show ?thesis by (simp add: map_filter_simps)
  next
    case False
    with Cons other_said [of e] show ?thesis by (auto simp: map_filter_simps split: option.split)
  qed
qed (simp add: map_filter_simps)

lemma phase_event_said: "\<exists>x. effect_said (phase_event ph) = Some x"
  by (cases "ph_outcome ph") (simp_all add: phase_event_def Let_def)

lemma phase_event_entry: "phase_log (said_record (the (effect_said (phase_event ph)))) = logged_phase ph"
  using phase_said [of ph] phase_event_said [of ph] by fastforce

lemma said_entries:
  assumes "boot_reach dflt c" and "quiet c" and "bs_exporter (tl_state (cf_tl c)) = Some ex"
  shows "image_mset (phase_log \<circ> said_record) (filter_mset says_phase (mset (List.map_filter effect_said (cf_out c))))
    = image_mset logged_phase (mset (due c))"
proof -
  note due = due_said [OF assms]
  have "\<forall>e\<in>set (cf_out c). is_phase_event e \<longrightarrow> (\<exists>ph. e = phase_event ph)"
  proof (intro ballI impI)
    fix e assume "e \<in> set (cf_out c)" "is_phase_event e"
    then have "e \<in># filter_mset is_phase_event (mset (cf_out c))" by simp
    with due show "\<exists>ph. e = phase_event ph" by auto
  qed
  note said_phases [OF this, THEN arg_cong [where f = mset]]
  then have "image_mset (phase_log \<circ> said_record) (filter_mset says_phase (mset (List.map_filter effect_said (cf_out c))))
    = image_mset (phase_log \<circ> said_record \<circ> the \<circ> effect_said) (filter_mset is_phase_event (mset (cf_out c)))"
    by (simp add: mset_filter)
  also have "\<dots> = image_mset logged_phase (mset (due c))"
    by (simp add: due multiset.map_comp comp_def phase_event_entry)
  finally show ?thesis .
qed

text \<open>A phase record on the wire and the event it comes from.\<close>

lemma record_of_phase:
  assumes "record_of shown lr" and "says_phase (said (fst shown)) \<Longrightarrow> length (lr_attrs (said_record (said (fst shown)))) = 4"
  shows "is_phase_record lr = says_phase (said (fst shown))
    \<and> (says_phase (said (fst shown)) \<longrightarrow> phase_log lr = phase_log (said_record (said (fst shown))))"
  using assms by (auto simp: record_of_def event_record_said is_phase_record_def phase_log_def)

lemma says_phase_other: "says_phase (said (fst shown)) \<Longrightarrow> other shown \<and> md_target (te_meta (fst shown)) = LOG_TARGET"
  using boot_target_other [of "fst shown"] by (simp add: is_phase_record_def other_def said_def)

text \<open>
  C18. The boot reaches the logs. In a process whose logs are exported, let a boot have run with
  whatever interleaving of its threads, a provider attached and its threads quiet, and let the
  events of its target be the ones it performed, in any order, in any spans and among any others. If
  the filter and the extra layers let that target through at info and warn, the records of boot
  phases the bridge emits are exactly one per phase due, each with its level, message, name,
  outcome, duration and offset. The stack of layers is as the library documents it.
\<close>

theorem boot_phases_reach_the_logs:
  assumes "boot_reach dflt c" and "quiet c" and "bs_exporter (tl_state (cf_tl c)) = Some ex"
    and "layered env dispatch"
    and "\<And>ev sp. md_target (te_meta ev) = LOG_TARGET \<Longrightarrow> md_level (te_meta ev) \<in> {INFO, WARN} \<Longrightarrow>
           le_filter env (bd_log_filter b) (te_meta ev) sp
           \<and> list_all (\<lambda>x. le_extra env x (te_meta ev) sp \<and> le_extra_event env x ev sp) (bd_extra_layers b)"
    and "mset (map (said \<circ> fst) (filter (\<lambda>e. md_target (te_meta (fst e)) = LOG_TARGET) (events_of ops)))
           = mset (List.map_filter effect_said (cf_out c))"
    and "pipe_run dispatch (subscriber_layers ft ext b (Some lp)) ops = pp"
  shows "mset (map phase_log (filter is_phase_record (wd_emitted (pp_world pp))))
    = mset (map logged_phase (take MAX_PHASES (cf_before c) @ cf_after c))"
proof -
  let ?says = "\<lambda>e :: tevent \<times> instant. says_phase (said (fst e))"
  let ?log = "\<lambda>e :: tevent \<times> instant. phase_log (said_record (said (fst e)))"
  let ?target = "\<lambda>e :: tevent \<times> span_ref option \<times> instant. md_target (te_meta (fst e)) = LOG_TARGET"
  let ?boot = "map at_moment (filter ?target (events_of ops))"
  have boot: "map (said \<circ> fst) ?boot = map (said \<circ> fst) (filter ?target (events_of ops))" by simp
  note ok = pipe_ok_run [OF assms(4), of b ops ft ext lp, unfolded assms(7) pipe_ok_def]
  have phase: "length (lr_attrs (said_record (said (fst e)))) = 4 \<and> wanted env b e \<and> passed env b e"
    if e: "e \<in> set (events_of ops)" "says_phase (said (fst e))" for e
  proof -
    have target: "?target e" using says_phase_other [of "at_moment e"] e(2) by simp
    with e(1) have "said (fst e) \<in># mset (map (said \<circ> fst) (filter ?target (events_of ops)))" by auto
    then obtain eff where eff: "eff \<in> set (cf_out c)" "effect_said eff = Some (said (fst e))"
      unfolding assms(6) by (auto simp: List.map_filter_def)
    then have "eff \<in># filter_mset is_phase_event (mset (cf_out c))" using other_said [OF eff(2)] e(2) by auto
    then obtain ph where "eff = phase_event ph" unfolding due_said [OF assms(1-3)] by auto
    with phase_said [of ph] eff(2) have "length (lr_attrs (said_record (said (fst e)))) = 4"
      "md_level (te_meta (fst e)) \<in> {INFO, WARN}" by (auto simp: said_def)
    with assms(5) [OF target] show ?thesis by (simp add: wanted_def passed_def list_all_iff case_prod_beta)
  qed
  have shown: "filter ?says (pp_console pp) = filter ?says ?boot"
  proof -
    have "filter ?says (pp_console pp) = filter ?says (filter other (pp_console pp))"
      by (simp, intro filter_cong) (use says_phase_other in blast)+
    also have "\<dots> = map at_moment (filter (\<lambda>e. says_phase (said (fst e)) \<and> other (at_moment e))
        (filter (passed env b) (filter (wanted env b) (events_of ops))))"
      using ok by (simp add: filter_map comp_def conj_commute conj_left_commute)
    also have "\<dots> = map at_moment (filter (\<lambda>e. says_phase (said (fst e))) (filter ?target (events_of ops)))"
      using phase says_phase_other [of "at_moment e" for e] by (simp, intro arg_cong [where f = "map at_moment"] filter_cong) auto
    finally show ?thesis by (simp add: filter_map comp_def)
  qed
  have "map phase_log (filter is_phase_record (wd_emitted (pp_world pp))) = map ?log (filter ?says (pp_console pp))"
  proof (rule list_all2_filter_map)
    show "list_all2 record_of (pp_console pp) (wd_emitted (pp_world pp))" using ok by blast
    fix e lr assume e: "e \<in> set (pp_console pp)" "record_of e lr"
    then have "?says e \<Longrightarrow> e \<in> set (filter ?says ?boot)" unfolding shown [symmetric] by simp
    then have "?says e \<Longrightarrow> \<exists>x\<in>set (events_of ops). e = at_moment x" by auto
    with phase have "?says e \<Longrightarrow> length (lr_attrs (said_record (said (fst e)))) = 4" by fastforce
    with record_of_phase [OF e(2)] show "is_phase_record lr = ?says e \<and> (?says e \<longrightarrow> phase_log lr = ?log e)" by blast
  qed
  also have "mset \<dots> = image_mset (phase_log \<circ> said_record) (filter_mset says_phase (mset (map (said \<circ> fst) ?boot)))"
    by (simp add: shown filter_map comp_def flip: mset_map mset_filter)
  also have "\<dots> = mset (map logged_phase (take MAX_PHASES (cf_before c) @ cf_after c))"
    unfolding boot assms(6) said_entries [OF assms(1-3)] by (simp add: due_def)
  finally show ?thesis .
qed

text \<open>A stack of layers as documented, and a process with the boot of the example in it.\<close>

definition stack0 :: "layer_env \<Rightarrow> dispatcher" where
  "stack0 env layers pp ev sp now =
     (if list_all (layer_enabled env (te_meta ev) sp) layers then
        let (pp', b) = ask env ev sp now (rev layers) pp
        in if b then foldl (\<lambda>pp l. layer_on_event env ev sp now l pp) pp' layers else pp'
      else pp)"

lemma layered_stack0: "layered env (stack0 env)"
  by (simp add: layered_def stack0_def)

definition env0 :: layer_env where
  "env0 = \<lparr>le_filter = \<lambda>d meta sp. md_level meta \<noteq> TRACE, le_extra = \<lambda>x meta sp. True,
     le_extra_event = \<lambda>x ev sp. True, le_order = \<lambda>i kvs. kvs\<rparr>"

definition lp0 :: logger_provider where
  "lp0 = \<lparr>lp_resource = [], lp_exporter = \<lparr>xc_signal = Logs, xc_protocol = Grpc, xc_endpoint = [], xc_timeout = None, xc_tls = None\<rparr>, lp_retry = retry_new True\<rparr>"

definition boot_ops :: "effect list \<Rightarrow> pipe_op list" where
  "boot_ops out = map (\<lambda>(l, t, fds). Occurs \<lparr>te_meta = \<lparr>md_name = [], md_target = t, md_level = l\<rparr>, te_fields = fds\<rparr> None 0)
     (List.map_filter effect_said out)"

text \<open>All that a boot says has its target.\<close>

fun at_boot :: "effect \<Rightarrow> bool" where
  "at_boot (Event l t m fds) \<longleftrightarrow> t = LOG_TARGET"
| "at_boot _ \<longleftrightarrow> True"

lemma at_boot_export: "list_all at_boot (export ex ph)" "list_all at_boot (concat (map (export ex) phs))"
    "list_all at_boot (end_root_span ex w r m d)" "at_boot (ready_event at)"
proof -
  show one: "list_all at_boot (export ex ph)" for ph
    by (cases "ph_outcome ph") (simp_all add: export_def phase_event_def Let_def)
  show "list_all at_boot (concat (map (export ex) phs))" by (induction phs) (simp_all add: one)
qed (simp_all add: end_root_span_def ready_event_def)

lemma at_boot_call:
  assumes "inv_root c"
  shows "list_all at_boot (call_effects dflt c k)"
proof (cases k)
  case (RecordCall n s e o')
  then show ?thesis
    using call_record_effects [of dflt c n s e o'] by (auto simp: at_boot_export split: option.split)
next
  case (ReadyCall e)
  then show ?thesis
    by (cases "has_ready (cf_state c)")
       (auto simp: call_ready_again root_end_of_def at_boot_export elim!: call_ready_first [of c dflt e])
qed (simp_all add: call_set_effects call_close_effects call_attach_effects [OF assms] root_end_of_def
       attach_tail_def at_boot_export split: option.split)

lemma at_boot_reach: "boot_reach dflt c \<Longrightarrow> list_all at_boot (cf_out c @ concat (cf_queues c))"
proof (induction rule: boot_reach.induct)
  case (start tm)
  then show ?case by (simp add: init_config_def)
next
  case (step c c')
  from step.hyps(2) show ?case
  proof (cases rule: boot_step.cases)
    case (call k)
    with at_boot_call [of c dflt k] boot_reach_inv [OF step.hyps(1)] step.IH show ?thesis
      by (simp add: boot_inv_def call_effects_def)
  next
    case (emit i e q)
    with step.IH mset_concat_update [OF emit(2,3), THEN arg_cong [where f = set_mset]] show ?thesis
      by (auto simp: list_all_iff simp del: set_concat)
  qed
qed

lemma boot0_targets: "filter (\<lambda>x. fst (snd x) = LOG_TARGET) (List.map_filter effect_said (cf_out boot0))
  = List.map_filter effect_said (cf_out boot0)"
proof -
  have "fst (snd x) = LOG_TARGET" if "e \<in> set (cf_out boot0)" "effect_said e = Some x" for e x
  proof -
    from at_boot_reach [OF boot0_reach] that(1) have "at_boot e" by (simp add: list_all_iff)
    with that(2) show ?thesis by (cases e) auto
  qed
  then show ?thesis by (auto simp: filter_id_conv List.map_filter_def)
qed

lemma boot_ops_said: "map (said \<circ> fst) (filter (\<lambda>e. md_target (te_meta (fst e)) = LOG_TARGET) (events_of (boot_ops out)))
  = filter (\<lambda>x. fst (snd x) = LOG_TARGET) (List.map_filter effect_said out)"
proof -
  have "map (said \<circ> fst) (filter (\<lambda>e. md_target (te_meta (fst e)) = LOG_TARGET) (events_of (map
      (\<lambda>(l, t, fds). Occurs \<lparr>te_meta = \<lparr>md_name = [], md_target = t, md_level = l\<rparr>, te_fields = fds\<rparr> None 0) xs)))
    = filter (\<lambda>x. fst (snd x) = LOG_TARGET) xs" for xs
    by (induction xs) (auto simp: said_def)
  then show ?thesis by (simp add: boot_ops_def)
qed

theorem boot_phases_reach_the_logs_witness:
  "mset (map phase_log (filter is_phase_record (wd_emitted (pp_world
     (pipe_run (stack0 env0) (subscriber_layers all_features toy_ext telemetry_from_env (Some lp0)) (boot_ops (cf_out boot0)))))))
    = mset (map logged_phase (cf_before boot0 @ cf_after boot0))
   \<and> map ph_name (cf_before boot0 @ cf_after boot0) = [lit ''config'', lit ''dns'', lit ''cache'']"
proof -
  have "mset (map phase_log (filter is_phase_record (wd_emitted (pp_world
     (pipe_run (stack0 env0) (subscriber_layers all_features toy_ext telemetry_from_env (Some lp0)) (boot_ops (cf_out boot0)))))))
    = mset (map logged_phase (take MAX_PHASES (cf_before boot0) @ cf_after boot0))"
    by (rule boot_phases_reach_the_logs [OF boot0_reach boot0_quiet boot0_attached layered_stack0 _ _ refl])
       (auto simp: boot_ops_said boot0_targets env0_def telemetry_from_env_def)
  with boot0_count(1) boot0_phases show ?thesis by (simp add: MAX_PHASES_def)
qed


text \<open>An event of the program and three failures of the SDK's exporter, in the example process.\<close>

definition fail0 :: tevent where
  "fail0 = \<lparr>te_meta = \<lparr>md_name = lit ''BatchSpanProcessor.ExportError'', md_target = lit ''opentelemetry_sdk'', md_level = WARN\<rparr>,
     te_fields = []\<rparr>"

definition ops0 :: "pipe_op list" where
  "ops0 = [Occurs app_event None 0, Occurs fail0 None 0, Occurs fail0 (Some \<lparr>sr_id = 0, scope = [0]\<rparr>) (59 * 10 ^ 9), Occurs fail0 None (61 * 10 ^ 9)]"

abbreviation pp0 :: pipeline where
  "pp0 \<equiv> pipe_run (stack0 env0) (subscriber_layers all_features toy_ext telemetry_from_env (Some lp0)) ops0"

lemma pp0_failures:
  "map snd (filter (of_kind (md_name (te_meta fail0))) (pp_console pp0)) = [0, 61 * 10 ^ 9]"
proof -
  have kinds: "export_failure_kind app_event = None" "export_failure_kind fail0 = Some (md_name (te_meta fail0))"
    by code_simp+
  have wanted: "filter (wanted env0 telemetry_from_env) (events_of ops0) = events_of ops0"
    "list_all (passed env0 telemetry_from_env) (events_of ops0)"
    by (simp_all add: wanted_def passed_def env0_def telemetry_from_env_def ops0_def app_event_def fail0_def)
  have "failure_calls (events_of ops0) = map (Pair (md_name (te_meta fail0))) [0, 59 * 10 ^ 9, 61 * 10 ^ 9]"
    by (simp add: ops0_def failure_calls_def map_filter_simps kinds)
  moreover have "admitted_at admit fresh k (map (Pair k) [0, 59 * 10 ^ 9, 61 * 10 ^ 9]) = [0, 61 * 10 ^ 9]" for k
    by (simp add: admit_def fresh_def FIRST_BACKOFF_def from_secs_def Let_def)
  ultimately show ?thesis
    using pipe_ok_run [OF layered_stack0, of env0 telemetry_from_env ops0 all_features toy_ext lp0] wanted
    by (simp add: pipe_ok_def)
qed

theorem console_and_collector_agree_witness:
  "list_all2 record_of (pp_console pp0) (wd_emitted (pp_world pp0)) \<and> (0 :: int) + 60 * 10 ^ 9 \<le> 61 * 10 ^ 9"
  using console_and_collector_agree [OF layered_stack0, OF refl pp0_failures [symmetric], of 0]
  by (simp add: from_secs_def)


end
