(* ===== verification/InitOrder.thy ===== *)
theory InitOrder
  imports InitProps BootRefine
begin

text \<open>
  The order of what \<open>init\<close> of \<open>src/src/lib.rs\<close> does to the process, down to what the
  boot timeline does when it is connected, which is what the abstract boot of \<open>BootRefine\<close>
  does: the two components together.
\<close>

section \<open>The pieces\<close>

definition meter_effects :: "builder \<Rightarrow> meter_provider option \<Rightarrow> init_effect list" where
  "meter_effects b mp =
     (case mp of None \<Rightarrow> []
      | Some m \<Rightarrow> SetMeterProvider m # (if bd_runtime_metrics b then [InstallRuntimeMetrics] else []))"

lemma init_meter_effects: "init_meter ext b st = (eff, Inr mp) \<Longrightarrow> eff = meter_effects b mp"
  by (auto simp: init_meter_def meter_effects_def Let_def split: if_splits sum.splits)

lemma install_subscriber_effects:
  "install_subscriber ft ext b lp already = (True, sub) \<Longrightarrow>
     \<exists>x. sub = [x] \<and> (if already then \<exists>l. x = StderrLine l else x = SetSubscriber (subscriber_layers ft ext b lp))"
  by (auto simp: install_subscriber_def split: if_splits)

text \<open>The call that connects the timeline, read in the abstract boot.\<close>

lemma attach_refines:
  assumes "implements tm sp" and "attach tm n name = (a, tm', inside, after)"
  shows "spec_call dflt sp (AttachCall n name) = (fst (spec_call dflt sp (AttachCall n name)), inside, after)
    \<and> implements tm' (fst (spec_call dflt sp (AttachCall n name))) \<and> (a \<noteq> None) = (sb_root sp = Unstarted)"
proof -
  obtain tm'' where "exec_call dflt tm (AttachCall n name) = (tm'', snd (spec_call dflt sp (AttachCall n name)))"
      "implements tm'' (fst (spec_call dflt sp (AttachCall n name)))"
    using refine_attach [OF assms(1)] by blast
  moreover have "(a \<noteq> None) = (bs_exporter (tl_state tm) = None)"
    using assms(2) by (auto simp: attach_def Let_def case_prod_beta split: if_splits)
  ultimately show ?thesis
    using assms by (simp add: implements_def prod_eq_iff)
qed

section \<open>Property\<close>

text \<open>
  C25. The order of a successful initialisation. The tracer provider of the handles is made global
  first, then the propagators, then the meter provider with the runtime gauges right after it and
  never before it, then profiling, then the subscriber, or the one line that says it could not be
  installed, and last the boot timeline is connected, under the same provider, with all layers in
  place: it does what the abstract boot does, so the phases recorded before are exported there.
\<close>

theorem init_effects_in_order:
  assumes "init ft ext env n b gl = (gl', eff, Inr h)" and "implements (gl_timeline gl) sp"
  shows "\<exists>prof x name sp' inside after.
      eff = [SetTracerProvider (hd_tracer h), SetPropagator [TraceContext, Baggage]] @ meter_effects b (hd_meter h)
        @ map Logged prof @ [x] @ map BootEffect (inside @ after)
    \<and> tp_number (hd_tracer h) = n
    \<and> (if gl_subscriber_set gl then \<exists>l. x = StderrLine l
       else x = SetSubscriber (subscriber_layers ft ext b (hd_logger h)))
    \<and> spec_call dflt sp (AttachCall n name) = (sp', inside, after) \<and> implements (gl_timeline gl') sp'
    \<and> hd_boot_owner h = (sb_root sp = Unstarted)"
proof (rule init_cases [OF assms(1)])
  fix st tp mp lp ph eff2 peff eff4 a tm inside after
  assume tp: "tp = \<lparr>tp_number = n, tp_resource = st_resource st, tp_sampler = Some (into_sdk_sampler (st_sampler st)),
         tp_exporter = Some (exporter_for Traces (st_protocol st) (st_endpoint st) (st_timeout st) (st_transport st)),
         tp_retry = Some (retry_new (xe_in_runtime ext)), tp_batch_size = bd_max_export_batch_size b\<rparr>"
    and mp: "init_meter ext b st = (eff2, Inr mp)"
    and sub: "install_subscriber ft ext b lp (gl_subscriber_set gl) = (True, eff4)"
    and att: "attach (gl_timeline gl) n (st_service_name st) = (a, tm, inside, after)"
    and eff: "eff = [SetTracerProvider tp, SetPropagator [TraceContext, Baggage]] @ eff2 @ map Logged peff @ eff4
         @ map BootEffect (inside @ after)"
    and tm: "gl_timeline gl' = tm"
    and h: "Inr h = (Inr \<lparr>hd_tracer = tp, hd_meter = mp, hd_logger = lp, hd_shutdown_timeout = bd_shutdown_timeout b,
         hd_boot_owner = (a \<noteq> None), hd_profiling = ph\<rparr> :: rstring + handles)"
  obtain x where x: "eff4 = [x]"
      "if gl_subscriber_set gl then \<exists>l. x = StderrLine l else x = SetSubscriber (subscriber_layers ft ext b lp)"
    using install_subscriber_effects [OF sub] by blast
  note boot = attach_refines [OF assms(2) att, of dflt]
  show ?thesis
    using boot x eff tm h init_meter_effects [OF mp] tp
    by (intro exI [of _ peff] exI [of _ x] exI [of _ "st_service_name st"]
        exI [of _ "fst (spec_call dflt sp (AttachCall n (st_service_name st)))"] exI [of _ inside] exI [of _ after])
       (simp add: sum.inject)
qed simp_all

text \<open>A process that recorded a phase before telemetry came up.\<close>

definition early_phase :: call where
  "early_phase = RecordCall (lit ''config'') 1000000 3000000 Ok"

definition early_globals :: globals where
  "early_globals = toy_globals\<lparr>gl_timeline := fst (exec_call [] (gl_timeline toy_globals) early_phase)\<rparr>"

definition early_spec :: boot_spec where
  "early_spec = fst (spec_call [] (spec_boot 0 FirstUse 0) early_phase)"

lemma early_implements: "implements (gl_timeline early_globals) early_spec"
proof -
  have "implements (gl_timeline toy_globals) (spec_boot 0 FirstUse 0)"
    by (simp add: implements_def toy_globals_def spec_boot_def bstate_default_def)
  from refine_call [OF this, of "[]" early_phase] show ?thesis
    by (auto simp: early_globals_def early_spec_def)
qed

theorem init_effects_in_order_witness:
  "\<exists>gl' eff h ex. init all_features toy_ext (\<lambda>_. None) 3 (telemetry_builder (lit ''orders'')) early_globals = (gl', eff, Inr h)
     \<and> hd eff = SetTracerProvider (hd_tracer h) \<and> ex_provider ex = 3
     \<and> BootEffect (SpanEnd ex (phase_span (hd (sb_history early_spec)))) \<in> set eff \<and> hd_boot_owner h"
proof -
  obtain gl' eff h where i: "init all_features toy_ext (\<lambda>_. None) 3 (telemetry_builder (lit ''orders'')) early_globals
      = (gl', eff, Inr h)"
    using toy_init [of "telemetry_builder (lit ''orders'')" "\<lambda>_. None" 3 early_globals]
    by (auto simp: telemetry_builder_def telemetry_from_env_def)
  obtain ph where ph: "sb_history early_spec = [ph]"
    by (simp add: early_spec_def early_phase_def spec_boot_def Let_def)
  have spec: "sb_root early_spec = Unstarted" "sb_ready early_spec = None"
    by (simp_all add: early_spec_def early_phase_def spec_boot_def Let_def)
  define ex where "ex = \<lparr>ex_provider = 3, ex_scope = lit ''otel-bootstrap.boot'',
      ex_root_start = sb_wall early_spec, ex_root_origin = sb_source early_spec\<rparr>"
  have exported: "snd (snd (spec_call d early_spec (AttachCall 3 name))) = export ex ph" for d name
    by (simp add: spec ph Let_def ex_def)
  obtain prof x name sp' inside after where
    eff: "eff = [SetTracerProvider (hd_tracer h), SetPropagator [TraceContext, Baggage]]
        @ meter_effects (telemetry_builder (lit ''orders'')) (hd_meter h) @ map Logged prof @ [x] @ map BootEffect (inside @ after)"
    and attach: "spec_call [] early_spec (AttachCall 3 name) = (sp', inside, after)"
    and owner: "hd_boot_owner h = (sb_root early_spec = Unstarted)"
    using init_effects_in_order [OF i early_implements, of "[]"] by blast
  have "after = export ex ph" using exported [of "[]" name] unfolding attach by simp
  then have "hd eff = SetTracerProvider (hd_tracer h) \<and> hd_boot_owner h
      \<and> BootEffect (SpanEnd ex (phase_span ph)) \<in> set eff"
    using spec owner unfolding eff by (simp add: export_def)
  with i ph show ?thesis by (intro exI [of _ gl'] exI [of _ eff] exI [of _ h] exI [of _ ex]) (simp add: ex_def)
qed

end
