(* ===== verification/HandleProps.thy ===== *)
theory HandleProps
  imports InitProps
begin

text \<open>
  One process, several initialisations: which handle owns the boot timeline, and what shutting
  down and dropping the handles does.
\<close>

section \<open>Several initialisations\<close>

datatype init_call =
    InitCall features externals env_vars builder
  | TestingCall externals rstring

text \<open>The calls of a process in order, numbered from \<open>n\<close>; failed ones give no handles.\<close>

fun init_all :: "nat \<Rightarrow> init_call list \<Rightarrow> globals \<Rightarrow> globals \<times> handles list" where
  "init_all n [] gl = (gl, [])"
| "init_all n (InitCall ft ext env b # cs) gl =
     (let (gl', eff, r) = init ft ext env n b gl; (gl'', hs) = init_all (Suc n) cs gl'
      in (gl'', (case r of Inl e \<Rightarrow> hs | Inr h \<Rightarrow> h # hs)))"
| "init_all n (TestingCall ext name # cs) gl =
     (let (gl', eff, h) = testing ext n name gl; (gl'', hs) = init_all (Suc n) cs gl'
      in (gl'', h # hs))"

definition owners :: "handles list \<Rightarrow> nat" where
  "owners hs = length (filter hd_boot_owner hs)"

lemma attach_result:
  assumes "attach tm n name = (a, tm', inside, after)"
  shows "attached tm' \<and> (a \<noteq> None \<longleftrightarrow> \<not> attached tm) \<and> (attached tm \<longrightarrow> tm' = tm)"
  using assms
  by (auto simp: attach_def attached_def Let_def take_root_to_end_def take_pending_def case_prod_beta
      split: if_splits option.splits)

lemma init_owner:
  assumes "init ft ext env n b gl = (gl', eff, r)"
  shows "case r of
      Inl e \<Rightarrow> gl_timeline gl' = gl_timeline gl
    | Inr h \<Rightarrow> attached (gl_timeline gl') \<and> (hd_boot_owner h \<longleftrightarrow> \<not> attached (gl_timeline gl))"
  by (rule init_cases [OF assms]) (auto dest: attach_result)

lemma testing_owner:
  assumes "testing ext n name gl = (gl', eff, h)"
  shows "attached (gl_timeline gl') \<and> (hd_boot_owner h \<longleftrightarrow> \<not> attached (gl_timeline gl))"
proof -
  obtain a tm inside after where at: "attach (gl_timeline gl) n name = (a, tm, inside, after)"
    by (cases "attach (gl_timeline gl) n name")
  have "gl_timeline gl' = tm" "hd_boot_owner h \<longleftrightarrow> a \<noteq> None"
    using assms at by (auto simp: testing_def Let_def)
  with attach_result [OF at] show ?thesis by simp
qed

lemma init_all_owners:
  "init_all n cs gl = (gl', hs) \<Longrightarrow>
   owners hs = (if attached (gl_timeline gl) \<or> hs = [] then 0 else 1)
   \<and> (attached (gl_timeline gl') \<longleftrightarrow> attached (gl_timeline gl) \<or> hs \<noteq> [])"
proof (induction n cs gl arbitrary: gl' hs rule: init_all.induct)
  case (1 n gl)
  then show ?case by (simp add: owners_def)
next
  case (2 n ft ext env b cs gl)
  obtain gl1 eff r where 1: "init ft ext env n b gl = (gl1, eff, r)"
    by (cases "init ft ext env n b gl")
  obtain gl2 hs2 where 2: "init_all (Suc n) cs gl1 = (gl2, hs2)"
    by (cases "init_all (Suc n) cs gl1")
  have IH: "owners hs2 = (if attached (gl_timeline gl1) \<or> hs2 = [] then 0 else 1)
      \<and> (attached (gl_timeline gl2) \<longleftrightarrow> attached (gl_timeline gl1) \<or> hs2 \<noteq> [])"
    using "2.IH" [OF refl 1 [symmetric] refl 2] by simp
  have out: "gl' = gl2" "hs = (case r of Inl e \<Rightarrow> hs2 | Inr h \<Rightarrow> h # hs2)"
    using "2.prems" 1 2 by auto
  show ?case
    using init_owner [OF 1] IH out by (cases r) (auto simp: owners_def)
next
  case (3 n ext name cs gl)
  obtain gl1 eff h where 1: "testing ext n name gl = (gl1, eff, h)"
    by (cases "testing ext n name gl")
  obtain gl2 hs2 where 2: "init_all (Suc n) cs gl1 = (gl2, hs2)"
    by (cases "init_all (Suc n) cs gl1")
  have IH: "owners hs2 = (if attached (gl_timeline gl1) \<or> hs2 = [] then 0 else 1)
      \<and> (attached (gl_timeline gl2) \<longleftrightarrow> attached (gl_timeline gl1) \<or> hs2 \<noteq> [])"
    using "3.IH" [OF refl 1 [symmetric] refl 2] by simp
  have out: "gl' = gl2" "hs = h # hs2"
    using "3.prems" 1 2 by auto
  show ?case
    using testing_owner [OF 1] IH out by (auto simp: owners_def)
qed

section \<open>What a shutdown does\<close>

fun shut_downs :: "shutdown_effect list \<Rightarrow> otel_signal list" where
  "shut_downs [] = []"
| "shut_downs (ShutDown s # es) = s # shut_downs es"
| "shut_downs (_ # es) = shut_downs es"

fun warned :: "shutdown_effect list \<Rightarrow> rstring list" where
  "warned [] = []"
| "warned (Warned m # es) = m # warned es"
| "warned (_ # es) = warned es"

lemma shut_downs_append [simp]: "shut_downs (xs @ ys) = shut_downs xs @ shut_downs ys"
  by (induction xs rule: shut_downs.induct) simp_all

lemma warned_append [simp]: "warned (xs @ ys) = warned xs @ warned ys"
  by (induction xs rule: warned.induct) simp_all

lemma other_effects [simp]:
  "shut_downs (map CloseBoot es) = []" "warned (map CloseBoot es) = []"
  "shut_downs (map StopAgent ags) = []" "warned (map StopAgent ags) = []"
proof -
  show "shut_downs (map CloseBoot es) = []" "warned (map CloseBoot es) = []"
    by (induction es) simp_all
  show "shut_downs (map StopAgent ags) = []" "warned (map StopAgent ags) = []"
    by (induction ags) simp_all
qed

definition live_signals :: "handles \<Rightarrow> otel_signal list" where
  "live_signals h =
     Traces # (if hd_meter h \<noteq> None then [Metrics] else []) @ (if hd_logger h \<noteq> None then [Logs] else [])"

lemma shutdown_one_sel [simp]:
  "shut_downs (shutdown_one s who res) = [s]"
  "length (warned (shutdown_one s who res)) = (if res = None then 0 else 1)"
  by (auto simp: shutdown_one_def split: option.split)

lemma shutdown_providers_sel:
  "shut_downs (shutdown_providers h results) = live_signals h"
  "length (warned (shutdown_providers h results)) = length (filter (\<lambda>s. results s \<noteq> None) (live_signals h))"
  by (simp_all add: shutdown_providers_def live_signals_def)

lemma close_boot_effects:
  "\<exists>es. close_boot h tm now = (if hd_boot_owner h then fst (close tm now) else tm, map CloseBoot es)
     \<and> (\<not> hd_boot_owner h \<longrightarrow> es = [])"
  by (auto simp: close_boot_def case_prod_beta)

section \<open>Properties\<close>

text \<open>
  C26. One owner of the boot: in a process that initialises telemetry any number of times, with
  any outcomes, the first handles returned own the boot timeline and no others do, so its root
  span is ended by one shutdown; with the timeline already connected none does.
\<close>

theorem one_boot_owner:
  assumes "init_all n cs gl = (gl', hs)"
  shows "length (filter hd_boot_owner hs) = (if attached (gl_timeline gl) \<or> hs = [] then 0 else 1)
    \<and> (attached (gl_timeline gl') \<longleftrightarrow> attached (gl_timeline gl) \<or> hs \<noteq> [])"
  using init_all_owners [OF assms] by (simp add: owners_def)

theorem one_boot_owner_witness:
  "length (filter hd_boot_owner (snd (init_all 0 [TestingCall toy_ext (lit ''a''), TestingCall toy_ext (lit ''b'')] toy_globals))) = 1"
proof -
  obtain gl' hs where i: "init_all 0 [TestingCall toy_ext (lit ''a''), TestingCall toy_ext (lit ''b'')] toy_globals = (gl', hs)"
    by (cases "init_all 0 [TestingCall toy_ext (lit ''a''), TestingCall toy_ext (lit ''b'')] toy_globals")
  have "hs \<noteq> []" using i by (auto simp: case_prod_beta Let_def)
  moreover have "\<not> attached (gl_timeline toy_globals)"
    by (simp add: attached_def toy_globals_def bstate_default_def)
  ultimately show ?thesis using one_boot_owner [OF i] i by simp
qed

text \<open>
  C27. Shutdown never fails and the drop does not hang on its providers: whatever errors the providers report, all
  that exist are shut down in order and the result is success, with one warning for each error;
  only the owner closes the boot; and a drop, even over providers that never finish, waits for them
  at most the shutdown timeout, attempts the same shutdowns, and warns exactly when it gave up. What
  the agents of profiling take to stop, after that wait, is not counted.
\<close>

theorem shutdown_absorbs_errors:
  assumes "shutdown h results tm now = (tm1, eff, r)"
    and "drop_handles h results took tm now shown = (tm2, here, there, waited)"
  shows "r = Inr () \<and> tm1 = (if hd_boot_owner h then fst (close tm now) else tm) \<and> tm2 = tm1
    \<and> shut_downs eff = Traces # (if hd_meter h \<noteq> None then [Metrics] else []) @ (if hd_logger h \<noteq> None then [Logs] else [])
    \<and> shut_downs there = shut_downs eff
    \<and> length (warned eff) = length (filter (\<lambda>s. results s \<noteq> None) (shut_downs eff))
    \<and> waited \<le> hd_shutdown_timeout h
    \<and> (warned here = [] \<longleftrightarrow> (\<exists>d. took = Some d \<and> d \<le> hd_shutdown_timeout h))"
proof -
  obtain es where c: "close_boot h tm now = (if hd_boot_owner h then fst (close tm now) else tm, map CloseBoot es)"
    using close_boot_effects by blast
  have "r = Inr ()" "tm1 = (if hd_boot_owner h then fst (close tm now) else tm)"
      "eff = map CloseBoot es @ shutdown_providers h results"
    using assms(1) by (simp_all add: shutdown_def c)
  moreover have "tm2 = (if hd_boot_owner h then fst (close tm now) else tm)" "there = shutdown_providers h results"
      "waited \<le> hd_shutdown_timeout h"
    using assms(2) by (auto simp: drop_handles_def c Let_def split: option.splits)
  moreover have "warned here = [] \<longleftrightarrow> (\<exists>d. took = Some d \<and> d \<le> hd_shutdown_timeout h)"
    using assms(2) by (cases took; cases "hd_profiling h") (auto simp: drop_handles_def c Let_def split: if_splits)
  ultimately show ?thesis
    by (simp add: shutdown_providers_sel) (simp add: live_signals_def)
qed

definition toy_handles :: handles where
  "toy_handles = snd (snd (testing toy_ext 0 (lit ''a'') toy_globals))"

theorem shutdown_absorbs_errors_witness:
  "\<exists>tm1 eff r. shutdown toy_handles (\<lambda>_. Some (lit ''unreachable'')) (gl_timeline toy_globals) 0 = (tm1, eff, r)
     \<and> r = Inr () \<and> length (warned eff) = length (shut_downs eff)"
proof -
  obtain tm1 eff r where s: "shutdown toy_handles (\<lambda>_. Some (lit ''unreachable'')) (gl_timeline toy_globals) 0 = (tm1, eff, r)"
    by (cases "shutdown toy_handles (\<lambda>_. Some (lit ''unreachable'')) (gl_timeline toy_globals) 0")
  obtain tm2 here there waited where
    d: "drop_handles toy_handles (\<lambda>_. Some (lit ''unreachable'')) None (gl_timeline toy_globals) 0 [] = (tm2, here, there, waited)"
    by (cases "drop_handles toy_handles (\<lambda>_. Some (lit ''unreachable'')) None (gl_timeline toy_globals) 0 []")
  from shutdown_absorbs_errors [OF s d] s show ?thesis by simp
qed

end
