(* ===== verification/Middleware.thy ===== *)
theory Middleware
  imports RustStr
begin

text \<open>
  The tower services of \<open>src/src/axum_middleware.rs\<close> and
  \<open>src/src/grpc_middleware.rs\<close>: which handle of the inner service fires a request, the
  context a handler runs in, what is recorded on the span and what goes on the wire. The
  propagator, the tracer, the validity of header texts and the inner service are parameters.
\<close>

section \<open>Contexts, spans, headers\<close>

record span_context =
  sc_trace_id :: nat
  sc_span_id :: nat

definition sc_valid :: "span_context \<Rightarrow> bool" where
  "sc_valid sc \<longleftrightarrow> sc_trace_id sc \<noteq> 0 \<and> sc_span_id sc \<noteq> 0"

text \<open>A \<open>Context\<close>: the active span, if any, and whatever else it carries, as a number.\<close>

record otel_context =
  cx_span :: "span_context option"
  cx_baggage :: nat

definition with_span :: "span_context \<Rightarrow> otel_context \<Rightarrow> otel_context" where
  "with_span sc cx = cx\<lparr>cx_span := Some sc\<rparr>"

datatype span_kind = Server | Client

datatype attr = AttrStr rstring | AttrInt int

text \<open>
  A future, as what it comes to when it is polled in a context; \<open>FutureExt::with_context\<close>
  attaches one for the polls.
\<close>

type_synonym 'r future = "otel_context \<Rightarrow> 'r"

definition with_context :: "'r future \<Rightarrow> otel_context \<Rightarrow> 'r" where
  "with_context fut cx = fut cx"

definition no_context :: otel_context where
  "no_context = \<lparr>cx_span = None, cx_baggage = 0\<rparr>"

record span_start =
  ss_name :: rstring
  ss_kind :: span_kind
  ss_attrs :: "(rstring \<times> attr) list"
  ss_parent :: otel_context

datatype span_op = SetAttr rstring attr | SetError rstring

text \<open>A header map: names with their values in order; a value may not be readable as text.\<close>

datatype header_value = Text rstring | Opaque nat

type_synonym headers = "(rstring \<times> header_value) list"

definition header_keys :: "headers \<Rightarrow> rstring list" where
  "header_keys hs = remdups (map fst hs)"

text \<open>\<open>HeaderMap::insert\<close> replaces every value of the name.\<close>

definition header_insert :: "rstring \<Rightarrow> header_value \<Rightarrow> headers \<Rightarrow> headers" where
  "header_insert k v hs = filter (\<lambda>h. fst h \<noteq> k) hs @ [(k, v)]"

text \<open>
  \<open>HeaderInjector::set\<close> and \<open>MetadataInjector::set\<close>: \<open>name_of\<close> is
  \<open>HeaderName::from_bytes\<close>, which also lowers the case, \<open>value_ok\<close> is
  \<open>HeaderValue::from_str\<close>; a text they refuse is not set.
\<close>

record wire =
  wr_name_of :: "rstring \<Rightarrow> rstring option"
  wr_value_ok :: "rstring \<Rightarrow> bool"

text \<open>The extractors look a name up whatever its case and skip a value that is not text.\<close>

definition header_get :: "wire \<Rightarrow> headers \<Rightarrow> rstring \<Rightarrow> rstring option" where
  "header_get wr hs k =
     (case wr_name_of wr k of
        None \<Rightarrow> None
      | Some name \<Rightarrow> (case map_of hs name of Some (Text v) \<Rightarrow> Some v | _ \<Rightarrow> None))"

definition injector_set :: "wire \<Rightarrow> headers \<Rightarrow> rstring \<times> rstring \<Rightarrow> headers" where
  "injector_set wr hs kv =
     (case wr_name_of wr (fst kv) of
        None \<Rightarrow> hs
      | Some name \<Rightarrow> if wr_value_ok wr (snd kv) then header_insert name (Text (snd kv)) hs else hs)"

text \<open>The propagator: what it extracts through a getter, and the pairs it sets for a context.\<close>

record propagation =
  pg_extract :: "(rstring \<Rightarrow> rstring option) \<Rightarrow> rstring list \<Rightarrow> otel_context"
  pg_inject :: "otel_context \<Rightarrow> (rstring \<times> rstring) list"
  pg_wire :: wire

definition extract_headers :: "propagation \<Rightarrow> headers \<Rightarrow> otel_context" where
  "extract_headers pg hs = pg_extract pg (header_get (pg_wire pg) hs) (header_keys hs)"

definition inject_headers :: "propagation \<Rightarrow> otel_context \<Rightarrow> headers \<Rightarrow> headers" where
  "inject_headers pg cx hs = foldl (injector_set (pg_wire pg)) hs (pg_inject pg cx)"

record request =
  rq_method :: rstring
  rq_path :: rstring
  rq_headers :: headers

record response =
  rs_status :: nat
  rs_headers :: headers
  rs_body :: nat

definition is_server_error :: "response \<Rightarrow> bool" where
  "is_server_error r \<longleftrightarrow> 500 \<le> rs_status r \<and> rs_status r < 600"

section \<open>Which handle fires\<close>

text \<open>
  A layered service holds one handle of the inner service. A call clones it, keeps the clone for
  the next call and fires on the handle that was polled.
\<close>

definition take_ready :: "('s \<Rightarrow> 's) \<Rightarrow> 's \<Rightarrow> 's \<times> 's" where
  "take_ready clone inner = (let copy = clone inner in (inner, copy))"

section \<open>The HTTP server service\<close>

text \<open>
  \<open>OtelTraceService::call\<close>, with the future it returns run to its end: the handle kept for
  the next call, and what was served: the handle fired on, the span started, the context the
  future of the inner service ran in, what was recorded on the span, the outcome. \<open>start\<close> is the
  tracer, \<open>reason\<close> the canonical reason phrase of a status, \<open>fire\<close> the inner service: its call is
  made in the context \<open>ambient\<close> in which the future is polled, and gives a future of its own.
\<close>

record ('s, 'e) served =
  sv_fired :: 's
  sv_start :: span_start
  sv_context :: otel_context
  sv_ops :: "span_op list"
  sv_result :: "'e + response"

definition http_call ::
    "propagation \<Rightarrow> (span_start \<Rightarrow> span_context) \<Rightarrow> (nat \<Rightarrow> rstring option) \<Rightarrow> otel_context \<Rightarrow> ('s \<Rightarrow> 's)
       \<Rightarrow> ('s \<Rightarrow> otel_context \<Rightarrow> request \<Rightarrow> ('e + response) future) \<Rightarrow> 's \<Rightarrow> request \<Rightarrow> 's \<times> ('s, 'e) served" where
  "http_call pg start reason ambient clone fire s req =
     (let parent = extract_headers pg (rq_headers req);
          ss = \<lparr>ss_name = rq_method req @ 32 # rq_path req, ss_kind = Server,
                ss_attrs = [(lit ''http.request.method'', AttrStr (rq_method req))], ss_parent = parent\<rparr>;
          cx = with_span (start ss) parent;
          (inner, next) = take_ready clone s
      in (next, case with_context (fire inner ambient req) cx of
           Inl e \<Rightarrow> \<lparr>sv_fired = inner, sv_start = ss, sv_context = cx, sv_ops = [], sv_result = Inl e\<rparr>
         | Inr r \<Rightarrow>
             \<lparr>sv_fired = inner, sv_start = ss, sv_context = cx,
              sv_ops = SetAttr (lit ''http.response.status_code'') (AttrInt (int (rs_status r)))
                # (if is_server_error r then [SetError (unwrap_or (reason (rs_status r)) [])] else []),
              sv_result = Inr (r\<lparr>rs_headers := inject_headers pg cx (rs_headers r)\<rparr>)\<rparr>))"

text \<open>
  \<open>SpanEnricherService::call\<close>: an extension of the expected type enriches the current span
  and the inner service, held by the layer itself, is called in place.
\<close>

definition enricher_call ::
    "('t \<Rightarrow> 'sp \<Rightarrow> 'sp) \<Rightarrow> ('s \<Rightarrow> 'sp \<Rightarrow> 'q \<Rightarrow> 's \<times> 'r) \<Rightarrow> 's \<Rightarrow> 'sp \<Rightarrow> 't option \<Rightarrow> 'q \<Rightarrow> 'sp \<times> 's \<times> 'r" where
  "enricher_call enrich fire s current ext req =
     (let sp = (case ext of Some t \<Rightarrow> enrich t current | None \<Rightarrow> current)
      in (sp, fire s sp req))"

section \<open>The gRPC services\<close>

text \<open>The gRPC side has an extractor and an injector of its own, over the same header map.\<close>

definition metadata_get :: "wire \<Rightarrow> headers \<Rightarrow> rstring \<Rightarrow> rstring option" where
  "metadata_get wr hs k =
     Option.bind (Option.bind (wr_name_of wr k) (map_of hs)) (\<lambda>v. case v of Text t \<Rightarrow> Some t | Opaque n \<Rightarrow> None)"

definition metadata_keys :: "headers \<Rightarrow> rstring list" where
  "metadata_keys hs = remdups (map fst hs)"

definition metadata_set :: "wire \<Rightarrow> headers \<Rightarrow> rstring \<times> rstring \<Rightarrow> headers" where
  "metadata_set wr hs kv =
     (case (wr_name_of wr (fst kv), wr_value_ok wr (snd kv)) of
        (Some name, True) \<Rightarrow> header_insert name (Text (snd kv)) hs
      | _ \<Rightarrow> hs)"

definition extract_metadata :: "propagation \<Rightarrow> headers \<Rightarrow> otel_context" where
  "extract_metadata pg hs = pg_extract pg (metadata_get (pg_wire pg) hs) (metadata_keys hs)"

definition inject_metadata :: "propagation \<Rightarrow> otel_context \<Rightarrow> headers \<Rightarrow> headers" where
  "inject_metadata pg cx hs = foldl (metadata_set (pg_wire pg)) hs (pg_inject pg cx)"

lemma metadata_is_headers:
  "extract_metadata pg hs = extract_headers pg hs" "inject_metadata pg cx hs = inject_headers pg cx hs"
proof -
  have "metadata_get wr hs = header_get wr hs" for wr
    by (rule ext) (simp add: metadata_get_def header_get_def split: option.split header_value.split)
  then show "extract_metadata pg hs = extract_headers pg hs"
    by (simp add: extract_metadata_def extract_headers_def metadata_keys_def header_keys_def)
  have "metadata_set wr = injector_set wr" for wr
    by (intro ext) (simp add: metadata_set_def injector_set_def split: option.split bool.split)
  then show "inject_metadata pg cx hs = inject_headers pg cx hs"
    by (simp add: inject_metadata_def inject_headers_def)
qed

definition grpc_server_call ::
    "propagation \<Rightarrow> (span_start \<Rightarrow> span_context) \<Rightarrow> (nat \<Rightarrow> rstring option) \<Rightarrow> otel_context \<Rightarrow> ('s \<Rightarrow> 's)
       \<Rightarrow> ('s \<Rightarrow> otel_context \<Rightarrow> request \<Rightarrow> ('e + response) future) \<Rightarrow> 's \<Rightarrow> request \<Rightarrow> 's \<times> ('s, 'e) served" where
  "grpc_server_call pg start reason ambient clone fire s req =
     (let parent = extract_metadata pg (rq_headers req);
          ss = \<lparr>ss_name = rq_path req, ss_kind = Server, ss_attrs = [], ss_parent = parent\<rparr>;
          cx = with_span (start ss) parent;
          (inner, next) = take_ready clone s;
          result = with_context (fire inner ambient req) cx
      in (next, \<lparr>sv_fired = inner, sv_start = ss, sv_context = cx,
          sv_ops = (case result of
              Inr r \<Rightarrow> if is_server_error r then [SetError (unwrap_or (reason (rs_status r)) [])] else []
            | Inl e \<Rightarrow> [SetError (lit ''transport error'')]),
          sv_result = result\<rparr>))"

text \<open>
  The client: the span starts under the current context and is put on the request; the handle
  fired on, the span, the request sent and the result are kept.
\<close>

definition grpc_client_call ::
    "propagation \<Rightarrow> (span_start \<Rightarrow> span_context) \<Rightarrow> otel_context \<Rightarrow> ('s \<Rightarrow> 's)
       \<Rightarrow> ('s \<Rightarrow> request \<Rightarrow> 'r) \<Rightarrow> 's \<Rightarrow> request \<Rightarrow> 's \<times> 's \<times> span_start \<times> request \<times> 'r" where
  "grpc_client_call pg start current clone fire s req =
     (let ss = \<lparr>ss_name = rq_path req, ss_kind = Client, ss_attrs = [], ss_parent = current\<rparr>;
          cx = with_span (start ss) current;
          req = req\<lparr>rq_headers := inject_metadata pg cx (rq_headers req)\<rparr>;
          (inner, next) = take_ready clone s
      in (next, inner, ss, req, fire inner req))"

section \<open>Facts\<close>

lemma header_insert_get: "map_of (header_insert k v hs) j = (if j = k then Some v else map_of hs j)"
proof (induction hs)
  case (Cons h hs)
  then show ?case by (cases h) (auto simp: header_insert_def)
qed (simp add: header_insert_def)

definition wire_pairs :: "wire \<Rightarrow> (rstring \<times> rstring) list \<Rightarrow> (rstring \<times> rstring) list" where
  "wire_pairs wr kvs = concat (map (\<lambda>(k, v). case wr_name_of wr k of None \<Rightarrow> []
     | Some n \<Rightarrow> if wr_value_ok wr v then [(n, v)] else []) kvs)"

lemma wire_pairs_Nil [simp]: "wire_pairs wr [] = []"
  by (simp add: wire_pairs_def)

lemma wire_pairs_append [simp]: "wire_pairs wr (xs @ ys) = wire_pairs wr xs @ wire_pairs wr ys"
  by (simp add: wire_pairs_def)

lemma injector_set_wire:
  "injector_set wr hs kv = foldl (\<lambda>hs (n, v). header_insert n (Text v) hs) hs (wire_pairs wr [kv])"
  by (cases kv) (simp add: injector_set_def wire_pairs_def split: option.split)

lemma foldl_insert_get:
  "map_of (foldl (\<lambda>hs (n, v). header_insert n (Text v) hs) hs ps) j =
     (case map_of (rev ps) j of Some v \<Rightarrow> Some (Text v) | None \<Rightarrow> map_of hs j)"
  by (induction ps rule: rev_induct) (auto simp: header_insert_get split: option.split)

lemma injector_fold:
  "foldl (injector_set wr) hs kvs = foldl (\<lambda>hs (n, v). header_insert n (Text v) hs) hs (wire_pairs wr kvs)"
  by (induction kvs rule: rev_induct) (simp_all add: injector_set_wire)

text \<open>After an injection a header reads what was set for it last, else what it was.\<close>

lemma inject_headers_get:
  "map_of (inject_headers pg cx hs) k =
     (case map_of (rev (wire_pairs (pg_wire pg) (pg_inject pg cx))) k of
        Some v \<Rightarrow> Some (Text v) | None \<Rightarrow> map_of hs k)"
  by (simp add: inject_headers_def injector_fold foldl_insert_get)

section \<open>Runs of polls and calls\<close>

text \<open>
  The life of a layered service over an inner service whose handles are polled: a poll reaches
  the handle held and says whether it is ready, a call is any of the services above. The run
  collects the handles fired on. A caller follows the contract when each call comes after a poll
  that said ready, with no call between.
\<close>

datatype 'q service_op = PollReady | CallOp 'q

fun fired :: "('s \<Rightarrow> 's \<times> bool) \<Rightarrow> ('s \<Rightarrow> 'q \<Rightarrow> 's \<times> 'o) \<Rightarrow> ('o \<Rightarrow> 's) \<Rightarrow> 's \<Rightarrow> 'q service_op list \<Rightarrow> 's list" where
  "fired poll call on s [] = []"
| "fired poll call on s (PollReady # ops) = fired poll call on (fst (poll s)) ops"
| "fired poll call on s (CallOp q # ops) =
     on (snd (call s q)) # fired poll call on (fst (call s q)) ops"

fun polls_before_calls :: "('s \<Rightarrow> 's \<times> bool) \<Rightarrow> ('s \<Rightarrow> 'q \<Rightarrow> 's \<times> 'o) \<Rightarrow> bool \<Rightarrow> 's \<Rightarrow> 'q service_op list \<Rightarrow> bool" where
  "polls_before_calls poll call ready s [] = True"
| "polls_before_calls poll call ready s (PollReady # ops) =
     polls_before_calls poll call (snd (poll s)) (fst (poll s)) ops"
| "polls_before_calls poll call ready s (CallOp q # ops) =
     (ready \<and> polls_before_calls poll call False (fst (call s q)) ops)"

text \<open>
  The contract the three tracing services share: a call fires on the handle it was reached with and keeps
  a clone of it.
\<close>

locale swapping_service =
  fixes clone :: "'s \<Rightarrow> 's" and call :: "'s \<Rightarrow> 'q \<Rightarrow> 's \<times> 'o" and on :: "'o \<Rightarrow> 's"
  assumes keeps_clone: "fst (call s q) = clone s"
    and fires_held: "on (snd (call s q)) = s"
begin

lemma fired_ready:
  assumes "\<And>s. snd (poll s) \<Longrightarrow> is_ready (fst (poll s))"
  shows "polls_before_calls poll call rdy s ops \<Longrightarrow> (rdy \<longrightarrow> is_ready s)
    \<Longrightarrow> \<forall>h\<in>set (fired poll call on s ops). is_ready h"
proof (induction ops arbitrary: rdy s)
  case (Cons op ops)
  show ?case
  proof (cases op)
    case PollReady
    with Cons.prems Cons.IH [of "snd (poll s)" "fst (poll s)"] assms [of s] show ?thesis
      by simp
  next
    case (CallOp q)
    with Cons.prems have ready: "is_ready s" and rest: "polls_before_calls poll call False (fst (call s q)) ops"
      by simp_all
    from Cons.IH [OF rest] have "\<forall>h\<in>set (fired poll call on (fst (call s q)) ops). is_ready h"
      by blast
    with ready CallOp show ?thesis by (simp add: fires_held)
  qed
qed simp

end

interpretation http: swapping_service clone "http_call pg start reason ambient clone fire" sv_fired
  for clone pg start reason ambient fire
  by unfold_locales (simp_all add: http_call_def take_ready_def Let_def split: sum.split)

interpretation grpc_server: swapping_service clone "grpc_server_call pg start reason ambient clone fire" sv_fired
  for clone pg start reason ambient fire
  by unfold_locales (simp_all add: grpc_server_call_def take_ready_def Let_def)

interpretation grpc_client: swapping_service clone "grpc_client_call pg start current clone fire" fst
  for clone pg start current fire
  by unfold_locales (simp_all add: grpc_client_call_def take_ready_def Let_def)

section \<open>Properties\<close>

definition id_wire :: wire where
  "id_wire = \<lparr>wr_name_of = Some, wr_value_ok = (\<lambda>_. True)\<rparr>"

definition toy_propagation :: propagation where
  "toy_propagation = \<lparr>
     pg_extract = (\<lambda>get ks. \<lparr>cx_span = map_option (\<lambda>v. \<lparr>sc_trace_id = v ! 0, sc_span_id = v ! 1\<rparr>) (get (lit ''traceparent'')),
                          cx_baggage = 0\<rparr>),
     pg_inject = (\<lambda>cx. case cx_span cx of None \<Rightarrow> []
       | Some sc \<Rightarrow> [(lit ''traceparent'', [sc_trace_id sc, sc_span_id sc])]),
     pg_wire = id_wire\<rparr>"

definition toy_start :: "span_start \<Rightarrow> span_context" where
  "toy_start ss = (case cx_span (ss_parent ss) of
       Some p \<Rightarrow> if sc_valid p then p\<lparr>sc_span_id := sc_span_id p + 1\<rparr> else \<lparr>sc_trace_id = 9, sc_span_id = 1\<rparr>
     | None \<Rightarrow> \<lparr>sc_trace_id = 9, sc_span_id = 1\<rparr>)"

definition ping :: request where
  "ping = \<lparr>rq_method = lit ''GET'', rq_path = lit ''/ping'', rq_headers = []\<rparr>"

text \<open>
  C28. A request is fired only on a handle that is ready: over an inner service whose readiness is
  per handle, a caller that waits for a ready poll before each call makes the HTTP and gRPC
  services call only handles that were polled ready since they were cloned, never a fresh clone.
\<close>

theorem calls_fire_on_polled_handles:
  assumes "\<And>s. snd (poll s) \<Longrightarrow> is_ready (fst (poll s))"
    and "polls_before_calls poll (http_call pg start reason ambient clone fire) False s ops"
    and "polls_before_calls poll (grpc_client_call pg start current clone send) False s ops"
    and "polls_before_calls poll (grpc_server_call pg start reason ambient clone fire) False s ops"
  shows "(\<forall>h\<in>set (fired poll (http_call pg start reason ambient clone fire) sv_fired s ops). is_ready h)
    \<and> (\<forall>h\<in>set (fired poll (grpc_client_call pg start current clone send) fst s ops). is_ready h)
    \<and> (\<forall>h\<in>set (fired poll (grpc_server_call pg start reason ambient clone fire) sv_fired s ops). is_ready h)"
proof (intro conjI)
  show "\<forall>h\<in>set (fired poll (http_call pg start reason ambient clone fire) sv_fired s ops). is_ready h"
    by (rule http.fired_ready [where is_ready = is_ready, OF assms(1) assms(2)]) simp_all
  show "\<forall>h\<in>set (fired poll (grpc_client_call pg start current clone send) fst s ops). is_ready h"
    by (rule grpc_client.fired_ready [where is_ready = is_ready, OF assms(1) assms(3)]) simp_all
  show "\<forall>h\<in>set (fired poll (grpc_server_call pg start reason ambient clone fire) sv_fired s ops). is_ready h"
    by (rule grpc_server.fired_ready [where is_ready = is_ready, OF assms(1) assms(4)]) simp_all
qed

theorem calls_fire_on_polled_handles_witness:
  "fired (\<lambda>_. (True, True)) (http_call toy_propagation toy_start (\<lambda>_. None) no_context (\<lambda>_. False) (\<lambda>_ _ _ _. Inl ())) sv_fired
      False [PollReady, CallOp ping, PollReady, CallOp ping] = [True, True]
   \<and> False \<notin> set (fired (\<lambda>_. (True, True)) (http_call toy_propagation toy_start (\<lambda>_. None) no_context (\<lambda>_. False) (\<lambda>_ _ _ _. Inl ())) sv_fired
      False [PollReady, CallOp ping, PollReady, CallOp ping])"
  using calls_fire_on_polled_handles [of "\<lambda>_. (True, True)" "\<lambda>h. h" toy_propagation toy_start "\<lambda>_. None" no_context "\<lambda>_. False"
      "\<lambda>_ _ _ _. Inl ()" False "[PollReady, CallOp ping, PollReady, CallOp ping]" "\<lparr>cx_span = None, cx_baggage = 0\<rparr>" "\<lambda>_ _. ()"]
  by (simp add: http_call_def with_context_def grpc_client_call_def grpc_server_call_def take_ready_def Let_def
      toy_propagation_def)

text \<open>
  C29. An HTTP request continues its caller's trace: its span starts under the context extracted
  from its headers and the future of its handler runs in that context with the span active; a response keeps
  its status, body and other headers and carries the context in the headers the propagator sets;
  an error is returned as it is; and the span is failed exactly on a server error, its status
  code recorded on every response.
\<close>

theorem http_request_continues_trace:
  assumes "http_call pg start reason ambient clone fire s req = (s', out)"
  shows "sv_context out = (extract_headers pg (rq_headers req))\<lparr>cx_span := Some (start (sv_start out))\<rparr>
    \<and> ss_parent (sv_start out) = extract_headers pg (rq_headers req)
    \<and> (case fire s ambient req (sv_context out) of
        Inl e \<Rightarrow> sv_result out = Inl e
      | Inr r \<Rightarrow> \<exists>r'. sv_result out = Inr r' \<and> rs_status r' = rs_status r \<and> rs_body r' = rs_body r
          \<and> (\<forall>k. map_of (rs_headers r') k =
               (case map_of (rev (wire_pairs (pg_wire pg) (pg_inject pg (sv_context out)))) k of
                  Some v \<Rightarrow> Some (Text v) | None \<Rightarrow> map_of (rs_headers r) k))
          \<and> ((\<exists>d. SetError d \<in> set (sv_ops out)) = (500 \<le> rs_status r \<and> rs_status r < 600))
          \<and> SetAttr (lit ''http.response.status_code'') (AttrInt (int (rs_status r))) \<in> set (sv_ops out))"
  using assms
  by (auto simp: http_call_def with_context_def Let_def take_ready_def with_span_def inject_headers_get is_server_error_def
      split: sum.split option.split)

definition down :: "unit \<Rightarrow> otel_context \<Rightarrow> request \<Rightarrow> (unit + response) future" where
  "down = (\<lambda>_ ambient req cx. Inr \<lparr>rs_status = 503, rs_headers = [(lit ''a'', Text [1])], rs_body = 4\<rparr>)"

theorem http_request_continues_trace_witness:
  "\<exists>out. http_call toy_propagation toy_start (\<lambda>_. None) no_context (\<lambda>_. ()) down () ping = ((), out)
     \<and> sv_context out = (extract_headers toy_propagation [])\<lparr>cx_span := Some \<lparr>sc_trace_id = 9, sc_span_id = 1\<rparr>\<rparr>
     \<and> (\<exists>d. SetError d \<in> set (sv_ops out))"
proof -
  obtain out where o: "http_call toy_propagation toy_start (\<lambda>_. None) no_context (\<lambda>_. ()) down () ping = ((), out)"
    by (metis old.unit.exhaust surj_pair)
  have no_span: "cx_span (extract_headers toy_propagation []) = None"
    by (simp add: extract_headers_def toy_propagation_def id_wire_def header_get_def)
  from http_request_continues_trace [OF o]
  show ?thesis using o no_span by (auto simp: down_def ping_def toy_start_def)
qed

text \<open>
  C32. A gRPC call crosses the wire: a client call and the server call that receives the request
  it sent are one trace, the caller's when the caller has a valid one. The request keeps its
  method and path, the server's span is a child of the client's and active in the handler, the
  handler's result is returned as it is and fails the span exactly when it is a transport error
  or a 5xx response. The hypotheses are what the propagator and the tracers promise: a valid span
  context survives injection and extraction, and a started span has a valid context in its valid
  parent's trace.
\<close>

theorem grpc_call_crosses_the_wire:
  assumes survives: "\<And>cx hs sc. cx_span cx = Some sc \<Longrightarrow> sc_valid sc
      \<Longrightarrow> cx_span (extract_headers pg (inject_headers pg cx hs)) = Some sc"
    and valid: "\<And>ss. sc_valid (start ss)"
    and child: "\<And>ss p. cx_span (ss_parent ss) = Some p \<Longrightarrow> sc_valid p \<Longrightarrow> sc_trace_id (start ss) = sc_trace_id p"
    and child': "\<And>ss p. cx_span (ss_parent ss) = Some p \<Longrightarrow> sc_valid p \<Longrightarrow> sc_trace_id (start' ss) = sc_trace_id p"
    and client: "grpc_client_call pg start current clone send s req = (s', h, cs, sent, result)"
    and server: "grpc_server_call pg start' reason ambient clone' fire t sent = (t', out)"
  shows "rq_method sent = rq_method req \<and> rq_path sent = rq_path req \<and> result = send s sent
    \<and> cx_span (ss_parent (sv_start out)) = Some (start cs)
    \<and> cx_span (sv_context out) = Some (start' (sv_start out))
    \<and> sc_trace_id (start' (sv_start out)) = sc_trace_id (start cs)
    \<and> (case cx_span current of Some p \<Rightarrow> sc_valid p \<longrightarrow> sc_trace_id (start' (sv_start out)) = sc_trace_id p | None \<Rightarrow> True)
    \<and> sv_result out = fire t ambient sent (sv_context out)
    \<and> (\<exists>d. SetError d \<in> set (sv_ops out))
        = (case sv_result out of Inl e \<Rightarrow> True | Inr r \<Rightarrow> 500 \<le> rs_status r \<and> rs_status r < 600)"
proof -
  let ?cx = "with_span (start cs) current"
  have cs: "ss_parent cs = current" and sent: "sent = req\<lparr>rq_headers := inject_headers pg ?cx (rq_headers req)\<rparr>"
    and result: "result = send s sent"
    using client by (auto simp: grpc_client_call_def metadata_is_headers Let_def take_ready_def)
  have "cx_span ?cx = Some (start cs)" by (simp add: with_span_def)
  from survives [OF this valid] have extracted: "cx_span (extract_headers pg (rq_headers sent)) = Some (start cs)"
    by (simp add: sent)
  have parent: "ss_parent (sv_start out) = extract_headers pg (rq_headers sent)"
    and handler: "sv_context out = with_span (start' (sv_start out)) (extract_headers pg (rq_headers sent))"
    and outcome: "sv_result out = fire t ambient sent (sv_context out)"
    and status: "(\<exists>d. SetError d \<in> set (sv_ops out))
        = (case sv_result out of Inl e \<Rightarrow> True | Inr r \<Rightarrow> 500 \<le> rs_status r \<and> rs_status r < 600)"
    using server
    by (auto simp: grpc_server_call_def with_context_def metadata_is_headers Let_def take_ready_def is_server_error_def split: sum.split)
  have same: "sc_trace_id (start' (sv_start out)) = sc_trace_id (start cs)"
    by (rule child') (simp_all add: parent extracted valid)
  have "sc_trace_id (start' (sv_start out)) = sc_trace_id p" if "cx_span current = Some p" "sc_valid p" for p
    using child [of cs p] that by (simp add: cs same)
  then show ?thesis
    using parent handler outcome status result extracted same
    by (simp add: sent with_span_def split: option.split)
qed

lemma toy_survives:
  "cx_span cx = Some sc
    \<Longrightarrow> cx_span (extract_headers toy_propagation (inject_headers toy_propagation cx hs)) = Some sc"
proof -
  assume sc: "cx_span cx = Some sc"
  have "map_of (inject_headers toy_propagation cx hs) (lit ''traceparent'')
      = Some (Text [sc_trace_id sc, sc_span_id sc])"
    unfolding inject_headers_get by (simp add: toy_propagation_def id_wire_def wire_pairs_def sc)
  then have "header_get (pg_wire toy_propagation) (inject_headers toy_propagation cx hs) (lit ''traceparent'')
      = Some [sc_trace_id sc, sc_span_id sc]"
    by (simp add: header_get_def) (simp add: toy_propagation_def id_wire_def)
  then show ?thesis
    unfolding extract_headers_def by (simp add: toy_propagation_def)
qed

lemma toy_start_valid: "sc_valid (toy_start ss)"
  by (simp add: toy_start_def sc_valid_def split: option.split)

lemma toy_start_child: "cx_span (ss_parent ss) = Some p \<Longrightarrow> sc_valid p \<Longrightarrow> sc_trace_id (toy_start ss) = sc_trace_id p"
  by (simp add: toy_start_def)

theorem grpc_call_crosses_the_wire_witness:
  "\<exists>cs sent out.
     grpc_client_call toy_propagation toy_start \<lparr>cx_span = Some \<lparr>sc_trace_id = 7, sc_span_id = 2\<rparr>, cx_baggage = 0\<rparr>
       (\<lambda>_. ()) (\<lambda>_ _. ()) () ping = ((), (), cs, sent, ())
     \<and> grpc_server_call toy_propagation toy_start (\<lambda>_. None) no_context (\<lambda>_. ()) down () sent = ((), out)
     \<and> sc_trace_id (toy_start (sv_start out)) = 7 \<and> (\<exists>d. SetError d \<in> set (sv_ops out))"
proof -
  obtain cs sent where c: "grpc_client_call toy_propagation toy_start
      \<lparr>cx_span = Some \<lparr>sc_trace_id = 7, sc_span_id = 2\<rparr>, cx_baggage = 0\<rparr> (\<lambda>_. ()) (\<lambda>_ _. ()) () ping
      = ((), (), cs, sent, ())"
    by (metis old.unit.exhaust surj_pair)
  obtain out where o: "grpc_server_call toy_propagation toy_start (\<lambda>_. None) no_context (\<lambda>_. ()) down () sent = ((), out)"
    by (metis old.unit.exhaust surj_pair)
  from grpc_call_crosses_the_wire [OF toy_survives toy_start_valid toy_start_child toy_start_child c o]
  have "sc_trace_id (toy_start (sv_start out)) = 7 \<and> (\<exists>d. SetError d \<in> set (sv_ops out))"
    by (auto simp: sc_valid_def down_def)
  with c o show ?thesis by blast
qed

end
