(* ===== verification/Instrumented.thy ===== *)
theory Instrumented
  imports Middleware
begin

text \<open>
  Outbound port calls under a client span (\<open>src/src/instrumented_port.rs\<close>). The tracer and
  the delegated call are parameters.
\<close>

section \<open>The wrapper\<close>

definition PORT_OPERATION :: rstring where "PORT_OPERATION = lit ''port.operation''"
definition PORT_PROVIDER_HINT :: rstring where "PORT_PROVIDER_HINT = lit ''port.provider_hint''"
definition PORT_NAME :: rstring where "PORT_NAME = lit ''port.name''"

record 'p instrumented =
  ip_inner :: 'p
  ip_port_name :: rstring
  ip_provider_hint :: "rstring option"

definition instrumented_new :: "'p \<Rightarrow> rstring \<Rightarrow> rstring option \<Rightarrow> 'p instrumented" where
  "instrumented_new inner port_name provider_hint =
     \<lparr>ip_inner = inner, ip_port_name = port_name, ip_provider_hint = provider_hint\<rparr>"

text \<open>\<open>Context::new()\<close>: no span, nothing carried.\<close>

definition context_new :: otel_context where
  "context_new = \<lparr>cx_span = None, cx_baggage = 0\<rparr>"

text \<open>\<open>cx.span().span_context().is_valid()\<close>; without a span the context is the invalid one.\<close>

definition has_valid_span :: "otel_context \<Rightarrow> bool" where
  "has_valid_span cx = (case cx_span cx of Some sc \<Rightarrow> sc_valid sc | None \<Rightarrow> False)"

text \<open>
  \<open>Instrumented::call\<close> with its future run to the end: the span started, the context the
  delegated call ran in, what was recorded, the outcome. \<open>op\<close> is the delegated call.
\<close>

record ('e, 't) ported =
  pc_start :: span_start
  pc_context :: otel_context
  pc_ops :: "span_op list"
  pc_result :: "'e + 't"

definition port_call ::
    "(span_start \<Rightarrow> span_context) \<Rightarrow> otel_context \<Rightarrow> 'p instrumented \<Rightarrow> rstring
       \<Rightarrow> ('p \<Rightarrow> otel_context \<Rightarrow> 'e + 't) \<Rightarrow> ('e, 't) ported" where
  "port_call start current self operation op =
     (let span_name = ip_port_name self @ 46 # operation;
          attributes = [(PORT_NAME, AttrStr (ip_port_name self)), (PORT_OPERATION, AttrStr operation)];
          attributes = (case ip_provider_hint self of
              None \<Rightarrow> attributes
            | Some hint \<Rightarrow> attributes @ [(PORT_PROVIDER_HINT, AttrStr hint)]);
          ss = (if has_valid_span current
                then \<lparr>ss_name = span_name, ss_kind = Client, ss_attrs = attributes, ss_parent = current\<rparr>
                else \<lparr>ss_name = span_name, ss_kind = Client, ss_attrs = attributes, ss_parent = context_new\<rparr>);
          cx = with_span (start ss) current;
          result = op (ip_inner self) cx
      in \<lparr>pc_start = ss, pc_context = cx,
          pc_ops = (if isl result then [SetError (lit ''port call failed'')] else []),
          pc_result = result\<rparr>)"

section \<open>Facts\<close>

lemma port_call_sel:
  "ss_name (pc_start (port_call start current self operation op)) = ip_port_name self @ 46 # operation"
  "ss_kind (pc_start (port_call start current self operation op)) = Client"
  "ss_parent (pc_start (port_call start current self operation op))
     = (if has_valid_span current then current else context_new)"
  "pc_context (port_call start current self operation op)
     = with_span (start (pc_start (port_call start current self operation op))) current"
  "pc_result (port_call start current self operation op)
     = op (ip_inner self) (pc_context (port_call start current self operation op))"
  "pc_ops (port_call start current self operation op)
     = (if isl (pc_result (port_call start current self operation op)) then [SetError (lit ''port call failed'')] else [])"
  by (simp_all add: port_call_def Let_def)

lemma port_call_start:
  "pc_start (port_call start current self operation op) = pc_start (port_call start current self operation op')"
  by (simp add: port_call_def Let_def)

lemma no_parent [simp]: "cx_span context_new = None"
  by (simp add: context_new_def)

section \<open>Property\<close>

text \<open>
  C33. A port call is traced whatever context it is made in and whatever its adapter says. Its span
  has a trace id even when the current context holds an invalid one (which the tracer would copy),
  and is in the caller's trace when the caller has a valid one; the call runs with the span active
  and its result is returned as it is; and two calls that both fail leave the same span behind, so
  no error of an adapter reaches the telemetry. The hypotheses are the tracer's: under a parent
  span it takes the parent's trace id as it is, under none it mints one.
\<close>

theorem port_calls_are_traced:
  assumes copies: "\<And>ss p. cx_span (ss_parent ss) = Some p \<Longrightarrow> sc_trace_id (start ss) = sc_trace_id p"
    and mints: "\<And>ss. cx_span (ss_parent ss) = None \<Longrightarrow> sc_trace_id (start ss) \<noteq> 0"
    and call: "port_call start current self operation op = pc"
    and other: "port_call start current self operation op' = pc'"
  shows "sc_trace_id (start (pc_start pc)) \<noteq> 0
    \<and> (case cx_span current of
         Some p \<Rightarrow> sc_valid p \<longrightarrow> sc_trace_id (start (pc_start pc)) = sc_trace_id p
       | None \<Rightarrow> True)
    \<and> cx_span (pc_context pc) = Some (start (pc_start pc))
    \<and> pc_result pc = op (ip_inner self) (pc_context pc)
    \<and> (isl (pc_result pc) = isl (pc_result pc') \<longrightarrow> pc_start pc = pc_start pc' \<and> pc_ops pc = pc_ops pc')
    \<and> (pc_ops pc \<noteq> [] \<longleftrightarrow> isl (pc_result pc))"
proof -
  have "sc_trace_id (start (pc_start pc)) \<noteq> 0
    \<and> (case cx_span current of
         Some p \<Rightarrow> sc_valid p \<longrightarrow> sc_trace_id (start (pc_start pc)) = sc_trace_id p
       | None \<Rightarrow> True)"
  proof (cases "has_valid_span current")
    case True
    then obtain p where p: "cx_span current = Some p" "sc_valid p"
      by (auto simp: has_valid_span_def split: option.splits)
    with True have "sc_trace_id (start (pc_start pc)) = sc_trace_id p"
      by (intro copies) (simp add: call [symmetric] port_call_sel)
    with p show ?thesis by (simp add: sc_valid_def)
  next
    case False
    then have "sc_trace_id (start (pc_start pc)) \<noteq> 0"
      by (intro mints) (simp add: call [symmetric] port_call_sel)
    with False show ?thesis by (simp add: has_valid_span_def split: option.splits)
  qed
  moreover have "pc_start pc = pc_start pc'"
    unfolding call [symmetric] other [symmetric] by (rule port_call_start)
  ultimately show ?thesis
    unfolding call [symmetric] other [symmetric]
    by (simp add: port_call_sel(4-6) with_span_def port_call_start [of start current self operation op op'])
qed

definition copying_start :: "span_start \<Rightarrow> span_context" where
  "copying_start ss = (case cx_span (ss_parent ss) of
       Some p \<Rightarrow> \<lparr>sc_trace_id = sc_trace_id p, sc_span_id = 5\<rparr>
     | None \<Rightarrow> \<lparr>sc_trace_id = 31, sc_span_id = 5\<rparr>)"

lemma copying_start_tracer:
  "cx_span (ss_parent ss) = Some p \<Longrightarrow> sc_trace_id (copying_start ss) = sc_trace_id p"
  "cx_span (ss_parent ss) = None \<Longrightarrow> sc_trace_id (copying_start ss) \<noteq> 0"
  by (simp_all add: copying_start_def)

theorem port_calls_are_traced_witness:
  "\<exists>pc. port_call copying_start \<lparr>cx_span = Some \<lparr>sc_trace_id = 0, sc_span_id = 0\<rparr>, cx_baggage = 0\<rparr>
       (instrumented_new () (lit ''KmsProvider'') (Some (lit ''aws-kms''))) (lit ''unwrap'')
       (\<lambda>_ _. Inl (lit ''key arn:1'') :: rstring + unit) = pc
     \<and> sc_trace_id (copying_start (pc_start pc)) \<noteq> 0 \<and> pc_ops pc \<noteq> []
     \<and> pc_result pc = Inl (lit ''key arn:1'')"
proof -
  obtain pc where call: "port_call copying_start \<lparr>cx_span = Some \<lparr>sc_trace_id = 0, sc_span_id = 0\<rparr>, cx_baggage = 0\<rparr>
       (instrumented_new () (lit ''KmsProvider'') (Some (lit ''aws-kms''))) (lit ''unwrap'')
       (\<lambda>_ _. Inl (lit ''key arn:1'') :: rstring + unit) = pc" by blast
  from port_calls_are_traced [OF copying_start_tracer call call]
  have "sc_trace_id (copying_start (pc_start pc)) \<noteq> 0 \<and> pc_ops pc \<noteq> [] \<and> pc_result pc = Inl (lit ''key arn:1'')"
    by auto
  with call show ?thesis by blast
qed

end
