(* ===== verification/Spanned.thy ===== *)
theory Spanned
  imports Prelude
begin

text \<open>
  Async work under a span (\<open>src/src/spanned.rs\<close>): \<open>in_span\<close> and \<open>Spanned::run\<close> as
  the state machines their async bodies are, polled on any thread of a pool, in between the
  polls of other tasks, and dropped at any await when they are cancelled. What a poll of a future
  and its destructor do, and \<open>Instrument::instrument\<close>, are parameters. A thread has its stack of
  entered spans, the innermost first; a future sees the stack of the thread it runs on, and each
  event of a poll or of a drop is given with the stack it happened under.
\<close>

section \<open>The wrappers\<close>

type_synonym 'sp stack = "'sp list"

type_synonym ('e, 'sp) seen = "('e \<times> 'sp stack) list"

record ('f, 'sp, 'e, 'r) futures =
  fu_poll :: "'f \<Rightarrow> 'sp stack \<Rightarrow> 'f \<times> 'sp stack \<times> ('e, 'sp) seen \<times> 'r option"
  fu_drop :: "'f \<Rightarrow> 'sp stack \<Rightarrow> 'sp stack \<times> ('e, 'sp) seen"
  fu_instrument :: "'f \<Rightarrow> 'sp \<Rightarrow> 'f"

text \<open>
  An async body with one await: not polled yet, with what it captured; waiting at the await;
  returned; dropped before it returned. Nothing of the body runs before the first poll.
\<close>

datatype ('sp, 'f) span_future = NotPolled 'sp 'f | Awaiting 'f | Returned | Dropped

definition in_span :: "'sp \<Rightarrow> 'f \<Rightarrow> ('sp, 'f) span_future" where
  "in_span span fut = NotPolled span fut"

record 'sp spanned =
  sd_span :: 'sp

definition spanned_new :: "'sp \<Rightarrow> 'sp spanned" where
  "spanned_new span = \<lparr>sd_span = span\<rparr>"

definition spanned_run :: "'sp spanned \<Rightarrow> 'f \<Rightarrow> ('sp, 'f) span_future" where
  "spanned_run self fut = NotPolled (sd_span self) fut"

text \<open>
  The await polls the instrumented future; when that is ready it is dropped, being a temporary of
  the await, and the body returns.
\<close>

definition poll_await ::
    "('f, 'sp, 'e, 'r) futures \<Rightarrow> 'f \<Rightarrow> 'sp stack
       \<Rightarrow> ('sp, 'f) span_future \<times> 'sp stack \<times> ('e, 'sp) seen \<times> 'r option" where
  "poll_await fu g stk =
     (let (g', stk', evs, r) = fu_poll fu g stk in
      if r = None then (Awaiting g', stk', evs, r)
      else let (stk'', evs') = fu_drop fu g' stk' in (Returned, stk'', evs @ evs', r))"

text \<open>One poll of either wrapper; a body that has returned must not be polled and panics.\<close>

fun poll_spanned ::
    "('f, 'sp, 'e, 'r) futures \<Rightarrow> ('sp, 'f) span_future \<Rightarrow> 'sp stack
       \<Rightarrow> (('sp, 'f) span_future \<times> 'sp stack \<times> ('e, 'sp) seen \<times> 'r option) option" where
  "poll_spanned fu (NotPolled span fut) stk = Some (poll_await fu (fu_instrument fu fut span) stk)"
| "poll_spanned fu (Awaiting g) stk = Some (poll_await fu g stk)"
| "poll_spanned fu Returned stk = None"
| "poll_spanned fu Dropped stk = None"

text \<open>
  The drop of either wrapper: at the await, of the instrumented future; before the first poll, of
  the captured future as it is, for the body has not instrumented it yet.
\<close>

fun drop_spanned ::
    "('f, 'sp, 'e, 'r) futures \<Rightarrow> ('sp, 'f) span_future \<Rightarrow> 'sp stack \<Rightarrow> 'sp stack \<times> ('e, 'sp) seen" where
  "drop_spanned fu (NotPolled span fut) stk = fu_drop fu fut stk"
| "drop_spanned fu (Awaiting g) stk = fu_drop fu g stk"
| "drop_spanned fu Returned stk = (stk, [])"
| "drop_spanned fu Dropped stk = (stk, [])"

fun over :: "('sp, 'f) span_future \<Rightarrow> bool" where
  "over (NotPolled span fut) = False" | "over (Awaiting g) = False" | "over Returned = True" | "over Dropped = True"

section \<open>A pool of threads\<close>

text \<open>
  Threads and tasks are numbered. A schedule is a list of turns, each the poll or the cancellation
  of a task on a thread, in any order; a task that is over is not polled or dropped again.
\<close>

datatype turn = Poll nat nat | Cancel nat nat

fun turn_task :: "turn \<Rightarrow> nat" where
  "turn_task (Poll t k) = k" | "turn_task (Cancel t k) = k"

record ('f, 'sp, 'e, 'r) pool =
  pl_stacks :: "nat \<Rightarrow> 'sp stack"
  pl_tasks :: "nat \<Rightarrow> ('sp, 'f) span_future"
  pl_seen :: "(nat \<times> 'e \<times> 'sp stack) list"
  pl_results :: "nat \<Rightarrow> 'r option"

fun pool_turn :: "('f, 'sp, 'e, 'r) futures \<Rightarrow> ('f, 'sp, 'e, 'r) pool \<Rightarrow> turn \<Rightarrow> ('f, 'sp, 'e, 'r) pool" where
  "pool_turn fu pl (Poll t k) =
     (case poll_spanned fu (pl_tasks pl k) (pl_stacks pl t) of
        None \<Rightarrow> pl
      | Some (fut, stk, evs, r) \<Rightarrow>
          pl\<lparr>pl_stacks := (pl_stacks pl)(t := stk), pl_tasks := (pl_tasks pl)(k := fut),
             pl_seen := pl_seen pl @ map (\<lambda>(e, s). (k, e, s)) evs,
             pl_results := (pl_results pl)(k := r)\<rparr>)"
| "pool_turn fu pl (Cancel t k) =
     (if over (pl_tasks pl k) then pl
      else let (stk, evs) = drop_spanned fu (pl_tasks pl k) (pl_stacks pl t)
           in pl\<lparr>pl_stacks := (pl_stacks pl)(t := stk), pl_tasks := (pl_tasks pl)(k := Dropped),
                 pl_seen := pl_seen pl @ map (\<lambda>(e, s). (k, e, s)) evs\<rparr>)"

definition run_pool ::
    "('f, 'sp, 'e, 'r) futures \<Rightarrow> (nat \<Rightarrow> 'sp stack) \<Rightarrow> (nat \<Rightarrow> ('sp, 'f) span_future) \<Rightarrow> turn list
       \<Rightarrow> ('f, 'sp, 'e, 'r) pool" where
  "run_pool fu stacks tasks sched =
     foldl (pool_turn fu) \<lparr>pl_stacks = stacks, pl_tasks = tasks, pl_seen = [], pl_results = (\<lambda>_. None)\<rparr> sched"

section \<open>Futures that hold no guard\<close>

text \<open>
  A future is tidy when each of its polls, and its drop at any moment, leaves the stack as it found
  it, adds its own spans on top of it while it runs, and does the same whatever is below: it holds
  no entered guard across an await and looks at no span but its own.
\<close>

coinductive tidy :: "('f, 'sp, 'e, 'r) futures \<Rightarrow> 'f \<Rightarrow> bool" for fu where
  tidyI: "(\<And>stk. fu_poll fu f stk = (f', stk, map (\<lambda>(e, own). (e, own @ stk)) evs, r))
    \<Longrightarrow> (\<And>stk. fu_drop fu f stk = (stk, map (\<lambda>(e, own). (e, own @ stk)) devs)) \<Longrightarrow> tidy fu f' \<Longrightarrow> tidy fu f"

inductive_cases tidyE: "tidy fu f"

text \<open>What a tidy future does alone, polled once: its state after, its events with its own spans,
  its result; and dropped.\<close>

definition alone :: "('f, 'sp, 'e, 'r) futures \<Rightarrow> 'f \<Rightarrow> 'f \<times> ('e, 'sp) seen \<times> 'r option" where
  "alone fu f = (let (f', _, evs, r) = fu_poll fu f [] in (f', evs, r))"

definition dropped_alone :: "('f, 'sp, 'e, 'r) futures \<Rightarrow> 'f \<Rightarrow> ('e, 'sp) seen" where
  "dropped_alone fu f = snd (fu_drop fu f [])"

text \<open>Events with their own spans, put above a stack.\<close>

definition above :: "'sp stack \<Rightarrow> ('e, 'sp) seen \<Rightarrow> ('e, 'sp) seen" where
  "above stk evs = map (\<lambda>(e, own). (e, own @ stk)) evs"

lemma above_append: "above stk (xs @ ys) = above stk xs @ above stk ys"
  by (simp add: above_def)

lemma tidy_poll:
  assumes "tidy fu f" and "alone fu f = (f', evs, r)"
  shows "fu_poll fu f stk = (f', stk, above stk evs, r)" and "tidy fu f'"
  using assms(1) by (rule tidyE, use assms(2) in \<open>auto simp: alone_def above_def case_prod_beta\<close>)+

lemma tidy_drop: "tidy fu f \<Longrightarrow> fu_drop fu f stk = (stk, above stk (dropped_alone fu f))"
  by (erule tidyE) (auto simp: dropped_alone_def above_def case_prod_beta)

text \<open>
  What \<open>tracing\<close> documents of \<open>instrument\<close>: every poll enters the span, polls the
  future and exits the span, which takes its innermost entry off the stack; so does the drop.
\<close>

definition enters_span :: "('f, 'sp, 'e, 'r) futures \<Rightarrow> bool" where
  "enters_span fu \<longleftrightarrow>
     (\<forall>f sp stk. fu_poll fu (fu_instrument fu f sp) stk =
        (let (f', stk', evs, r) = fu_poll fu f (sp # stk) in (fu_instrument fu f' sp, remove1 sp stk', evs, r)))
     \<and> (\<forall>f sp stk. fu_drop fu (fu_instrument fu f sp) stk =
        (let (stk', evs) = fu_drop fu f (sp # stk) in (remove1 sp stk', evs)))"

lemma instrumented_poll:
  assumes "enters_span fu" "tidy fu f" "alone fu f = (f', evs, r)"
  shows "fu_poll fu (fu_instrument fu f sp) stk = (fu_instrument fu f' sp, stk, above (sp # stk) evs, r)"
  using assms(1) tidy_poll(1) [OF assms(2,3), of "sp # stk"] by (simp add: enters_span_def)

lemma instrumented_drop:
  assumes "enters_span fu" "tidy fu f"
  shows "fu_drop fu (fu_instrument fu f sp) stk = (stk, above (sp # stk) (dropped_alone fu f))"
  using assms(1) tidy_drop [OF assms(2), of "sp # stk"] by (simp add: enters_span_def)

section \<open>The specification\<close>

text \<open>
  The task alone, through its own turns one after the other until it is ready or cancelled, with the
  wrapper's span between its own spans and what the thread had entered. The one thing that is not
  under the span is the drop of a future that has not been polled.
\<close>

fun under ::
    "('f, 'sp, 'e, 'r) futures \<Rightarrow> 'sp \<Rightarrow> (nat \<Rightarrow> 'sp stack) \<Rightarrow> bool \<Rightarrow> turn list \<Rightarrow> 'f \<Rightarrow> ('e, 'sp) seen" where
  "under fu sp stacks begun [] f = []"
| "under fu sp stacks begun (Poll t k # ts) f =
     (let (f', evs, r) = alone fu f in
      above (sp # stacks t) evs
      @ (if r = None then under fu sp stacks True ts f' else above (sp # stacks t) (dropped_alone fu f')))"
| "under fu sp stacks begun (Cancel t k # ts) f =
     above (if begun then sp # stacks t else stacks t) (dropped_alone fu f)"

text \<open>The result of a future after some turns: that of the first poll that is ready.\<close>

fun result_after :: "('f, 'sp, 'e, 'r) futures \<Rightarrow> turn list \<Rightarrow> 'f \<Rightarrow> 'r option" where
  "result_after fu [] f = None"
| "result_after fu (Poll t k # ts) f = (let (f', evs, r) = alone fu f in if r = None then result_after fu ts f' else r)"
| "result_after fu (Cancel t k # ts) f = None"

definition turns_of :: "nat \<Rightarrow> turn list \<Rightarrow> turn list" where
  "turns_of k sched = filter (\<lambda>tn. turn_task tn = k) sched"

definition seen_by :: "nat \<Rightarrow> ('f, 'sp, 'e, 'r) pool \<Rightarrow> ('e, 'sp) seen" where
  "seen_by k pl = map snd (filter (\<lambda>x. fst x = k) (pl_seen pl))"

section \<open>Facts\<close>

lemma turns_of_simps [simp]:
  "turns_of k [] = []" "turns_of k (tn # sched) = (if turn_task tn = k then [tn] else []) @ turns_of k sched"
  by (simp_all add: turns_of_def)

text \<open>What is still to come of a task: nothing once it is over.\<close>

definition begun :: "('sp, 'f) span_future \<Rightarrow> bool" where
  "begun fut = (case fut of NotPolled sp f \<Rightarrow> False | _ \<Rightarrow> True)"

definition seen_later ::
    "('f, 'sp, 'e, 'r) futures \<Rightarrow> 'sp \<Rightarrow> (nat \<Rightarrow> 'sp stack) \<Rightarrow> turn list \<Rightarrow> 'f \<Rightarrow> ('sp, 'f) span_future \<Rightarrow> ('e, 'sp) seen" where
  "seen_later fu sp stacks ts f fut = (if over fut then [] else under fu sp stacks (begun fut) ts f)"

definition result_later ::
    "('f, 'sp, 'e, 'r) futures \<Rightarrow> turn list \<Rightarrow> 'f \<Rightarrow> ('sp, 'f) span_future \<Rightarrow> 'r option \<Rightarrow> 'r option" where
  "result_later fu ts f fut r = (if over fut then r else result_after fu ts f)"

text \<open>The state of a task: not over, with what is left of its future, or over.\<close>

definition task_ok :: "('f, 'sp, 'e, 'r) futures \<Rightarrow> 'sp \<Rightarrow> 'f \<Rightarrow> ('sp, 'f) span_future \<Rightarrow> bool" where
  "task_ok fu sp f fut \<longleftrightarrow> tidy fu f \<and> (fut = NotPolled sp f \<or> fut = Awaiting (fu_instrument fu f sp) \<or> over fut)"

text \<open>The state, the events and the result that a turn of a task that is not over leaves.\<close>

fun turn_does ::
    "('f, 'sp, 'e, 'r) futures \<Rightarrow> 'sp \<Rightarrow> (nat \<Rightarrow> 'sp stack) \<Rightarrow> turn \<Rightarrow> 'f \<Rightarrow> ('sp, 'f) span_future
       \<Rightarrow> ('sp, 'f) span_future \<times> ('e, 'sp) seen \<times> 'r option" where
  "turn_does fu sp stacks (Poll t k) f fut =
     (let (f', evs, r) = alone fu f in
      if r = None then (Awaiting (fu_instrument fu f' sp), above (sp # stacks t) evs, r)
      else (Returned, above (sp # stacks t) (evs @ dropped_alone fu f'), r))"
| "turn_does fu sp stacks (Cancel t k) f fut =
     (Dropped, above (if begun fut then sp # stacks t else stacks t) (dropped_alone fu f), None)"

lemma pool_turn_over: "over (pl_tasks pl (turn_task tn)) \<Longrightarrow> pool_turn fu pl tn = pl"
  by (cases tn; cases "pl_tasks pl (turn_task tn)") auto

lemma pool_turn_step:
  assumes "enters_span fu" and "task_ok fu sp f (pl_tasks pl k)" and "\<not> over (pl_tasks pl k)"
    and "turn_task tn = k" and "turn_does fu sp (pl_stacks pl) tn f (pl_tasks pl k) = (fut, evs, r)"
    and "pl_results pl k = None"
  shows "pl_stacks (pool_turn fu pl tn) = pl_stacks pl"
    and "pl_tasks (pool_turn fu pl tn) = (pl_tasks pl)(k := fut)"
    and "pl_results (pool_turn fu pl tn) = (pl_results pl)(k := r)"
    and "seen_by j (pool_turn fu pl tn) = seen_by j pl @ (if j = k then evs else [])"
proof -
  have tidy: "tidy fu f" and fut: "pl_tasks pl k = NotPolled sp f \<or> pl_tasks pl k = Awaiting (fu_instrument fu f sp)"
    using assms(2,3) by (auto simp: task_ok_def)
  have "pl_stacks (pool_turn fu pl tn) = pl_stacks pl \<and> pl_tasks (pool_turn fu pl tn) = (pl_tasks pl)(k := fut)
    \<and> pl_results (pool_turn fu pl tn) = (pl_results pl)(k := r)
    \<and> pl_seen (pool_turn fu pl tn) = pl_seen pl @ map (\<lambda>(e, s). (k, e, s)) evs"
  proof (cases tn)
    case (Poll t j)
    obtain f' evs' r' where alone: "alone fu f = (f', evs', r')" by (cases "alone fu f")
    have "poll_spanned fu (pl_tasks pl k) (pl_stacks pl t) = Some (fut, pl_stacks pl t, evs, r)"
      using fut assms(4,5) instrumented_drop [OF assms(1) tidy_poll(2) [OF tidy alone]]
      by (auto simp: Poll alone poll_await_def instrumented_poll [OF assms(1) tidy alone] above_append split: if_splits)
    with assms(4) show ?thesis by (simp add: Poll)
  next
    case (Cancel t j)
    have "drop_spanned fu (pl_tasks pl k) (pl_stacks pl t) = (pl_stacks pl t, evs)" "r = None" "fut = Dropped"
      using fut assms(5) tidy_drop [OF tidy] instrumented_drop [OF assms(1) tidy]
      by (auto simp: Cancel begun_def)
    with assms(3,4,6) show ?thesis by (auto simp: Cancel)
  qed
  then show "pl_stacks (pool_turn fu pl tn) = pl_stacks pl" "pl_tasks (pool_turn fu pl tn) = (pl_tasks pl)(k := fut)"
    "pl_results (pool_turn fu pl tn) = (pl_results pl)(k := r)"
    "seen_by j (pool_turn fu pl tn) = seen_by j pl @ (if j = k then evs else [])"
    by (simp_all add: seen_by_def case_prod_beta o_def filter_map)
qed

lemma turn_later:
  assumes "task_ok fu sp f fut" and "\<not> over fut" and "turn_does fu sp stacks tn f fut = (fut', evs, r)"
  obtains f' where "task_ok fu sp f' fut'" and "\<not> over fut' \<Longrightarrow> r = None"
    and "\<And>ts. seen_later fu sp stacks (tn # ts) f fut = evs @ seen_later fu sp stacks ts f' fut'"
    and "\<And>ts. result_later fu (tn # ts) f fut None = result_later fu ts f' fut' r"
proof (cases tn)
  case (Poll t k)
  obtain f' evs' r' where alone: "alone fu f = (f', evs', r')" by (cases "alone fu f")
  show thesis
    by (rule that [of f'], use assms alone tidy_poll(2) [of fu f f'] in
        \<open>auto simp: Poll task_ok_def seen_later_def result_later_def begun_def above_append split: if_splits\<close>)
next
  case (Cancel t k)
  show thesis
    by (rule that [of f], use assms in \<open>auto simp: Cancel task_ok_def seen_later_def result_later_def begun_def\<close>)
qed

lemma pool_run:
  assumes "enters_span fu"
  shows "(\<And>k. task_ok fu (sp k) (fs k) (pl_tasks pl k)) \<Longrightarrow> pl_stacks pl = stacks
    \<Longrightarrow> (\<And>k. \<not> over (pl_tasks pl k) \<Longrightarrow> pl_results pl k = None)
    \<Longrightarrow> pl_stacks (foldl (pool_turn fu) pl sched) = stacks
      \<and> (\<forall>k. seen_by k (foldl (pool_turn fu) pl sched)
           = seen_by k pl @ seen_later fu (sp k) stacks (turns_of k sched) (fs k) (pl_tasks pl k)
         \<and> pl_results (foldl (pool_turn fu) pl sched) k
           = result_later fu (turns_of k sched) (fs k) (pl_tasks pl k) (pl_results pl k))"
proof (induction sched arbitrary: pl fs)
  case Nil
  then show ?case by (auto simp: seen_later_def result_later_def)
next
  case (Cons tn sched)
  let ?k = "turn_task tn"
  show ?case
  proof (cases "over (pl_tasks pl ?k)")
    case True
    have same: "pool_turn fu pl tn = pl" by (rule pool_turn_over [OF True])
    from Cons.IH [OF Cons.prems] True show ?thesis
      by (auto simp: same seen_later_def result_later_def)
  next
    case False
    obtain fut evs r where does: "turn_does fu (sp ?k) (pl_stacks pl) tn (fs ?k) (pl_tasks pl ?k) = (fut, evs, r)"
      by (metis surj_pair)
    note step = pool_turn_step [OF assms Cons.prems(1) False refl does Cons.prems(3) [OF False]]
    obtain f' where later: "task_ok fu (sp ?k) f' fut" "\<not> over fut \<Longrightarrow> r = None"
      "\<And>ts. seen_later fu (sp ?k) stacks (tn # ts) (fs ?k) (pl_tasks pl ?k) = evs @ seen_later fu (sp ?k) stacks ts f' fut"
      "\<And>ts. result_later fu (tn # ts) (fs ?k) (pl_tasks pl ?k) None = result_later fu ts f' fut r"
      using turn_later [OF Cons.prems(1) False does] Cons.prems(2) by metis
    let ?pl = "pool_turn fu pl tn" and ?fs = "fs(?k := f')"
    have ok: "task_ok fu (sp j) (?fs j) (pl_tasks ?pl j)" for j
      using Cons.prems(1) [of j] later(1) by (simp add: step)
    have none: "\<not> over (pl_tasks ?pl j) \<Longrightarrow> pl_results ?pl j = None" for j
      using Cons.prems(3) [of j] later(2) by (auto simp: step split: if_splits)
    have "pl_stacks ?pl = stacks" using Cons.prems(2) by (simp add: step)
    from Cons.IH [OF ok this none] show ?thesis
      using Cons.prems(3) [OF False] by (auto simp: step later(3,4))
  qed
qed

lemma under_span: "ts = [] \<or> bg \<or> (\<exists>t k. hd ts = Poll t k) \<Longrightarrow> (e, stk) \<in> set (under fu sp stacks bg ts f) \<Longrightarrow> sp \<in> set stk"
proof (induction fu sp stacks bg ts f rule: under.induct)
  case (2 fu sp stacks bg t k ts f)
  obtain f' evs r where alone: "alone fu f = (f', evs, r)" by (cases "alone fu f")
  with 2 show ?case by (cases r) (auto simp: above_def)
qed (auto simp: above_def)

section \<open>Property\<close>

text \<open>
  C34. A span stays with its work. In a pool whose tasks are all made with \<open>in_span\<close> or
  \<open>Spanned::run\<close>, whatever thread polls a task or drops it, at whatever await it is cancelled and
  whatever runs in between, every thread's stack of entered spans ends as it began; each event of a
  task, its destructors' among them, happens under the span of that task, right below the spans it
  entered itself and above what the thread had entered, except when it is dropped before its first
  poll; and the task's events and its result are those of its future alone, none when cancelled.
  The hypotheses are that \<open>instrument\<close> enters and exits the span around each poll and the drop, and
  that the futures themselves hold no guard across an await.
\<close>

theorem span_stays_with_its_work:
  assumes "enters_span fu"
    and "\<And>k. tidy fu (f k)"
    and "\<And>k. tasks k = in_span (sp k) (f k) \<or> tasks k = spanned_run (spanned_new (sp k)) (f k)"
    and "run_pool fu stacks tasks sched = pl"
  shows "pl_stacks pl = stacks
    \<and> seen_by k pl = under fu (sp k) stacks False (turns_of k sched) (f k)
    \<and> pl_results pl k = result_after fu (turns_of k sched) (f k)
    \<and> ((\<exists>t. hd (turns_of k sched) = Poll t k) \<longrightarrow> (\<forall>(e, stk)\<in>set (seen_by k pl). sp k \<in> set stk))"
proof -
  have "tasks j = NotPolled (sp j) (f j)" for j
    using assms(3) [of j] by (auto simp: in_span_def spanned_run_def spanned_new_def)
  then have ok: "task_ok fu (sp j) (f j) (tasks j)" "\<not> over (tasks j)" "\<not> begun (tasks j)" for j
    using assms(2) by (auto simp: task_ok_def begun_def)
  have "pl_stacks pl = stacks \<and> seen_by k pl = under fu (sp k) stacks False (turns_of k sched) (f k)
    \<and> pl_results pl k = result_after fu (turns_of k sched) (f k)"
    using pool_run [OF assms(1), of sp f "\<lparr>pl_stacks = stacks, pl_tasks = tasks, pl_seen = [], pl_results = (\<lambda>_. None)\<rparr>" stacks sched]
      ok assms(4)
    by (auto simp: run_pool_def seen_later_def result_later_def seen_by_def)
  then show ?thesis
    using under_span [of "turns_of k sched" False _ _ fu "sp k" stacks "f k"] by auto
qed

text \<open>
  Futures that count down, a poll for each number, under a span of their own but at the end; a drop
  is seen with the number that was left.
\<close>

datatype countdown = Steps nat | Tagged countdown nat

fun poll_countdown :: "countdown \<Rightarrow> nat stack \<Rightarrow> countdown \<times> nat stack \<times> (nat, nat) seen \<times> nat option" where
  "poll_countdown (Steps 0) stk = (Steps 0, stk, [(0, stk)], Some 42)"
| "poll_countdown (Steps (Suc n)) stk = (Steps n, stk, [(Suc n, 9 # stk)], None)"
| "poll_countdown (Tagged f sp) stk =
     (let (f', stk', evs, r) = poll_countdown f (sp # stk) in (Tagged f' sp, remove1 sp stk', evs, r))"

fun drop_countdown :: "countdown \<Rightarrow> nat stack \<Rightarrow> nat stack \<times> (nat, nat) seen" where
  "drop_countdown (Steps n) stk = (stk, [(100 + n, stk)])"
| "drop_countdown (Tagged f sp) stk = (let (stk', evs) = drop_countdown f (sp # stk) in (remove1 sp stk', evs))"

definition countdowns :: "(countdown, nat, nat, nat) futures" where
  "countdowns = \<lparr>fu_poll = poll_countdown, fu_drop = drop_countdown, fu_instrument = Tagged\<rparr>"

lemma countdown_enters: "enters_span countdowns"
  by (simp add: enters_span_def countdowns_def)

lemma countdown_tidy: "tidy countdowns (Steps n)"
proof (coinduction arbitrary: n)
  case tidy
  have drop: "fu_drop countdowns (Steps n) stk = (stk, map (\<lambda>(e, own). (e, own @ stk)) [(100 + n, [])])" for stk
    by (simp add: countdowns_def)
  show ?case
  proof (cases n)
    case 0
    with drop show ?thesis
      by (intro exI [of _ "Steps 0"] exI [of _ "[(0, [])]"] exI [of _ "Some 42"] exI [of _ "[(100 + n, [])]"] exI [of _ "Steps n"])
         (auto simp: countdowns_def)
  next
    case (Suc m)
    with drop show ?thesis
      by (intro exI [of _ "Steps m"] exI [of _ "[(n, [9])]"] exI [of _ None] exI [of _ "[(100 + n, [])]"] exI [of _ "Steps n"])
         (auto simp: countdowns_def)
  qed
qed

theorem span_stays_with_its_work_witness:
  "\<exists>pl. run_pool countdowns (\<lambda>t. [t]) (\<lambda>k. in_span (k + 5) (Steps 1))
         [Poll 0 0, Poll 0 1, Cancel 2 2, Poll 3 0, Cancel 4 1] = pl
     \<and> seen_by 0 pl = [(1, [9, 5, 0]), (0, [5, 3]), (100, [5, 3])] \<and> seen_by 1 pl = [(1, [9, 6, 0]), (100, [6, 4])]
     \<and> seen_by 2 pl = [(101, [2])] \<and> pl_results pl 0 = Some 42 \<and> pl_results pl 1 = None"
proof -
  obtain pl where run: "run_pool countdowns (\<lambda>t. [t]) (\<lambda>k. in_span (k + 5) (Steps 1))
      [Poll 0 0, Poll 0 1, Cancel 2 2, Poll 3 0, Cancel 4 1] = pl" by blast
  note claim = span_stays_with_its_work [OF countdown_enters countdown_tidy disjI1 [OF refl] run]
  note eval = alone_def dropped_alone_def above_def countdowns_def numeral_nat
  have "seen_by 0 pl = [(1, [9, 5, 0]), (0, [5, 3]), (100, [5, 3])] \<and> pl_results pl 0 = Some 42"
    using claim [of 0] by (simp add: eval)
  moreover have "seen_by 1 pl = [(1, [9, 6, 0]), (100, [6, 4])] \<and> pl_results pl 1 = None"
    using claim [of 1] by (simp add: eval)
  moreover have "seen_by 2 pl = [(101, [2])]" using claim [of 2] by (simp add: eval)
  ultimately show ?thesis using run by blast
qed

end
