(* ===== verification/RequestFlow.thy ===== *)
theory RequestFlow
  imports Middleware LogBridgeProps
begin

text \<open>
  The span enricher of \<open>src/src/axum_middleware.rs\<close> together with \<open>emit_request_id_on\<close>
  of \<open>src/src/span_enrichment.rs\<close> and the log bridge: what the logs of a handler carry when the
  request's context emits its id on the current span.
\<close>

section \<open>A handler in a process that logs\<close>

text \<open>The inner service: its future does some operations on spans and events.\<close>

definition handle_logging ::
    "rstring list \<Rightarrow> hash_order \<Rightarrow> (request \<Rightarrow> bridge_op list) \<Rightarrow> 's \<Rightarrow> world \<Rightarrow> request \<Rightarrow> 's \<times> world" where
  "handle_logging ks order handler s w req = (s, foldl (bridge_do ks order) w (handler req))"

lemma bridge_run_append: "bridge_run ks order (ops @ ops') = foldl (bridge_do ks order) (bridge_run ks order ops) ops'"
  by (simp add: bridge_run_def)

lemma enriched_world:
  assumes "enricher_call (\<lambda>t. emit_request_id_on True (Some i) (rid t)) (handle_logging ks order handler) s
      (bridge_run ks order ops) ext req = (w', s', w)"
  shows "w = bridge_run ks order (ops @ (case ext of None \<Rightarrow> [] | Some t \<Rightarrow> [RequestId (Some i) (rid t)]) @ handler req)"
  using assms by (auto simp: enricher_call_def handle_logging_def bridge_run_append Let_def split: option.split)

section \<open>The documented stack\<close>

text \<open>
  What a request works on: the tracing spans with their records, and what has been recorded on
  OpenTelemetry spans through a context, each operation with its span.
\<close>

record flow =
  fl_world :: world
  fl_otel :: "(span_context \<times> span_op) list"

definition record_on :: "otel_context \<Rightarrow> span_op \<Rightarrow> flow \<Rightarrow> flow" where
  "record_on cx c fl = (case cx_span cx of None \<Rightarrow> fl | Some sc \<Rightarrow> fl\<lparr>fl_otel := fl_otel fl @ [(sc, c)]\<rparr>)"

text \<open>
  \<open>EnrichSpan::enrich_span\<close> of a context: any function of the tracing span it is given, which is
  \<open>None\<close> when disabled, and of the OpenTelemetry context it is called in.
\<close>

type_synonym enricher = "nat option \<Rightarrow> otel_context \<Rightarrow> flow \<Rightarrow> flow"

text \<open>
  Of these, contexts made of the writers of the library on the span given, as the one of
  \<open>src/examples/axum_span_enricher.rs\<close>, and of writes on the span of \<open>Context::current\<close>.
\<close>

datatype enrichment =
    SetsAttribute rstring rstring
  | SetsLogAttr rstring any_value
  | EmitsRequestId rstring
  | OnCurrentContext span_op

fun enrichment_do :: "nat option \<Rightarrow> otel_context \<Rightarrow> flow \<Rightarrow> enrichment \<Rightarrow> flow" where
  "enrichment_do sp cx fl (SetsAttribute k v) = fl\<lparr>fl_world := set_attribute sp k v (fl_world fl)\<rparr>"
| "enrichment_do sp cx fl (SetsLogAttr k v) = fl\<lparr>fl_world := record_span_log_attr_on True sp k v (fl_world fl)\<rparr>"
| "enrichment_do sp cx fl (EmitsRequestId v) = fl\<lparr>fl_world := emit_request_id_on True sp v (fl_world fl)\<rparr>"
| "enrichment_do sp cx fl (OnCurrentContext c) = record_on cx c fl"

definition enrich_span :: "enrichment list \<Rightarrow> enricher" where
  "enrich_span es sp cx fl = foldl (enrichment_do sp cx) fl es"

fun on_given_span :: "enrichment \<Rightarrow> bool" where
  "on_given_span (OnCurrentContext _) \<longleftrightarrow> False"
| "on_given_span _ \<longleftrightarrow> True"

definition RequestCtx :: "rstring \<Rightarrow> rstring \<Rightarrow> enricher" where
  "RequestCtx user org = enrich_span [SetsAttribute (lit ''enduser.id'') user, SetsAttribute (lit ''enduser.org_id'') org]"

fun trace_writes :: "enrichment list \<Rightarrow> (rstring \<times> rstring) list" where
  "trace_writes [] = []"
| "trace_writes (SetsAttribute k v # es) = (k, v) # trace_writes es"
| "trace_writes (EmitsRequestId v # es) = (REQUEST_ID, v) # trace_writes es"
| "trace_writes (_ # es) = trace_writes es"

text \<open>
  \<open>axum_layer\<close> outermost, then the extension \<open>ext\<close>, the span enricher and the handler.
  \<open>current\<close> is the tracing span and \<open>ambient\<close> the OpenTelemetry context the request's future is
  polled in. What stands between the two layers calls the enricher at once, in the ambient context,
  or only when its own future is polled (\<open>late\<close>), as a route of axum does, and then in the context of
  the server span; the tracing span is the same. What the HTTP service does with its span goes to it
  through its context.
\<close>

type_synonym ('s, 'e) handler = "'s \<Rightarrow> otel_context \<Rightarrow> flow \<Rightarrow> request \<Rightarrow> ('e + response) \<times> flow"

definition enriched_handler ::
    "('s, 'e) handler \<Rightarrow> bool \<Rightarrow> nat option \<Rightarrow> enricher option \<Rightarrow> flow
       \<Rightarrow> 's \<Rightarrow> otel_context \<Rightarrow> request \<Rightarrow> (('e + response) \<times> flow) future" where
  "enriched_handler handler late current ext fl s ambient req cx =
     (let at = (if late then cx else ambient)
      in snd (snd (enricher_call (\<lambda>enrich. enrich current at) (\<lambda>s fl req. (s, handler s cx fl req)) s fl ext req)))"

definition http_stack ::
    "propagation \<Rightarrow> (span_start \<Rightarrow> span_context) \<Rightarrow> (nat \<Rightarrow> rstring option) \<Rightarrow> ('s \<Rightarrow> 's) \<Rightarrow> ('s, 'e) handler
       \<Rightarrow> bool \<Rightarrow> nat option \<Rightarrow> otel_context \<Rightarrow> 's \<Rightarrow> flow \<Rightarrow> enricher option \<Rightarrow> request
       \<Rightarrow> 's \<times> ('s, 'e) served \<times> flow" where
  "http_stack pg start reason clone handler late current ambient s fl ext req =
     (let run = enriched_handler handler late current ext fl;
          (next, sv) = http_call pg start reason ambient clone (\<lambda>s ambient req cx. fst (run s ambient req cx)) s req;
          fl = snd (run (sv_fired sv) ambient req (sv_context sv))
      in (next, sv, foldl (\<lambda>fl c. record_on (sv_context sv) c fl) fl (sv_ops sv)))"

section \<open>Facts on the stack\<close>

lemma enrich_Cons: "enrich_span (e # es) sp cx fl = enrich_span es sp cx (enrichment_do sp cx fl e)"
  by (simp add: enrich_span_def)

lemma enrich_disabled: "list_all on_given_span es \<Longrightarrow> enrich_span es None cx fl = fl"
proof (induction es arbitrary: fl)
  case (Cons e es)
  then show ?case
    by (cases e) (simp_all add: enrich_Cons set_attribute_def emit_request_id_on_def record_span_log_attr_on_def)
qed (simp add: enrich_span_def)

lemma enriched_handler_enrich:
  "enriched_handler handler late current (Some f) fl s ambient req cx
     = handler s cx (f current (if late then cx else ambient) fl) req"
  "enriched_handler handler late current None fl s ambient req cx = handler s cx fl req"
  by (simp_all add: enriched_handler_def enricher_call_def Let_def)

text \<open>The context of the server span does not depend on what is served.\<close>

definition server_context :: "propagation \<Rightarrow> (span_start \<Rightarrow> span_context) \<Rightarrow> request \<Rightarrow> otel_context" where
  "server_context pg start req =
     (let parent = extract_headers pg (rq_headers req)
      in with_span (start \<lparr>ss_name = rq_method req @ 32 # rq_path req, ss_kind = Server,
           ss_attrs = [(lit ''http.request.method'', AttrStr (rq_method req))], ss_parent = parent\<rparr>) parent)"

lemma http_call_context:
  "sv_context (snd (http_call pg start reason ambient clone fire s req)) = server_context pg start req"
  "cx_span (server_context pg start req) = Some (start (sv_start (snd (http_call pg start reason ambient clone fire s req))))"
  "sv_fired (snd (http_call pg start reason ambient clone fire s req)) = s"
  by (simp_all add: http_call_def server_context_def take_ready_def with_span_def Let_def split: sum.split)

text \<open>What an inner service does in other contexts does not matter.\<close>

lemma http_call_cong:
  assumes "fire s ambient req (server_context pg start req) = fire' s ambient req (server_context pg start req)"
  shows "http_call pg start reason ambient clone fire s req = http_call pg start reason ambient clone fire' s req"
  using assms by (simp add: http_call_def server_context_def take_ready_def with_context_def Let_def)

lemma http_stack_enrich:
  "http_stack pg start reason clone handler late current ambient s fl (Some f) req =
     http_stack pg start reason clone handler late current ambient s
       (f current (if late then server_context pg start req else ambient) fl) None req"
proof -
  let ?cx = "server_context pg start req"
  let ?fl = "f current (if late then ?cx else ambient) fl"
  have "http_call pg start reason ambient clone
        (\<lambda>s ambient req cx. fst (enriched_handler handler late current (Some f) fl s ambient req cx)) s req
      = http_call pg start reason ambient clone
        (\<lambda>s ambient req cx. fst (enriched_handler handler late current None ?fl s ambient req cx)) s req"
    by (rule http_call_cong) (simp add: enriched_handler_enrich)
  then show ?thesis
    by (simp add: http_stack_def case_prod_beta Let_def http_call_context enriched_handler_enrich)
qed

lemma log_attr_keeps_trace [simp]:
  "sd_trace_attrs (wd_spans (record_span_log_attr_on b sp k v w) ! j) = sd_trace_attrs (wd_spans w ! j)"
  "length (wd_spans (record_span_log_attr_on b sp k v w)) = length (wd_spans w)"
  by (cases sp; simp add: record_span_log_attr_on_def Let_def nth_list_update)+

lemma set_attribute_trace:
  "i < length (wd_spans w) \<Longrightarrow>
     sd_trace_attrs (wd_spans (set_attribute (Some i) k v w) ! i) = sd_trace_attrs (wd_spans w ! i) @ [(k, v)]"
  "length (wd_spans (set_attribute sp k v w)) = length (wd_spans w)"
  by (simp_all add: set_attribute_def split: option.split)

lemma record_on_world [simp]: "fl_world (record_on cx c fl) = fl_world fl"
  by (simp add: record_on_def split: option.split)

lemma enrich_trace:
  "i < length (wd_spans (fl_world fl)) \<Longrightarrow>
     sd_trace_attrs (wd_spans (fl_world (enrich_span es (Some i) cx fl)) ! i)
       = sd_trace_attrs (wd_spans (fl_world fl) ! i) @ trace_writes es"
proof (induction es arbitrary: fl)
  case (Cons e es)
  then show ?case by (cases e) (simp_all add: enrich_Cons emit_request_id_on_def set_attribute_trace)
qed (simp add: enrich_span_def)

lemma enrich_otel: "list_all on_given_span es \<Longrightarrow> fl_otel (enrich_span es sp cx fl) = fl_otel fl"
proof (induction es arbitrary: fl)
  case (Cons e es)
  then show ?case by (cases e) (simp_all add: enrich_Cons)
qed (simp add: enrich_span_def)

text \<open>What the HTTP service itself records, on its own span.\<close>

lemma http_stack_status:
  assumes "http_stack pg start reason clone handler late current ambient s fl None req = (next, sv, fl')"
  shows "\<exists>r fl1. handler s (sv_context sv) fl req = (r, fl1)
    \<and> fl' = fl1\<lparr>fl_otel := fl_otel fl1 @ map (Pair (start (sv_start sv))) (sv_ops sv)\<rparr>"
proof -
  have rec: "cx_span cx = Some sc \<Longrightarrow> foldl (\<lambda>fl c. record_on cx c fl) fl cs = fl\<lparr>fl_otel := fl_otel fl @ map (Pair sc) cs\<rparr>"
    for cx sc fl cs
    by (induction cs arbitrary: fl) (simp_all add: record_on_def)
  let ?call = "http_call pg start reason ambient clone
      (\<lambda>s ambient req cx. fst (enriched_handler handler late current None fl s ambient req cx)) s req"
  have "sv = snd ?call" and "fl' = foldl (\<lambda>fl c. record_on (sv_context sv) c fl)
      (snd (handler s (sv_context sv) fl req)) (sv_ops sv)"
    using assms by (auto simp: http_stack_def case_prod_beta Let_def enriched_handler_enrich http_call_context(3))
  moreover have "cx_span (sv_context (snd ?call)) = Some (start (sv_start (snd ?call)))"
    using http_call_context(1,2) by metis
  ultimately show ?thesis using rec by (metis surj_pair snd_conv)
qed

section \<open>Properties\<close>

text \<open>
  C30. A request's id is on all its logs. When a request carries a context that emits its id on the
  current span, then, after whatever the handler has done short of setting another id on that span,
  every event inside the span or a descendant of it is recorded with the id, and the span has it as
  a trace attribute; a request without a context leaves the handler as it would be without the layer.
\<close>

theorem enriched_request_is_logged:
  assumes "i < length (wd_spans (bridge_run ks order ops))"
    and "enricher_call (\<lambda>t. emit_request_id_on True (Some i) (rid t)) (handle_logging ks order handler) s
      (bridge_run ks order ops) ext req = (w', s', w)"
    and "\<forall>v. (REQUEST_ID, v) \<notin> set (writes (length (filter opens ops)) (handler req) i)"
    and "i \<in> set (scope_of sp)"
  shows "case ext of
      None \<Rightarrow> w = bridge_run ks order (ops @ handler req)
    | Some t \<Rightarrow> (\<exists>lr. wd_emitted (on_event order ev sp w) = wd_emitted w @ [lr]
          \<and> (REQUEST_ID, AvString (rid t)) \<in> set (lr_attrs lr))
        \<and> (REQUEST_ID, rid t) \<in> set (sd_trace_attrs (wd_spans w ! i))"
proof (cases ext)
  case None
  with enriched_world [OF assms(2)] show ?thesis by simp
next
  case (Some t)
  note kept = request_id_kept [OF assms(1,3), of "rid t"]
  from Some enriched_world [OF assms(2)] have "w = bridge_run ks order (ops @ RequestId (Some i) (rid t) # handler req)"
    by simp
  with Some kept assms(4) show ?thesis by (auto simp: on_event_emits)
qed

text \<open>The context is the id itself; the handler opens a span of its own and logs there.\<close>

theorem enriched_request_is_logged_witness:
  "\<exists>w' s' w lr. enricher_call (\<lambda>t. emit_request_id_on True (Some 0) t)
       (handle_logging [] (\<lambda>i. rev) (\<lambda>q. [NewSpan []])) () (bridge_run [] (\<lambda>i. rev) [NewSpan []])
       (Some (lit ''r-1'')) ping = (w', s', w)
     \<and> wd_emitted (on_event (\<lambda>i. rev) hello (Some \<lparr>sr_id = 1, scope = [1, 0]\<rparr>) w) = wd_emitted w @ [lr]
     \<and> (REQUEST_ID, AvString (lit ''r-1'')) \<in> set (lr_attrs lr)"
proof -
  let ?w0 = "bridge_run [] (\<lambda>i. rev) [NewSpan []]"
  obtain w' s' w where call: "enricher_call (\<lambda>t. emit_request_id_on True (Some 0) t)
       (handle_logging [] (\<lambda>i. rev) (\<lambda>q. [NewSpan []])) () ?w0 (Some (lit ''r-1'')) ping = (w', s', w)"
    by (metis surj_pair)
  have "0 \<in> set (scope_of (Some \<lparr>sr_id = 1, scope = [1, 0]\<rparr>))"
    by (simp add: scope_of_def)
  with enriched_request_is_logged [OF _ call, of "Some \<lparr>sr_id = 1, scope = [1, 0]\<rparr>" hello] call show ?thesis
    by (simp add: spans_run_length)
qed



end
