(* ===== verification/Examples.thy ===== *)
theory Examples
  imports HandleProps BootContract Instrumented Spanned RequestFlow
begin

text \<open>
  The programs of \<open>src/examples\<close>, clients of the library: what each does from its start to
  its exit, with the initialisation, the shutdown it asks for and the drop of its handles.
\<close>

section \<open>A program\<close>

text \<open>
  What the process, the libraries and the system give a program. The providers are shut down twice,
  by the call and by the drop: \<open>ho_results False\<close> and \<open>ho_results True\<close> are what they
  report.
\<close>

record host =
  ho_features :: features
  ho_ext :: externals
  ho_env :: env_vars
  ho_globals :: globals
  ho_results :: "bool \<Rightarrow> otel_signal \<Rightarrow> rstring option"
  ho_took :: "duration option"
  ho_shutdown_at :: instant
  ho_drop_at :: instant
  ho_timeout_shown :: rstring

datatype act =
    Started init_effect
  | Enter rstring "field list"
  | Exit
  | Emit effect
  | Slept duration
  | Printed rstring
  | Stopped shutdown_effect
  | StoppedAside shutdown_effect

text \<open>A program exits with the result of \<open>main\<close> or panics.\<close>

datatype ending = Exits "rstring + unit" | Panics

definition i64_field :: "rstring \<Rightarrow> int \<Rightarrow> field" where
  "i64_field k n = \<lparr>fd_name = k, fd_value = I64V (of_int n), fd_debug = dec (nat n)\<rparr>"

definition info_of :: "rstring \<Rightarrow> rstring \<Rightarrow> act" where
  "info_of target message = Emit (Event INFO target message [])"

definition in_entered :: "rstring \<Rightarrow> field list \<Rightarrow> act list \<Rightarrow> act list" where
  "in_entered name fds acts = Enter name fds # acts @ [Exit]"

text \<open>\<open>handles.shutdown()\<close>, then the drop of the handles at the end of \<open>main\<close>.\<close>

definition leave :: "host \<Rightarrow> globals \<Rightarrow> handles \<Rightarrow> act list \<times> (rstring + unit)" where
  "leave ho gl h =
     (let (tm, eff, r) = shutdown h (ho_results ho False) (gl_timeline gl) (ho_shutdown_at ho);
          (tm', here, aside, waited) = drop_handles h (ho_results ho True) (ho_took ho) tm (ho_drop_at ho) (ho_timeout_shown ho)
      in (map Stopped eff @ map StoppedAside aside @ map Stopped here, r))"

text \<open>
  A \<open>main\<close> that initialises with \<open>?\<close>, does its work, shuts down with \<open>?\<close>. Under
  \<open>#[tokio::main]\<close> it runs in a runtime, a plain \<open>main\<close> does not.
\<close>

definition in_tokio :: "bool \<Rightarrow> host \<Rightarrow> externals" where
  "in_tokio tokio ho = (ho_ext ho)\<lparr>xe_in_runtime := tokio\<rparr>"

definition run_main :: "host \<Rightarrow> bool \<Rightarrow> builder \<Rightarrow> act list \<Rightarrow> act list \<times> ending" where
  "run_main ho tokio b work =
     (let (gl, eff, r) = init_run (ho_features ho) (in_tokio tokio ho) (ho_env ho) 0 b (ho_globals ho) in
      case r of
        Unwound \<Rightarrow> (map Started eff, Panics)
      | Answered (Inl e) \<Rightarrow> (map Started eff, Exits (Inl e))
      | Answered (Inr h) \<Rightarrow> (let (ends, result) = leave ho gl h in (map Started eff @ work @ ends, Exits result)))"

section \<open>The programs\<close>

definition basic_builder :: builder where
  "basic_builder = telemetry_builder (lit ''basic-setup-example'')"

definition basic_setup :: "host \<Rightarrow> act list \<times> ending" where
  "basic_setup ho =
     run_main ho False basic_builder
       (in_entered (lit ''example.work'') [i64_field (lit ''step'') 1]
          [info_of (lit ''basic_setup'') (lit ''basic_setup example running'')])"

definition CARGO_PKG_VERSION :: rstring where
  "CARGO_PKG_VERSION = lit ''2.21.1''"

definition custom_builder :: builder where
  "custom_builder =
     with_shutdown_timeout (from_secs 10) (with_logs True (with_metrics True (with_sampler AlwaysOn
       (with_environment (lit ''development'') (with_version CARGO_PKG_VERSION
          (telemetry_builder (lit ''custom-config-example'')))))))"

definition custom_config :: "host \<Rightarrow> act list \<times> ending" where
  "custom_config ho =
     run_main ho False custom_builder
       (info_of (lit ''example'') (lit ''custom_config example running'')
        # in_entered (lit ''example.custom'') [str_field (lit ''config'') (lit ''full'')]
            [info_of (lit ''custom_config'') (lit ''inside custom-configured span'')])"

definition shutdown_handling :: "host \<Rightarrow> act list \<times> ending" where
  "shutdown_handling ho =
     run_main ho True (telemetry_builder (lit ''shutdown-example''))
       ([info_of (lit ''shutdown_handling'') (lit ''application started''), Slept (from_millis 50)]
        @ in_entered (lit ''request.handle'') [str_field (lit ''http.method'') (lit ''GET'')]
            [info_of (lit ''shutdown_handling'') (lit ''handled request'')]
        @ [info_of (lit ''shutdown_handling'') (lit ''shutting down telemetry'')])"

text \<open>Without the feature the program only says that it needs it.\<close>

definition profiling_builder :: builder where
  "profiling_builder = with_profiling (lit ''http://localhost:4040'') (telemetry_builder (lit ''telemetry-profiling-example''))"

definition telemetry_profiling :: "host \<Rightarrow> act list \<times> ending" where
  "telemetry_profiling ho =
     (if ft_profiling (ho_features ho) then
        run_main ho False profiling_builder
          (in_entered (lit ''example.work'') [i64_field (lit ''step'') 1]
             [info_of (lit ''telemetry_profiling'') (lit ''telemetry_profiling example running'')])
      else ([Printed (lit ''telemetry_profiling example requires the `profiling` feature: '' @
               lit ''cargo run --example telemetry_profiling --features profiling-bridge-pyroscope-rs'')],
            Exits (Inr ())))"

text \<open>
  The router of \<open>axum_span_enricher\<close>: its one route, inside the enricher, the extension and the
  HTTP layer. The program builds it and serves nothing.
\<close>

definition hello_event :: tevent where
  "hello_event = \<lparr>te_meta = \<lparr>md_name = lit ''event'', md_target = lit ''axum_span_enricher'', md_level = INFO\<rparr>,
     te_fields = [display_field (lit ''message'') (lit ''handling request'')]\<rparr>"

definition hello :: "hash_order \<Rightarrow> span_ref option \<Rightarrow> (rstring \<Rightarrow> response) \<Rightarrow> (unit, unit) handler" where
  "hello order current into_response s cx fl req =
     (Inr (into_response (lit ''hello'')), fl\<lparr>fl_world := on_event order hello_event current (fl_world fl)\<rparr>)"

definition axum_app ::
    "hash_order \<Rightarrow> span_ref option \<Rightarrow> otel_context \<Rightarrow> (rstring \<Rightarrow> response) \<Rightarrow> propagation \<Rightarrow> (span_start \<Rightarrow> span_context)
       \<Rightarrow> (nat \<Rightarrow> rstring option) \<Rightarrow> flow \<Rightarrow> request \<Rightarrow> unit \<times> (unit, unit) served \<times> flow" where
  "axum_app order current ambient into_response pg start reason fl req =
     http_stack pg start reason id (hello order current into_response) True (map_option sr_id current) ambient () fl
       (Some (RequestCtx (lit ''u_example'') (lit ''org_example''))) req"

definition axum_span_enricher :: "host \<Rightarrow> act list \<times> ending" where
  "axum_span_enricher ho =
     run_main ho True (telemetry_builder (lit ''axum-span-enricher-example'')) []"

text \<open>
  A port of one method, the adapter of the example and the port wrapped around an adapter. A
  \<open>main\<close> of the testing mode prints the replies it expects and shuts down; a reply that is an
  error panics, and the handles are only dropped.
\<close>

type_synonym greeting_port = "rstring \<Rightarrow> rstring + rstring"

definition StaticGreeter :: greeting_port where
  "StaticGreeter name = Inr (lit ''hello, '' @ name)"

definition greet ::
    "(span_start \<Rightarrow> span_context) \<Rightarrow> otel_context \<Rightarrow> greeting_port instrumented \<Rightarrow> rstring \<Rightarrow> (rstring, rstring) ported" where
  "greet start current self name = port_call start current self (lit ''greet'') (\<lambda>inner cx. inner name)"

definition run_testing ::
    "host \<Rightarrow> rstring \<Rightarrow> (rstring + rstring) list \<Rightarrow> act list \<times> ending" where
  "run_testing ho service replies =
     (let (gl, eff, h) = testing (in_tokio True ho) 0 service (ho_globals ho);
          said = map (\<lambda>r. Printed (projr r)) (takeWhile (\<lambda>r. \<not> isl r) replies)
      in if list_all (\<lambda>r. \<not> isl r) replies then
           (let (ends, result) = leave ho gl h
            in (map Started eff @ said @ ends, if isl result then Panics else Exits (Inr ())))
         else
           (let (tm', here, aside, waited) = drop_handles h (ho_results ho True) (ho_took ho) (gl_timeline gl) (ho_drop_at ho)
                  (ho_timeout_shown ho)
            in (map Started eff @ said @ map StoppedAside aside @ map Stopped here, Panics)))"

definition instrumented_port :: "(span_start \<Rightarrow> span_context) \<Rightarrow> otel_context \<Rightarrow> host \<Rightarrow> act list \<times> ending" where
  "instrumented_port start current ho =
     (let port = instrumented_new StaticGreeter (lit ''GreetingPort'') (Some (lit ''static-greeter''))
      in run_testing ho (lit ''instrumented-port-example'') [pc_result (greet start current port (lit ''world''))])"

text \<open>
  Awaiting a wrapped future in \<open>main\<close>: the runtime polls it until it is ready, here at most
  \<open>n\<close> times; \<open>load\<close> is \<open>load_master\<close> not polled yet.
\<close>

fun await_polls ::
    "nat \<Rightarrow> ('f, 'sp, 'e, 'r) futures \<Rightarrow> ('sp, 'f) span_future \<Rightarrow> 'sp stack \<Rightarrow> 'r option" where
  "await_polls 0 fu f stk = None"
| "await_polls (Suc n) fu f stk =
     (case poll_spanned fu f stk of
        None \<Rightarrow> None
      | Some (f', stk', evs, r) \<Rightarrow> if r = None then await_polls n fu f' stk' else r)"

definition load_master :: "rstring + rstring" where
  "load_master = Inr (lit ''master-key'')"

definition spanned_main ::
    "nat \<Rightarrow> ('f, 'sp, 'e, rstring + rstring) futures \<Rightarrow> (rstring \<Rightarrow> field list \<Rightarrow> 'sp) \<Rightarrow> 'f \<Rightarrow> host
       \<Rightarrow> (act list \<times> ending) option" where
  "spanned_main n fu info_span load ho =
     (let ns = [str_field (lit ''sealwiz.namespace'') (lit ''ns-1'')]
      in Option.bind (await_polls n fu (in_span (info_span (lit ''sealwiz.wrap'') ns) load) []) (\<lambda>r1.
         Option.bind (await_polls n fu (spanned_run (spanned_new (info_span (lit ''sealwiz.unwrap'') ns)) load) [])
           (\<lambda>r2. Some (run_testing ho (lit ''spanned-example'') [r1, r2]))))"

section \<open>Ending well\<close>

fun stage :: "act \<Rightarrow> nat" where
  "stage (Started e) = 0"
| "stage (Stopped e) = 2"
| "stage (StoppedAside e) = 2"
| "stage a = 1"

text \<open>How many spans are open after some acts; \<open>None\<close> when one is left that is not open.\<close>

fun spans_open :: "nat \<Rightarrow> act list \<Rightarrow> nat option" where
  "spans_open n [] = Some n"
| "spans_open n (Enter name fds # as) = spans_open (Suc n) as"
| "spans_open n (Exit # as) = (case n of 0 \<Rightarrow> None | Suc m \<Rightarrow> spans_open m as)"
| "spans_open n (a # as) = spans_open n as"

fun stopped :: "act list \<Rightarrow> shutdown_effect list" where
  "stopped [] = []"
| "stopped (Stopped e # as) = e # stopped as"
| "stopped (a # as) = stopped as"

fun closes_root :: "shutdown_effect \<Rightarrow> bool" where
  "closes_root (CloseBoot e) = is_root_end e"
| "closes_root _ = False"

text \<open>
  A program ends well, having shut down \<open>sigs\<close>, when it starts, works and stops in that order,
  leaves no span open, and shuts each provider down exactly once itself, having ended the span of
  the boot at most once, though its handles do it all again when they are dropped; or when
  it exits with the error of its initialisation, having done no work.
\<close>

definition ends_well :: "otel_signal list \<Rightarrow> act list \<times> ending \<Rightarrow> bool" where
  "ends_well sigs p \<longleftrightarrow>
     sorted (map stage (fst p)) \<and> spans_open 0 (fst p) = Some 0
     \<and> (case snd p of
          Exits (Inr _) \<Rightarrow> shut_downs (stopped (fst p)) = sigs \<and> length (filter closes_root (stopped (fst p))) \<le> 1
        | Exits (Inl e) \<Rightarrow> list_all (\<lambda>a. stage a = 0) (fst p)
        | Panics \<Rightarrow> False)"

lemma stopped_append [simp]: "stopped (xs @ ys) = stopped xs @ stopped ys"
  by (induction xs rule: stopped.induct) simp_all

lemma stopped_map [simp]:
  "stopped (map Stopped es) = es" "stopped (map StoppedAside es) = []" "stopped (map Started ies) = []"
  "stopped (map (\<lambda>r. Printed (f r)) rs) = []"
proof -
  show "stopped (map Stopped es) = es" "stopped (map StoppedAside es) = []" by (induction es) simp_all
  show "stopped (map Started ies) = []" by (induction ies) simp_all
  show "stopped (map (\<lambda>r. Printed (f r)) rs) = []" by (induction rs) simp_all
qed

lemma stage_map [simp]:
  "map (stage \<circ> Stopped) es = replicate (length es) 2" "map (stage \<circ> StoppedAside) es = replicate (length es) 2"
  "map (stage \<circ> Started) ies = replicate (length ies) 0" "map (stage \<circ> (\<lambda>r. Printed (f r))) rs = replicate (length rs) 1"
  by (simp_all add: comp_def map_replicate_const)

lemma spans_open_append: "spans_open n (xs @ ys) = Option.bind (spans_open n xs) (\<lambda>m. spans_open m ys)"
  by (induction n xs rule: spans_open.induct) (simp_all split: nat.split)

lemma spans_open_quiet [simp]:
  "spans_open n (map Stopped es) = Some n" "spans_open n (map StoppedAside es) = Some n"
  "spans_open n (map Started ies) = Some n" "spans_open n (map (\<lambda>r. Printed (f r)) rs) = Some n"
proof -
  show "spans_open n (map Stopped es) = Some n" "spans_open n (map StoppedAside es) = Some n" by (induction es) simp_all
  show "spans_open n (map Started ies) = Some n" by (induction ies) simp_all
  show "spans_open n (map (\<lambda>r. Printed (f r)) rs) = Some n" by (induction rs) simp_all
qed

lemma end_root_once: "length (filter is_root_end (snd (close tm now))) \<le> 1"
  by (simp add: close_snd)

lemma close_boot_twice:
  assumes "close_boot h tm now = (tm', eff)"
  shows "length (filter closes_root eff) \<le> 1" and "close_boot h tm' now' = (tm', [])"
proof -
  have "filter closes_root (map CloseBoot es) = map CloseBoot (filter is_root_end es)" for es
    by (induction es) simp_all
  with end_root_once show "length (filter closes_root eff) \<le> 1"
    using assms by (auto simp: close_boot_def case_prod_beta split: if_splits)
  show "close_boot h tm' now' = (tm', [])"
    using assms close_again [OF close_closes [of tm now], of now']
    by (auto simp: close_boot_def case_prod_beta split: if_splits)
qed

lemma no_root_closed [simp]: "filter closes_root (shutdown_providers h results) = []"
  by (simp add: shutdown_providers_def shutdown_one_def split: option.split)

lemma drop_after_close:
  assumes "close_boot h tm now = (tm', boot)" and "drop_handles h results took tm' now' shown = (tm2, here, aside, waited)"
  shows "shut_downs here = []" and "filter closes_root here = []"
proof -
  have "filter closes_root (map StopAgent ags) = []" for ags by (induction ags) simp_all
  with assms(2) show "shut_downs here = []" "filter closes_root here = []"
    by (auto simp: drop_handles_def close_boot_twice(2) [OF assms(1)] Let_def split: option.splits)
qed

lemma leave_ends:
  assumes "leave ho gl h = (ends, r)"
  shows "r = Inr ()" and "map stage ends = replicate (length ends) 2" and "spans_open n ends = Some n"
    and "shut_downs (stopped ends) = live_signals h" and "length (filter closes_root (stopped ends)) \<le> 1"
proof -
  obtain tm' boot where c: "close_boot h (gl_timeline gl) (ho_shutdown_at ho) = (tm', boot)" by fastforce
  obtain tm2 here aside waited where d: "drop_handles h (ho_results ho True) (ho_took ho) tm' (ho_drop_at ho)
      (ho_timeout_shown ho) = (tm2, here, aside, waited)" by (metis surj_pair)
  have ends: "ends = map Stopped (boot @ shutdown_providers h (ho_results ho False)) @ map StoppedAside aside @ map Stopped here"
    and "r = Inr ()"
    using assms by (simp_all add: leave_def shutdown_def c d)
  then show "r = Inr ()" by simp
  show "map stage ends = replicate (length ends) 2" "spans_open n ends = Some n"
    by (simp_all add: ends spans_open_append flip: replicate_add)
  obtain es where "boot = map CloseBoot es"
    using c close_boot_effects [of h "gl_timeline gl" "ho_shutdown_at ho"] by auto
  then show "shut_downs (stopped ends) = live_signals h"
    by (simp add: ends drop_after_close(1) [OF c d] shutdown_providers_sel del: map_map)
  show "length (filter closes_root (stopped ends)) \<le> 1"
    using close_boot_twice(1) [OF c] by (simp add: ends drop_after_close(2) [OF c d])
qed

lemma work_sel: "list_all (\<lambda>a. stage a = 1) work \<Longrightarrow> map stage work = replicate (length work) 1 \<and> stopped work = []"
  by (induction work rule: stopped.induct) simp_all

text \<open>Work that leaves no span open makes a program that ends well, unless the initialisation panics.\<close>

definition ends_or_panics :: "otel_signal list \<Rightarrow> bool \<Rightarrow> act list \<times> ending \<Rightarrow> bool" where
  "ends_or_panics sigs panics p \<longleftrightarrow>
     (if panics then snd p = Panics \<and> list_all (\<lambda>a. stage a = 0) (fst p) else ends_well sigs p)"

lemma run_main_ends:
  assumes "list_all (\<lambda>a. stage a = 1) work" and "spans_open 0 work = Some 0"
    and "sigs = Traces # (if bd_metrics b then [Metrics] else []) @ (if bd_logs b then [Logs] else [])"
  shows "ends_or_panics sigs (init_panics (ho_features ho) (in_tokio tokio ho) (ho_env ho) b) (run_main ho tokio b work)"
proof (cases "init_panics (ho_features ho) (in_tokio tokio ho) (ho_env ho) b")
  case True
  then show ?thesis
    by (auto simp: ends_or_panics_def init_panics_def run_main_def init_run_def list_all_iff case_prod_beta Let_def)
next
  case False
  obtain gl' eff r where i: "init (ho_features ho) (refusing (in_tokio tokio ho)) (ho_env ho) 0 b (ho_globals ho) = (gl', eff, r)"
    by (metis surj_pair)
  have run: "init_run (ho_features ho) (in_tokio tokio ho) (ho_env ho) 0 b (ho_globals ho) = (gl', eff, Answered r)"
    using False by (simp add: init_run_def init_panics_def i)
  have "ends_well sigs (run_main ho tokio b work)"
  proof (cases r)
    case (Inl e)
    then show ?thesis by (auto simp: run_main_def run ends_well_def list_all_iff)
  next
    case (Inr h)
    obtain ends res where l: "leave ho gl' h = (ends, res)" by fastforce
    have "(hd_meter h \<noteq> None) = bd_metrics b \<and> (hd_logger h \<noteq> None) = bd_logs b"
      by (rule init_cases [OF i]) (use Inr in \<open>auto dest!: init_meter_Inr init_logger_Inr split: if_splits\<close>)
    then show ?thesis
      using Inr assms(2,3) work_sel [OF assms(1)] leave_ends(1,2,4,5) [OF l] leave_ends(3) [OF l, of 0]
      by (auto simp: run_main_def run l ends_well_def spans_open_append sorted_append live_signals_def)
  qed
  with False show ?thesis by (simp add: ends_or_panics_def)
qed

lemma no_panic:
  assumes "xe_in_runtime ext \<or> (\<forall>xc. \<not> xe_exporter_needs_runtime ext xc) \<and> \<not> xe_channel_needs_runtime ext"
  shows "\<not> init_panics ft ext env b"
proof -
  have "\<not> first_panics ext xcs" for xcs
    using assms by (induction xcs) (auto simp: build_panics_def)
  moreover have "\<not> channel_panics ft ext env b"
    unfolding channel_panics_def using assms by (auto split: sum.split option.split mtls_transport.split)
  ultimately show ?thesis
    by (auto simp: init_panics_def exporter_panics_def simp del: first_panics.simps split: sum.splits option.splits)
qed

lemma grpc_panics:
  assumes "resolve_settings ft ext env b = Inr st" and "st_protocol st = Grpc" and "\<not> xe_in_runtime ext"
    and "\<forall>xc. xc_protocol xc = Grpc \<longrightarrow> xe_exporter_needs_runtime ext xc"
  shows "init_panics ft ext env b"
proof -
  have "xc_protocol (exporter_for sig Grpc ep t tr) = Grpc" for sig ep t tr
    by (auto simp: exporter_for_def apply_transport_def Let_def split: option.split mtls_transport.split)
  with assms show ?thesis by (simp add: init_panics_def exporter_panics_def build_panics_def)
qed

lemma in_tokio_sel [simp]:
  "xe_in_runtime (in_tokio tokio ho) = tokio"
  "xe_exporter_needs_runtime (in_tokio tokio ho) = xe_exporter_needs_runtime (ho_ext ho)"
  "xe_channel_needs_runtime (in_tokio tokio ho) = xe_channel_needs_runtime (ho_ext ho)"
  by (simp_all add: in_tokio_def)

lemma tokio_main_ends:
  assumes "list_all (\<lambda>a. stage a = 1) work" and "spans_open 0 work = Some 0"
    and "sigs = Traces # (if bd_metrics b then [Metrics] else []) @ (if bd_logs b then [Logs] else [])"
  shows "ends_well sigs (run_main ho True b work)"
  using run_main_ends [OF assms, of ho True] no_panic [of "in_tokio True ho"] by (simp add: ends_or_panics_def)

text \<open>Replies that are no errors make a program of the testing mode that ends well.\<close>

lemma run_testing_ends_well:
  assumes "list_all (\<lambda>r. \<not> isl r) replies"
  shows "ends_well [Traces, Metrics] (run_testing ho service replies)"
proof -
  obtain gl eff h where t: "testing (in_tokio True ho) 0 service (ho_globals ho) = (gl, eff, h)" by (metis surj_pair)
  obtain ends res where l: "leave ho gl h = (ends, res)" by fastforce
  have "live_signals h = [Traces, Metrics]"
    using t by (auto simp: testing_def Let_def case_prod_beta live_signals_def)
  then show ?thesis
    using assms leave_ends(1,2,4,5) [OF l] leave_ends(3) [OF l, of 0]
    by (auto simp: run_testing_def t l ends_well_def spans_open_append sorted_append)
qed

text \<open>
  With an instrument that enters the span at each poll and a \<open>load_master\<close> that is ready at its
  first poll and leaves the stack of spans as it was, \<open>spanned\<close> prints the key twice and ends well.
\<close>

lemma await_ready:
  assumes "enters_span fu" and "tidy fu load" and "alone fu load = (f', evs, Some r)"
  shows "await_polls (Suc n) fu (NotPolled sp load) stk = Some r"
  using instrumented_poll [OF assms] instrumented_drop [OF assms(1) tidy_poll(2) [OF assms(2,3)]]
  by (simp add: poll_await_def)

lemma spanned_ends_well:
  assumes "enters_span fu" and "tidy fu load" and "alone fu load = (f', evs, Some load_master)"
  shows "\<exists>p. spanned_main (Suc n) fu info_span load ho = Some p \<and> ends_well [Traces, Metrics] p
    \<and> length (filter (\<lambda>a. a = Printed (lit ''master-key'')) (fst p)) \<ge> 2"
proof -
  have "spanned_main (Suc n) fu info_span load ho
      = Some (run_testing ho (lit ''spanned-example'') [load_master, load_master])"
    by (simp add: spanned_main_def in_span_def spanned_run_def spanned_new_def await_ready [OF assms] del: await_polls.simps)
  moreover have "ends_well [Traces, Metrics] (run_testing ho (lit ''spanned-example'') [load_master, load_master])"
    by (rule run_testing_ends_well) (simp add: load_master_def)
  moreover have "length (filter (\<lambda>a. a = Printed (lit ''master-key'')) (fst (run_testing ho (lit ''spanned-example'')
      [load_master, load_master]))) \<ge> 2"
    by (simp add: run_testing_def load_master_def Let_def case_prod_beta)
  ultimately show ?thesis by blast
qed

text \<open>A request served outside a tracing span leaves the program's context nowhere.\<close>

lemma axum_app_unenriched:
  "axum_app order None ambient into_response pg start reason fl req =
     http_stack pg start reason id (hello order None into_response) True None ambient () fl None req"
  by (simp add: axum_app_def http_stack_enrich RequestCtx_def enrich_disabled)

section \<open>Property\<close>


text \<open>
  On a host whose gRPC exporters need a runtime \<open>basic_setup\<close> panics; \<open>spanned\<close> with futures as the
  counting ones that give the key.
\<close>

definition toy_host :: host where
  "toy_host = \<lparr>ho_features = all_features, ho_ext = toy_ext, ho_env = (\<lambda>_. None), ho_globals = toy_globals,
     ho_results = (\<lambda>_ _. None), ho_took = None, ho_shutdown_at = 1, ho_drop_at = 2, ho_timeout_shown = lit ''5s''\<rparr>"

definition key_loads :: "(countdown, nat, nat, rstring + rstring) futures" where
  "key_loads = \<lparr>fu_poll = (\<lambda>f stk. let (f', stk', evs, r) = poll_countdown f stk in (f', stk', evs, map_option (\<lambda>_. load_master) r)),
     fu_drop = drop_countdown, fu_instrument = Tagged\<rparr>"

lemma key_loads_enters: "enters_span key_loads"
  by (simp add: enters_span_def key_loads_def case_prod_beta)

lemma key_loads_tidy: "tidy key_loads (Steps n)"
proof (coinduction arbitrary: n)
  case tidy
  have drop: "fu_drop key_loads (Steps n) stk = (stk, map (\<lambda>(e, own). (e, own @ stk)) [(100 + n, [])])" for stk
    by (simp add: key_loads_def)
  show ?case
  proof (cases n)
    case 0
    then have "fu_poll key_loads (Steps n) stk = (Steps 0, stk, map (\<lambda>(e, own). (e, own @ stk)) [(0, [])], Some load_master)" for stk
      by (simp add: key_loads_def)
    with drop show ?thesis by blast
  next
    case (Suc m)
    then have "fu_poll key_loads (Steps n) stk = (Steps m, stk, map (\<lambda>(e, own). (e, own @ stk)) [(n, [9])], None)" for stk
      by (simp add: key_loads_def)
    with drop show ?thesis by blast
  qed
qed


end
