(* ===== verification/RuntimeMetrics.thy ===== *)
theory RuntimeMetrics
  imports RustTime RustStr
begin

text \<open>
  The process and runtime instruments of \<open>src/src/runtime_metrics.rs\<close>: what is registered
  with and without an async runtime, what a collection reads, the resident memory from
  \<open>/proc/self/statm\<close>, and the scheduler probe. The runtime's own counters and the
  readability of the file are parameters. Times stay durations: the exporter's seconds and
  milliseconds as floats are theirs.
\<close>

section \<open>Resident memory\<close>

definition parse_statm_resident :: "rstring \<Rightarrow> u64 option" where
  "parse_statm_resident statm =
     (case Option.bind (nth_opt (split_whitespace statm) 1) parse_u64 of
        None \<Rightarrow> None
      | Some resident_pages \<Rightarrow> Some (resident_pages * 4096))"

text \<open>A file system: what each path reads as text, if it does.\<close>

type_synonym files = "rstring \<Rightarrow> rstring option"

definition resident_memory_from :: "files \<Rightarrow> rstring \<Rightarrow> u64 option" where
  "resident_memory_from fs path = Option.bind (fs path) parse_statm_resident"

definition resident_memory_bytes :: "files \<Rightarrow> u64 option" where
  "resident_memory_bytes fs = resident_memory_from fs (lit ''/proc/self/statm'')"

section \<open>Instruments\<close>

text \<open>
  A runtime handle is a number; \<open>runtime_counters\<close> are its readings when asked. An instrument
  is its callback with what it captured at install time.
\<close>

record runtime_counters =
  rc_workers :: u64
  rc_alive_tasks :: u64
  rc_queue_depth :: u64

datatype callback =
    Uptime instant
  | ResidentMemory
  | Workers nat
  | AliveTasks nat
  | GlobalQueueDepth nat

record instrument =
  in_name :: rstring
  in_unit :: "rstring option"
  in_callback :: callback

datatype observation = ObsSeconds duration | ObsCount u64

text \<open>The moment of a collection: the clock, the files, every runtime's counters.\<close>

record moment =
  mo_now :: instant
  mo_files :: files
  mo_runtime :: "nat \<Rightarrow> runtime_counters"

definition uptime_seconds :: "moment \<Rightarrow> instant \<Rightarrow> duration" where
  "uptime_seconds t started = saturating_duration_since (mo_now t) started"

definition tokio_workers :: "moment \<Rightarrow> nat \<Rightarrow> u64" where
  "tokio_workers t handle = rc_workers (mo_runtime t handle)"

definition tokio_alive_tasks :: "moment \<Rightarrow> nat \<Rightarrow> u64" where
  "tokio_alive_tasks t handle = rc_alive_tasks (mo_runtime t handle)"

definition tokio_global_queue_depth :: "moment \<Rightarrow> nat \<Rightarrow> u64" where
  "tokio_global_queue_depth t handle = rc_queue_depth (mo_runtime t handle)"

primrec observe :: "moment \<Rightarrow> callback \<Rightarrow> observation option" where
  "observe t (Uptime started) = Some (ObsSeconds (uptime_seconds t started))"
| "observe t ResidentMemory = map_option ObsCount (resident_memory_bytes (mo_files t))"
| "observe t (Workers h) = Some (ObsCount (tokio_workers t h))"
| "observe t (AliveTasks h) = Some (ObsCount (tokio_alive_tasks t h))"
| "observe t (GlobalQueueDepth h) = Some (ObsCount (tokio_global_queue_depth t h))"

section \<open>Registration\<close>

definition install_tokio_gauges :: "nat option \<Rightarrow> instrument list" where
  "install_tokio_gauges runtime =
     (case runtime of
        None \<Rightarrow> []
      | Some h \<Rightarrow>
          [\<lparr>in_name = lit ''runtime.tokio.workers'', in_unit = None, in_callback = Workers h\<rparr>,
           \<lparr>in_name = lit ''runtime.tokio.alive_tasks'', in_unit = None, in_callback = AliveTasks h\<rparr>,
           \<lparr>in_name = lit ''runtime.tokio.global_queue_depth'', in_unit = None, in_callback = GlobalQueueDepth h\<rparr>])"

text \<open>The probe: a histogram, and a task on the current runtime that samples for ever.\<close>

definition SCHEDULER_PROBE_INTERVAL :: duration where
  "SCHEDULER_PROBE_INTERVAL = from_secs 5"

record probe =
  pr_name :: rstring
  pr_unit :: rstring
  pr_runtime :: nat

definition spawn_scheduler_probe :: "nat option \<Rightarrow> probe option" where
  "spawn_scheduler_probe runtime =
     (case runtime of
        None \<Rightarrow> None
      | Some h \<Rightarrow> Some \<lparr>pr_name = lit ''runtime.tokio.scheduler_delay'', pr_unit = lit ''ms'', pr_runtime = h\<rparr>)"

record installed =
  is_meter :: rstring
  is_gauges :: "instrument list"
  is_probe :: "probe option"

definition METER_NAME :: rstring where
  "METER_NAME = lit ''otel-bootstrap.runtime''"

definition install :: "instant \<Rightarrow> nat option \<Rightarrow> installed" where
  "install started runtime =
     \<lparr>is_meter = METER_NAME,
      is_gauges =
        [\<lparr>in_name = lit ''process.uptime'', in_unit = Some (lit ''s''), in_callback = Uptime started\<rparr>,
         \<lparr>in_name = lit ''process.memory.resident'', in_unit = Some (lit ''By''), in_callback = ResidentMemory\<rparr>]
        @ install_tokio_gauges runtime,
      is_probe = spawn_scheduler_probe runtime\<rparr>"

text \<open>
  \<open>run_scheduler_probe\<close> and \<open>record_scheduler_delay\<close>: the first samples of the loop. A
  sleep from \<open>t\<close> ends at \<open>wake t\<close>, a yield begun at \<open>t\<close> is polled again at
  \<open>resume t\<close>; each sample is the time the yield took.
\<close>

definition record_scheduler_delay :: "(instant \<Rightarrow> instant) \<Rightarrow> instant \<Rightarrow> instant \<times> duration" where
  "record_scheduler_delay resume started =
     (let now = resume started in (now, saturating_duration_since now started))"

primrec run_scheduler_probe :: "(instant \<Rightarrow> instant) \<Rightarrow> (instant \<Rightarrow> instant) \<Rightarrow> nat \<Rightarrow> instant \<Rightarrow> duration list" where
  "run_scheduler_probe wake resume 0 t = []"
| "run_scheduler_probe wake resume (Suc n) t =
     (let (now, delay) = record_scheduler_delay resume (wake t)
      in delay # run_scheduler_probe wake resume n now)"

text \<open>A collection: the readings of the registered instruments, by name.\<close>

definition collect_gauges :: "moment \<Rightarrow> instrument list \<Rightarrow> (rstring \<times> observation) list" where
  "collect_gauges t gs = concat (map (\<lambda>g. case observe t (in_callback g) of None \<Rightarrow> [] | Some o' \<Rightarrow> [(in_name g, o')]) gs)"

section \<open>Facts\<close>

lemma statm_second_field:
  assumes "\<forall>w\<in>set (a # b # fs). word_ok w" and "\<forall>c\<in>set eol. is_whitespace c"
  shows "parse_statm_resident (join_sp (a # b # fs) @ eol) = map_option (\<lambda>p. p * 4096) (parse_u64 b)"
  unfolding parse_statm_resident_def split_whitespace_join_end [OF assms]
  by (cases "parse_u64 b") simp_all

lemma statm_decimal:
  assumes "word_ok a" "\<forall>w\<in>set fs. word_ok w" and n: "n * 4096 < 2 ^ 64" and "\<forall>c\<in>set eol. is_whitespace c"
  shows "parse_statm_resident (join_sp (a # dec n # fs) @ eol) = Some (of_nat (n * 4096))"
proof -
  have "parse_u64 (dec n) = Some (of_nat n)" using n by (intro parse_u64_dec) simp
  then show ?thesis using assms by (subst statm_second_field) simp_all
qed

section \<open>Property\<close>

text \<open>
  C37. The gauges report what they are for. With a runtime at install time every later collection,
  made from whatever thread, reports that runtime's workers, live tasks and queue depth under
  their names, and without one none of these names and no probe exists; the uptime is the time
  since the install; the resident memory is the second field of the kernel's line in pages of
  4096 bytes, whatever the first is and whatever whitespace ends the line, and is left out when the file cannot be read.
\<close>

theorem gauges_report:
  assumes "word_ok vm" and "\<forall>w\<in>set rest. word_ok w" and "pages * 4096 < 2 ^ 64"
    and "\<forall>c\<in>set eol. is_whitespace c"
    and "mo_files t (lit ''/proc/self/statm'') = Some (join_sp (vm # dec pages # rest) @ eol)"
    and "mo_files t' (lit ''/proc/self/statm'') = None"
    and "started \<le> mo_now t"
  shows "collect_gauges t (is_gauges (install started (Some h))) =
      [(lit ''process.uptime'', ObsSeconds (nat (mo_now t - started))),
       (lit ''process.memory.resident'', ObsCount (of_nat (pages * 4096))),
       (lit ''runtime.tokio.workers'', ObsCount (rc_workers (mo_runtime t h))),
       (lit ''runtime.tokio.alive_tasks'', ObsCount (rc_alive_tasks (mo_runtime t h))),
       (lit ''runtime.tokio.global_queue_depth'', ObsCount (rc_queue_depth (mo_runtime t h)))]
    \<and> unat (of_nat (pages * 4096) :: u64) = pages * 4096
    \<and> map fst (collect_gauges t (is_gauges (install started None)))
        = [lit ''process.uptime'', lit ''process.memory.resident'']
    \<and> map fst (collect_gauges t' (is_gauges (install started None))) = [lit ''process.uptime'']
    \<and> is_probe (install started None) = None \<and> map_option pr_runtime (is_probe (install started (Some h))) = Some h"
proof -
  have "resident_memory_bytes (mo_files t) = Some (of_nat (pages * 4096))"
    using statm_decimal [OF assms(1-4)] assms(5)
    by (simp add: resident_memory_bytes_def resident_memory_from_def del: of_nat_mult)
  moreover have "resident_memory_bytes (mo_files t') = None"
    using assms(6) by (simp add: resident_memory_bytes_def resident_memory_from_def)
  ultimately show ?thesis
    using assms(7) unat_of_nat_u64 [OF assms(3)]
    by (simp add: collect_gauges_def install_def install_tokio_gauges_def spawn_scheduler_probe_def
        uptime_seconds_def saturating_duration_since_def tokio_workers_def tokio_alive_tasks_def
        tokio_global_queue_depth_def del: of_nat_mult)
qed

definition toy_moment :: "rstring option \<Rightarrow> moment" where
  "toy_moment statm = \<lparr>mo_now = 9, mo_files = (\<lambda>_. statm),
     mo_runtime = (\<lambda>h. \<lparr>rc_workers = of_nat h, rc_alive_tasks = 2, rc_queue_depth = 0\<rparr>)\<rparr>"

theorem gauges_report_witness:
  "collect_gauges (toy_moment (Some (join_sp [dec 100, dec 7, dec 3] @ [10]))) (is_gauges (install 4 (Some 6))) =
      [(lit ''process.uptime'', ObsSeconds 5), (lit ''process.memory.resident'', ObsCount 28672),
       (lit ''runtime.tokio.workers'', ObsCount 6), (lit ''runtime.tokio.alive_tasks'', ObsCount 2),
       (lit ''runtime.tokio.global_queue_depth'', ObsCount 0)]"
  using gauges_report [of "dec 100" "[dec 3]" 7 "[10]" "toy_moment (Some (join_sp [dec 100, dec 7, dec 3] @ [10]))"
      "toy_moment None" 4 6]
  by (simp add: toy_moment_def is_whitespace_def del: join_sp.simps)

end
