(* ===== verification/BuildScript.thy ===== *)
theory BuildScript
  imports RustStr
begin

text \<open>
  The build script (\<open>src/build.rs\<close>): on static musl with heap profiling compiled in it makes
  a library of the one archive member jemalloc needs and tells cargo what to link, in order. The
  environment, the file system and the binutils are parameters; output read from a tool is text.
\<close>

section \<open>Surroundings\<close>

type_synonym path = rstring

record build_env =
  be_var :: "rstring \<Rightarrow> rstring option"
  be_is_file :: "path \<Rightarrow> bool"
  be_armap :: "path \<Rightarrow> (bool \<times> rstring) option"
  be_undefined :: "path \<Rightarrow> rstring option"
  be_create_dir :: "path \<Rightarrow> rstring option"
  be_extract :: "path \<Rightarrow> rstring \<Rightarrow> bool"
  be_pack :: "rstring \<Rightarrow> bool"
  be_shim_made :: "path \<Rightarrow> bool"

text \<open>\<open>Path::join\<close> with a relative name.\<close>

definition join_path :: "path \<Rightarrow> rstring \<Rightarrow> path" where
  "join_path d f = (if d = [] \<or> last d = 47 then d @ f else d @ 47 # f)"

fun find_map :: "('a \<Rightarrow> 'b option) \<Rightarrow> 'a list \<Rightarrow> 'b option" where
  "find_map f [] = None"
| "find_map f (x # xs) = (case f x of Some y \<Rightarrow> Some y | None \<Rightarrow> find_map f xs)"

section \<open>The script\<close>

text \<open>What precedes the first dash; a target always has a first part.\<close>

definition arch_of :: "rstring \<Rightarrow> rstring" where
  "arch_of target = takeWhile (\<lambda>c. c \<noteq> 45) target"

definition search_dirs :: "build_env \<Rightarrow> rstring \<Rightarrow> path list" where
  "search_dirs env target =
     (case be_var env (lit ''OTEL_BOOTSTRAP_MUSL_LIBUNWIND_DIR'') of Some d \<Rightarrow> [d] | None \<Rightarrow> [])
     @ [lit ''/usr/local/musl/'' @ arch_of target @ lit ''/lib'',
        lit ''/usr/lib/'' @ arch_of target @ lit ''-linux-musl'',
        lit ''/usr/lib'']"

definition needs_lzma :: "build_env \<Rightarrow> path \<Rightarrow> bool" where
  "needs_lzma env archive =
     (case be_undefined env archive of Some out \<Rightarrow> contains out (lit ''lzma_'') | None \<Rightarrow> False)"

definition member_defining_unw_backtrace :: "build_env \<Rightarrow> path \<Rightarrow> rstring option" where
  "member_defining_unw_backtrace env archive =
     (case be_armap env archive of
        None \<Rightarrow> None
      | Some (success, out) \<Rightarrow>
          if \<not> success then None
          else find_map (\<lambda>l. map_option trim (strip_prefix (lit ''unw_backtrace in '') l)) (str_lines out))"

text \<open>What the script tells cargo and does to its output directory, in order.\<close>

datatype build_effect =
    RerunIfEnvChanged rstring
  | CargoWarning rstring
  | LinkSearch path
  | LinkLib rstring
  | RemoveDirAll path
  | CreateDirAll path
  | ArExtract path rstring
  | ArPack rstring rstring

datatype build_end = Built | Panicked rstring

definition find_archive :: "build_env \<Rightarrow> path list \<Rightarrow> (path \<times> path) option" where
  "find_archive env searched =
     find_map (\<lambda>d. let a = join_path d (lit ''libunwind.a'') in if be_is_file env a then Some (d, a) else None) searched"

text \<open>The beginning of the panic's message, which names the target and all that was searched.\<close>

definition no_libunwind :: "rstring \<Rightarrow> path list \<Rightarrow> rstring" where
  "no_libunwind target searched =
     lit ''otel-bootstrap: heap profiling (profiling-memory-jemalloc) is enabled for target '' @ target
     @ lit '', but no musl-built libunwind.a was found in any of: '' @ join_with (lit '', '') searched"

text \<open>The libraries at the end, each when the unwinder needs lzma and the directory has it.\<close>

definition extra_libs :: "build_env \<Rightarrow> path \<Rightarrow> path \<Rightarrow> build_effect list" where
  "extra_libs env dir archive =
     concat (map (\<lambda>(lib, file). if needs_lzma env archive \<and> be_is_file env (join_path dir file) then [LinkLib (lit ''static='' @ lib)] else [])
       [(lit ''lzma'', lit ''liblzma.a''), (lit ''z'', lit ''libz.a'')])"

text \<open>The part from the member on: extraction, packaging, what to link.\<close>

definition build_shim :: "build_env \<Rightarrow> rstring \<Rightarrow> path \<Rightarrow> path \<Rightarrow> path \<Rightarrow> rstring \<Rightarrow> build_effect list \<times> build_end" where
  "build_shim env target out_dir dir archive member =
     (let work = join_path out_dir (lit ''unwind-shim'');
          shim_name = lit ''libunwind_backtrace_shim.a'';
          eff = [RemoveDirAll work, CreateDirAll work]
      in case be_create_dir env work of
           Some e \<Rightarrow> (eff, Panicked (lit ''create shim dir: '' @ e))
         | None \<Rightarrow>
             let eff = eff @ [ArExtract archive member] in
             if \<not> be_extract env archive member then
               (eff @ [CargoWarning (lit ''otel-bootstrap: could not extract '' @ member @ lit '' from '' @ archive)], Built)
             else
               let eff = eff @ [ArPack shim_name member] in
               if \<not> be_pack env member \<or> \<not> be_shim_made env (join_path work shim_name) then
                 (eff @ [CargoWarning (lit ''otel-bootstrap: could not package the unwind shim'')], Built)
               else
                 (eff @ [LinkSearch work, LinkSearch dir, LinkLib (lit ''static=unwind_backtrace_shim''),
                         LinkLib (lit ''static=unwind''), LinkLib (lit ''static=unwind-'' @ arch_of target)]
                  @ extra_libs env dir archive, Built))"

definition build_main :: "build_env \<Rightarrow> build_effect list \<times> build_end" where
  "build_main env =
     (let eff = [RerunIfEnvChanged (lit ''OTEL_BOOTSTRAP_MUSL_LIBUNWIND_DIR'')] in
      if be_var env (lit ''CARGO_FEATURE_PROFILING_MEMORY_JEMALLOC'') = None then (eff, Built)
      else if be_var env (lit ''CARGO_CFG_TARGET_ENV'') \<noteq> Some (lit ''musl'') then (eff, Built)
      else
        let target = unwrap_or (be_var env (lit ''TARGET'')) [] in
        case be_var env (lit ''OUT_DIR'') of
          None \<Rightarrow> (eff, Panicked (lit ''OUT_DIR''))
        | Some out_dir \<Rightarrow>
            let searched = search_dirs env target in
            (case find_archive env searched of
               None \<Rightarrow> (eff, Panicked (no_libunwind target searched))
             | Some (dir, archive) \<Rightarrow>
                 (case member_defining_unw_backtrace env archive of
                    None \<Rightarrow>
                      (eff @ [CargoWarning (lit ''otel-bootstrap: '' @ archive
                          @ lit '' defines no unw_backtrace; heap profiling will not link for this target.'')], Built)
                  | Some member \<Rightarrow>
                      let (eff', fin) = build_shim env target out_dir dir archive member in (eff @ eff', fin))))"

section \<open>Facts\<close>

fun linked :: "build_effect list \<Rightarrow> rstring list" where
  "linked [] = []"
| "linked (LinkLib l # eff) = l # linked eff"
| "linked (_ # eff) = linked eff"

fun cargo_warnings :: "build_effect list \<Rightarrow> rstring list" where
  "cargo_warnings [] = []"
| "cargo_warnings (CargoWarning w # eff) = w # cargo_warnings eff"
| "cargo_warnings (_ # eff) = cargo_warnings eff"

lemma linked_append [simp]: "linked (xs @ ys) = linked xs @ linked ys"
  by (induction xs rule: linked.induct) simp_all

lemma cargo_warnings_append [simp]: "cargo_warnings (xs @ ys) = cargo_warnings xs @ cargo_warnings ys"
  by (induction xs rule: cargo_warnings.induct) simp_all

lemma find_map_Some:
  "find_map f xs = Some y \<Longrightarrow> \<exists>pre x post. xs = pre @ x # post \<and> f x = Some y \<and> (\<forall>p\<in>set pre. f p = None)"
proof (induction xs)
  case (Cons x xs)
  show ?case
  proof (cases "f x")
    case None
    with Cons obtain pre x' post where "xs = pre @ x' # post" "f x' = Some y" "\<forall>p\<in>set pre. f p = None" by auto
    with None show ?thesis by (intro exI [of _ "x # pre"]) auto
  next
    case (Some z)
    with Cons.prems show ?thesis by (intro exI [of _ "[]"]) auto
  qed
qed simp

lemma find_map_None: "find_map f xs = None \<longleftrightarrow> (\<forall>x\<in>set xs. f x = None)"
  by (induction xs) (auto split: option.split)

lemma find_archive_None:
  "find_archive env ds = None \<longleftrightarrow> (\<forall>d\<in>set ds. \<not> be_is_file env (join_path d (lit ''libunwind.a'')))"
  by (simp add: find_archive_def find_map_None Let_def)

lemma find_archive_Some:
  assumes "find_archive env ds = Some (d, a)"
  shows "a = join_path d (lit ''libunwind.a'') \<and> (\<exists>pre post. ds = pre @ d # post \<and> be_is_file env a
    \<and> (\<forall>p\<in>set pre. \<not> be_is_file env (join_path p (lit ''libunwind.a''))))"
proof -
  obtain pre x post where "ds = pre @ x # post"
    and x: "(let a = join_path x (lit ''libunwind.a'') in if be_is_file env a then Some (x, a) else None) = Some (d, a)"
    and "\<forall>p\<in>set pre. (let a = join_path p (lit ''libunwind.a'') in if be_is_file env a then Some (p, a) else None) = None"
    using find_map_Some [OF assms [unfolded find_archive_def]] by blast
  moreover from x have "x = d" "a = join_path d (lit ''libunwind.a'')" "be_is_file env a"
    by (auto simp: Let_def split: if_splits)
  moreover have "\<forall>p\<in>set pre. \<not> be_is_file env (join_path p (lit ''libunwind.a''))"
    using calculation(3) by (auto simp: Let_def split: if_split_asm)
  ultimately show ?thesis by blast
qed

lemma extra_libs_effects [simp]:
  "cargo_warnings (extra_libs env dir archive) = []"
  "linked (extra_libs env dir archive) = (if needs_lzma env archive
     then (if be_is_file env (join_path dir (lit ''liblzma.a'')) then [lit ''static=lzma''] else [])
       @ (if be_is_file env (join_path dir (lit ''libz.a'')) then [lit ''static=z''] else [])
     else [])"
  by (simp_all add: extra_libs_def lit_append [symmetric])

text \<open>The three ways the part from the member on ends without a panic.\<close>

lemma build_shim_cases:
  assumes "build_shim env target out_dir dir archive member = (eff, Built)"
  defines "made \<equiv> be_extract env archive member \<and> be_pack env member
    \<and> be_shim_made env (join_path (join_path out_dir (lit ''unwind-shim'')) (lit ''libunwind_backtrace_shim.a''))"
  shows "linked eff = (if made then [lit ''static=unwind_backtrace_shim'', lit ''static=unwind'', lit ''static=unwind-'' @ arch_of target]
            @ linked (extra_libs env dir archive) else [])
    \<and> length (cargo_warnings eff) = (if made then 0 else 1)
    \<and> (made \<longrightarrow> ArExtract archive member \<in> set eff)"
proof (cases "be_create_dir env (join_path out_dir (lit ''unwind-shim''))")
  case (Some e)
  with assms(1) show ?thesis by (simp only: build_shim_def Let_def option.case prod.inject build_end.distinct simp_thms)
next
  case None
  note unfolds = build_shim_def Let_def None option.case if_True if_False simp_thms prod.inject
  show ?thesis
  proof (cases "be_extract env archive member")
    case False
    with assms(1) have "eff = [RemoveDirAll (join_path out_dir (lit ''unwind-shim'')), CreateDirAll (join_path out_dir (lit ''unwind-shim''))]
        @ [ArExtract archive member]
        @ [CargoWarning (lit ''otel-bootstrap: could not extract '' @ member @ lit '' from '' @ archive)]"
      by (simp only: unfolds append_assoc)
    with False show ?thesis by (simp add: made_def)
  next
    case True
    note extracted = this
    show ?thesis
    proof (cases made)
      case True
      with assms(1) extracted show ?thesis by (simp only: unfolds made_def) auto
    next
      case False
      with assms(1) extracted show ?thesis by (simp only: unfolds made_def de_Morgan_conj) auto
    qed
  qed
qed

lemma build_main_off:
  "be_var env (lit ''CARGO_FEATURE_PROFILING_MEMORY_JEMALLOC'') = None
      \<or> be_var env (lit ''CARGO_CFG_TARGET_ENV'') \<noteq> Some (lit ''musl'')
    \<Longrightarrow> build_main env = ([RerunIfEnvChanged (lit ''OTEL_BOOTSTRAP_MUSL_LIBUNWIND_DIR'')], Built)"
  by (auto simp: build_main_def Let_def)

section \<open>Property\<close>

text \<open>
  C38. The build script never passes over a missing unwinder. Without heap profiling, or off musl,
  it links nothing. On musl with it, a build that goes through has found an archive in the first
  directory searched that holds one, the one named by the environment before the standard ones,
  and either links the shim made of the member defining the unwinder's entry point, then the
  archives in the order the linker needs, without a warning, or links nothing and warns exactly
  once; and with no archive in any directory the build fails.
\<close>

theorem build_links_or_says_so:
  assumes "build_main env = (eff, fin)"
    and "profiled = (be_var env (lit ''CARGO_FEATURE_PROFILING_MEMORY_JEMALLOC'') \<noteq> None
      \<and> be_var env (lit ''CARGO_CFG_TARGET_ENV'') = Some (lit ''musl''))"
    and "target = unwrap_or (be_var env (lit ''TARGET'')) []"
  shows "(\<not> profiled \<longrightarrow> fin = Built \<and> linked eff = [] \<and> cargo_warnings eff = [])
    \<and> (profiled \<and> (\<forall>d\<in>set (search_dirs env target). \<not> be_is_file env (join_path d (lit ''libunwind.a'')))
        \<longrightarrow> fin \<noteq> Built \<and> linked eff = [])
    \<and> (profiled \<and> fin = Built \<longrightarrow> (\<exists>pre d post.
        search_dirs env target = pre @ d # post \<and> be_is_file env (join_path d (lit ''libunwind.a''))
        \<and> (\<forall>p\<in>set pre. \<not> be_is_file env (join_path p (lit ''libunwind.a'')))
        \<and> (linked eff = [] \<and> length (cargo_warnings eff) = 1
           \<or> cargo_warnings eff = []
             \<and> linked eff = [lit ''static=unwind_backtrace_shim'', lit ''static=unwind'', lit ''static=unwind-'' @ arch_of target]
                 @ linked (extra_libs env d (join_path d (lit ''libunwind.a'')))
             \<and> (\<exists>m. member_defining_unw_backtrace env (join_path d (lit ''libunwind.a'')) = Some m
                 \<and> ArExtract (join_path d (lit ''libunwind.a'')) m \<in> set eff))))"
proof (cases profiled)
  case False
  with assms(2) have "build_main env = ([RerunIfEnvChanged (lit ''OTEL_BOOTSTRAP_MUSL_LIBUNWIND_DIR'')], Built)"
    by (intro build_main_off) blast
  with False assms(1) show ?thesis by auto
next
  case True
  note main = assms(1) [unfolded build_main_def Let_def, folded assms(3)]
  have on: "be_var env (lit ''CARGO_FEATURE_PROFILING_MEMORY_JEMALLOC'') \<noteq> None"
      "be_var env (lit ''CARGO_CFG_TARGET_ENV'') = Some (lit ''musl'')"
    using True assms(2) by simp_all
  show ?thesis
  proof (cases "be_var env (lit ''OUT_DIR'')")
    case None
    with main on True show ?thesis by auto
  next
    case (Some out_dir)
    show ?thesis
    proof (cases "find_archive env (search_dirs env target)")
      case None
      with main on True Some have "fin \<noteq> Built" "linked eff = []" by auto
      then show ?thesis using True by simp
    next
      case found: (Some da)
      obtain d a where da: "da = (d, a)" by (cases da)
      obtain pre post where a: "a = join_path d (lit ''libunwind.a'')" and dirs: "search_dirs env target = pre @ d # post"
        and there: "be_is_file env a" and pre: "\<forall>p\<in>set pre. \<not> be_is_file env (join_path p (lit ''libunwind.a''))"
        using find_archive_Some [OF found [unfolded da]] by blast
      have outcome: "linked eff = [] \<and> length (cargo_warnings eff) = 1
          \<or> cargo_warnings eff = []
            \<and> linked eff = [lit ''static=unwind_backtrace_shim'', lit ''static=unwind'', lit ''static=unwind-'' @ arch_of target]
                @ linked (extra_libs env d a)
            \<and> (\<exists>m. member_defining_unw_backtrace env a = Some m \<and> ArExtract a m \<in> set eff)" if built: "fin = Built"
      proof (cases "member_defining_unw_backtrace env a")
        case None
        with main on Some found da show ?thesis by auto
      next
        case (Some m)
        obtain eff' where shim: "build_shim env target out_dir d a m = (eff', Built)"
            and "eff = [RerunIfEnvChanged (lit ''OTEL_BOOTSTRAP_MUSL_LIBUNWIND_DIR'')] @ eff'"
          using main on \<open>be_var env (lit ''OUT_DIR'') = Some out_dir\<close> found da Some built
          by (auto split: prod.splits)
        with build_shim_cases [OF shim] Some show ?thesis by (auto split: if_splits)
      qed
      have "\<not> (\<forall>d\<in>set (search_dirs env target). \<not> be_is_file env (join_path d (lit ''libunwind.a'')))"
        using dirs there a by simp
      then show ?thesis using True dirs there pre outcome unfolding a by blast
    qed
  qed
qed

text \<open>An Alpine machine: the unwinder in \<open>/usr/lib\<close> only, and a member that cannot be packed.\<close>

definition alpine :: build_env where
  "alpine = \<lparr>be_var = (\<lambda>k. if k = lit ''CARGO_CFG_TARGET_ENV'' then Some (lit ''musl'')
       else if k = lit ''OTEL_BOOTSTRAP_MUSL_LIBUNWIND_DIR'' then None else Some []),
     be_is_file = (\<lambda>p. p = lit ''/usr/lib/libunwind.a''),
     be_armap = (\<lambda>_. Some (True, lit ''unw_backtrace in b.o'')), be_undefined = (\<lambda>_. None),
     be_create_dir = (\<lambda>_. None), be_extract = (\<lambda>_ _. True), be_pack = (\<lambda>_. False), be_shim_made = (\<lambda>_. False)\<rparr>"

theorem build_links_or_says_so_witness:
  "\<exists>eff. build_main alpine = (eff, Built) \<and> linked eff = [] \<and> length (cargo_warnings eff) = 1
     \<and> (\<exists>pre d post. search_dirs alpine [] = pre @ d # post \<and> join_path d (lit ''libunwind.a'') = lit ''/usr/lib/libunwind.a'')"
proof -
  obtain eff fin where main: "build_main alpine = (eff, fin)" by (cases "build_main alpine")
  have file_at: "join_path (lit ''/usr/lib'') (lit ''libunwind.a'') = lit ''/usr/lib/libunwind.a''"
    by (simp add: join_path_def lit_def)
  have dirs: "search_dirs alpine [] = [lit ''/usr/local/musl//lib'', lit ''/usr/lib/-linux-musl'', lit ''/usr/lib'']"
    by (simp add: search_dirs_def alpine_def arch_of_def lit_def)
  have "find_archive alpine (search_dirs alpine []) = Some (lit ''/usr/lib'', lit ''/usr/lib/libunwind.a'')"
    unfolding dirs by (simp add: find_archive_def alpine_def join_path_def lit_def)
  moreover have "member_defining_unw_backtrace alpine a = Some (lit ''b.o'')" for a
    by (simp add: member_defining_unw_backtrace_def alpine_def str_lines_def strip_prefix_def trim_def trim_by_def
        trim_end_by_def is_whitespace_def lit_def)
  ultimately have "fin = Built" "linked eff = []"
    using main by (auto simp: build_main_def build_shim_def Let_def alpine_def)
  with build_links_or_says_so [OF main refl refl] main file_at show ?thesis
    by (auto simp: alpine_def)
qed

end
