(* ===== verification/Probes.thy ===== *)
theory Probes
  imports Complex_Main InitProps
begin

text \<open>
  The two probe programs: \<open>src/src/bin/heap-probe.rs\<close>, which asks whether jemalloc's heap
  profiles hold anything, and \<open>src/src/bin/rss-probe.rs\<close>, which asks whether the profiling
  bridge leaks: its samples, the slope it fits through them, the check of an upload, and the order
  in which it gives up. The allocator, the clock, \<open>/proc\<close>, gzip and the sockets are
  parameters. A finite float is its rational value and every operation on floats rounds its exact
  result by the parameter \<open>rnd\<close>.
\<close>

section \<open>The heap probe\<close>

text \<open>The control handle when the profile is dumped.\<close>

datatype dump_ctl = DumpAbsent | DumpHeld | DumpFree "rstring + bytes"

definition dump_pprof :: "dump_ctl \<Rightarrow> rstring + bytes" where
  "dump_pprof ctl =
     (case ctl of
        DumpAbsent \<Rightarrow> Inl (lit ''jemalloc profiling not compiled into this binary'')
      | DumpHeld \<Rightarrow> Inl (lit ''prof ctl held elsewhere'')
      | DumpFree r \<Rightarrow> r)"

datatype heap_verdict =
    HeapPanic
  | HeapInactive rstring
  | HeapDumpFailed rstring
  | HeapEmptyProfile
  | HeapOk nat

primrec heap_exit_code :: "heap_verdict \<Rightarrow> nat" where
  "heap_exit_code HeapPanic = 2"
| "heap_exit_code (HeapInactive e) = 3"
| "heap_exit_code (HeapDumpFailed e) = 4"
| "heap_exit_code HeapEmptyProfile = 5"
| "heap_exit_code (HeapOk n) = 0"

text \<open>\<open>dump\<close> is the handle after the ballast is allocated.\<close>

definition heap_probe_main :: "prof_ctl \<Rightarrow> dump_ctl \<Rightarrow> heap_verdict" where
  "heap_probe_main ctl dump =
     (case activate_jemalloc_sampling ctl of
        Panicked \<Rightarrow> HeapPanic
      | Unavailable e \<Rightarrow> HeapInactive e
      | Activated \<Rightarrow>
          (case dump_pprof dump of
             Inl e \<Rightarrow> HeapDumpFailed e
           | Inr pprof \<Rightarrow> if pprof = [] then HeapEmptyProfile else HeapOk (length pprof)))"

section \<open>Readings of the leak probe\<close>

definition env_u64 :: "env_vars \<Rightarrow> rstring \<Rightarrow> u64 \<Rightarrow> u64" where
  "env_u64 env key dflt = unwrap_or (Option.bind (env key) parse_u64) dflt"

text \<open>
  The resident set: on Linux from \<open>/proc/self/status\<close>, elsewhere from what \<open>ps\<close>
  prints; \<open>None\<close> is a file that cannot be read or a command that cannot be run.
\<close>

datatype rss_source = ProcStatus "rstring option" | PsOutput "rstring option"

primrec rss_bytes :: "rss_source \<Rightarrow> u64 option" where
  "rss_bytes (ProcStatus status) =
     Option.bind status (\<lambda>s.
     Option.bind (find (\<lambda>l. starts_with l (lit ''VmRSS:'')) (str_lines s)) (\<lambda>l.
     Option.bind (nth_opt (split_whitespace l) 1) (\<lambda>w.
     map_option (\<lambda>kib. kib * 1024) (parse_u64 w))))"
| "rss_bytes (PsOutput out) =
     Option.bind out (\<lambda>s. map_option (\<lambda>kib. kib * 1024) (parse_u64 (trim s)))"

text \<open>What follows the first blank line of a request, and whether an upload has span labels;
  \<open>gunzip\<close> gives what was decoded and whether it ended well.\<close>

fun after_headers :: "rstring \<Rightarrow> rstring option" where
  "after_headers [] = None"
| "after_headers (c # s) = (if starts_with (c # s) [13, 10, 13, 10] then Some (drop 3 s) else after_headers s)"

definition body_has_per_span_labels :: "(rstring \<Rightarrow> rstring \<times> bool) \<Rightarrow> rstring \<Rightarrow> bool" where
  "body_has_per_span_labels gunzip body =
     (case after_headers body of
        None \<Rightarrow> False
      | Some gz \<Rightarrow>
          let (out, good) = gunzip gz in
          if \<not> good \<and> out = [] then False
          else contains out (lit ''span_id'') \<or> contains out (lit ''trace_id''))"

text \<open>
  The sink: a connection is read in chunks until an error, an end or a short chunk, and counted,
  with its bytes and whether it has labels.
\<close>

fun sink_read :: "rstring option list \<Rightarrow> rstring" where
  "sink_read [] = []"
| "sink_read (None # cs) = []"
| "sink_read (Some c # cs) = (if length c = 32 * 1024 then c @ sink_read cs else c)"

record upload_counts =
  sk_pushes :: u64
  sk_push_bytes :: u64
  sk_tagged :: u64

definition sink_accept :: "(rstring \<Rightarrow> rstring \<times> bool) \<Rightarrow> upload_counts \<Rightarrow> rstring option list \<Rightarrow> upload_counts" where
  "sink_accept gunzip sk chunks =
     (let body = sink_read chunks in
      \<lparr>sk_pushes = sk_pushes sk + 1, sk_push_bytes = sk_push_bytes sk + of_nat (length body),
       sk_tagged = (if body_has_per_span_labels gunzip body then sk_tagged sk + 1 else sk_tagged sk)\<rparr>)"

definition spawn_sink :: "(rstring \<Rightarrow> rstring \<times> bool) \<Rightarrow> rstring option list list \<Rightarrow> upload_counts" where
  "spawn_sink gunzip conns =
     foldl (sink_accept gunzip) \<lparr>sk_pushes = 0, sk_push_bytes = 0, sk_tagged = 0\<rparr> conns"

definition WORK_ITERS :: nat where
  "WORK_ITERS = 60000"

definition work :: "u64 \<Rightarrow> u64" where
  "work n = ((\<lambda>acc. acc * 6364136223846793005 + 1) ^^ WORK_ITERS) n"

section \<open>The load\<close>

definition SPAN_THREADS :: nat where
  "SPAN_THREADS = 2"

datatype span_step =
    StartOtelSpan rstring
  | AttachContext
  | NewSpan rstring nat
  | EnterSpan
  | Worked u64
  | ExitSpan
  | DetachContext
  | CountSpan

text \<open>
  One round of a span thread: an OpenTelemetry span whose context is attached, a tracing span
  entered inside it, the work, both left in the opposite order, and the count.
\<close>

definition span_round :: "nat \<Rightarrow> u64 \<Rightarrow> span_step list \<times> u64" where
  "span_round t n =
     (let name = lit ''rss_probe.unit''; n' = work n in
      ([StartOtelSpan name, AttachContext, NewSpan name t, EnterSpan, Worked n', ExitSpan, DetachContext, CountSpan], n'))"

text \<open>A span thread over the rounds it makes before it sees the stop flag.\<close>

fun span_thread :: "nat \<Rightarrow> nat \<Rightarrow> u64 \<Rightarrow> span_step list" where
  "span_thread t 0 n = []"
| "span_thread t (Suc m) n = (let (steps, n') = span_round t n in steps @ span_thread t m n')"

text \<open>What the shared counter holds after all threads, given the rounds each made.\<close>

definition spans_entered :: "(nat \<Rightarrow> nat) \<Rightarrow> u64" where
  "spans_entered rounds =
     of_nat (length (filter (\<lambda>st. st = CountSpan)
       (concat (map (\<lambda>t. span_thread t (rounds t) (of_nat t)) [0..<SPAN_THREADS]))))"

section \<open>The slope\<close>

type_synonym rounding = "rat \<Rightarrow> rat"

type_synonym sample = "rat \<times> rat"

definition pair_slope :: "rounding \<Rightarrow> sample \<Rightarrow> sample \<Rightarrow> rat" where
  "pair_slope rnd s0 s1 = rnd (rnd (snd s1 - snd s0) / rnd (fst s1 - fst s0))"

fun pair_slopes :: "rounding \<Rightarrow> sample list \<Rightarrow> rat list" where
  "pair_slopes rnd [] = []"
| "pair_slopes rnd (s0 # ss) =
     map (pair_slope rnd s0) (filter (\<lambda>s1. fst s0 < fst s1) ss) @ pair_slopes rnd ss"

definition slope :: "rounding \<Rightarrow> sample list \<Rightarrow> rat" where
  "slope rnd samples =
     (let ps = sort (pair_slopes rnd samples); mid = length ps div 2 in
      if ps = [] then 0
      else if odd (length ps) then ps ! mid
      else rnd (rnd (ps ! (mid - 1) + ps ! mid) / 2))"

section \<open>The run of the leak probe\<close>

definition MEASURE_SECS :: u64 where "MEASURE_SECS = 120"
definition WARMUP_SECS :: u64 where "WARMUP_SECS = 60"

text \<open>The measuring loop over what each second's wake-up reads: the elapsed time and the RSS.\<close>

fun measure_loop :: "rounding \<Rightarrow> rat \<Rightarrow> rat \<Rightarrow> (rat \<times> u64 option) list \<Rightarrow> sample list" where
  "measure_loop rnd warmup until [] = []"
| "measure_loop rnd warmup until ((elapsed, reading) # rest) =
     (if until \<le> elapsed then []
      else case reading of
          None \<Rightarrow> measure_loop rnd warmup until rest
        | Some rss \<Rightarrow>
            (if warmup \<le> elapsed then [(elapsed, rnd (of_nat (unat rss)))] else [])
            @ measure_loop rnd warmup until rest)"

record leak_report =
  lk_profiling :: bool
  lk_mib_per_hour :: rat
  lk_samples :: nat
  lk_spans :: u64
  lk_spans_per_sec :: rat
  lk_first_rss :: u64
  lk_last_rss :: u64
  lk_pushes :: u64
  lk_push_bytes :: u64
  lk_bytes_per_push :: u64
  lk_tagged_pushes :: u64

datatype leak_verdict =
    NoRss
  | SinkFailed rstring
  | InitFailed rstring
  | BridgeInactive
  | NoLoad u64
  | LeakOk leak_report

primrec leak_exit_code :: "leak_verdict \<Rightarrow> nat" where
  "leak_exit_code NoRss = 3"
| "leak_exit_code (SinkFailed e) = 4"
| "leak_exit_code (InitFailed e) = 5"
| "leak_exit_code BridgeInactive = 6"
| "leak_exit_code (NoLoad n) = 7"
| "leak_exit_code (LeakOk r) = 0"

text \<open>
  What the process meets: its environment, whether the RSS can be read at the start, the sink's
  port, the initialisation of telemetry, the readings of the loop, the rounds of each span thread, the seconds elapsed
  at the end and the uploads.
\<close>

record leak_run =
  lr_env :: env_vars
  lr_rss :: rss_source
  lr_sink :: "rstring + u64"
  lr_init :: "builder \<Rightarrow> rstring + handles"
  lr_readings :: "(rat \<times> u64 option) list"
  lr_rounds :: "nat \<Rightarrow> nat"
  lr_elapsed :: rat
  lr_gunzip :: "rstring \<Rightarrow> rstring \<times> bool"
  lr_connections :: "rstring option list list"

definition sink_url :: "u64 \<Rightarrow> rstring" where
  "sink_url port = lit ''http://127.0.0.1:'' @ dec (unat port)"

text \<open>A finite float as a u64: its integral part, within the type's bounds.\<close>

definition f64_as_u64 :: "rat \<Rightarrow> u64" where
  "f64_as_u64 x = of_nat (min (2 ^ 64 - 1) (nat \<lfloor>x\<rfloor>))"

text \<open>The end of \<open>main\<close>: from the samples to the verdict.\<close>

definition leak_verdict_of :: "rounding \<Rightarrow> leak_run \<Rightarrow> bool \<Rightarrow> sample list \<Rightarrow> leak_verdict" where
  "leak_verdict_of rnd run control samples =
     (let bytes_per_sec = slope rnd samples;
          mib = rnd (rnd (bytes_per_sec * 3600) / (1024 * 1024));
          rss_of = (\<lambda>ss. case ss of [] \<Rightarrow> 0 | s # _ \<Rightarrow> f64_as_u64 (snd s));
          sk = spawn_sink (lr_gunzip run) (lr_connections run);
          spans = spans_entered (lr_rounds run)
      in if spans < 1000 then NoLoad spans
         else LeakOk
           \<lparr>lk_profiling = (\<not> control), lk_mib_per_hour = mib, lk_samples = length samples,
            lk_spans = spans,
            lk_spans_per_sec = rnd (rnd (of_nat (unat spans)) / max (lr_elapsed run) 1),
            lk_first_rss = rss_of samples, lk_last_rss = rss_of (rev samples),
            lk_pushes = sk_pushes sk, lk_push_bytes = sk_push_bytes sk,
            lk_bytes_per_push = (if sk_pushes sk = 0 then 0 else sk_push_bytes sk div sk_pushes sk),
            lk_tagged_pushes = sk_tagged sk\<rparr>)"

text \<open>The verdict, and the handles that were shut down before the end: an early exit shuts none down.\<close>

definition rss_probe_main :: "rounding \<Rightarrow> leak_run \<Rightarrow> leak_verdict \<times> handles option" where
  "rss_probe_main rnd run =
     (let measure = env_u64 (lr_env run) (lit ''RSS_PROBE_MEASURE_SECS'') MEASURE_SECS;
          warmup = env_u64 (lr_env run) (lit ''RSS_PROBE_WARMUP_SECS'') WARMUP_SECS in
      if rss_bytes (lr_rss run) = None then (NoRss, None)
      else case lr_sink run of
          Inl e \<Rightarrow> (SinkFailed e, None)
        | Inr port \<Rightarrow>
            let control = (lr_env run (lit ''RSS_PROBE_NO_PROFILING'') = Some (lit ''1''));
                b = telemetry_builder (lit ''rss-probe'');
                b = (if control then b else with_profiling (sink_url port) b)
            in (case lr_init run b of
                  Inl e \<Rightarrow> (InitFailed e, None)
                | Inr h \<Rightarrow>
                    if \<not> control \<and> hd_profiling h = None then (BridgeInactive, None)
                    else (leak_verdict_of rnd run control
                        (measure_loop rnd (rnd (of_nat (unat warmup))) (rnd (of_nat (unat (warmup + measure))))
                           (lr_readings run)), Some h)))"

section \<open>Medians\<close>

text \<open>In a sorted list a value that more than half of the entries have is in the middle.\<close>

lemma majority_nth:
  fixes ps :: "'a::linorder list"
  assumes "sorted ps" and i: "i < length ps" "length ps \<le> 2 * (i + 1)" "length ps \<le> 2 * (length ps - i)"
    and maj: "2 * length (filter (\<lambda>p. p \<noteq> v) ps) < length ps"
  shows "ps ! i = v"
proof (rule ccontr)
  let ?bad = "{j. j < length ps \<and> ps ! j \<noteq> v}"
  assume "ps ! i \<noteq> v"
  then consider "ps ! i < v" | "v < ps ! i" by fastforce
  then have "length ps \<le> 2 * card ?bad"
  proof cases
    case 1
    have "ps ! j \<noteq> v" if "j \<le> i" for j
      using sorted_nth_mono [OF assms(1) that i(1)] 1 by auto
    then have "{..i} \<subseteq> ?bad" using i(1) by auto
    from card_mono [OF _ this] i show ?thesis by simp
  next
    case 2
    have "ps ! j \<noteq> v" if "i \<le> j" "j < length ps" for j
      using sorted_nth_mono [OF assms(1) that] 2 by auto
    then have "{i..<length ps} \<subseteq> ?bad" by (simp add: subset_iff)
    from card_mono [OF _ this] i show ?thesis by simp
  qed
  with maj show False by (simp add: length_filter_conv_card)
qed

lemma slope_majority:
  assumes maj: "2 * length (filter (\<lambda>p. p \<noteq> v) (pair_slopes rnd ss)) < length (pair_slopes rnd ss)"
    and exact: "rnd (v + v) = v + v" "rnd v = v"
  shows "slope rnd ss = v"
proof -
  define ps where "ps = sort (pair_slopes rnd ss)"
  have len: "length ps = length (pair_slopes rnd ss)" by (simp add: ps_def)
  have "filter (\<lambda>p. p \<noteq> v) ps = sort (filter (\<lambda>p. p \<noteq> v) (pair_slopes rnd ss))"
    by (simp add: ps_def filter_sort)
  then have maj': "2 * length (filter (\<lambda>p. p \<noteq> v) ps) < length ps" using maj len by simp
  then have pos: "0 < length ps" by linarith
  have mid: "ps ! i = v" if "i < length ps" "length ps \<le> 2 * (i + 1)" "length ps \<le> 2 * (length ps - i)" for i
    using majority_nth [of ps i v] that maj' by (simp add: ps_def)
  have "ps ! (length ps div 2) = v" using pos by (intro mid) auto
  moreover have "ps ! (length ps div 2 - 1) = v" if "even (length ps)"
  proof (rule mid)
    from that obtain k where "length ps = 2 * k" by blast
    with pos show "length ps div 2 - 1 < length ps" "length ps \<le> 2 * (length ps div 2 - 1 + 1)"
        "length ps \<le> 2 * (length ps - (length ps div 2 - 1))" by simp_all
  qed
  moreover have "rnd (rnd (v + v) / 2) = v" using exact by simp
  ultimately show ?thesis
    using pos by (simp add: slope_def Let_def flip: ps_def)
qed

section \<open>Counting pairs\<close>

text \<open>Samples of strictly increasing times.\<close>

definition ticking :: "sample list \<Rightarrow> bool" where
  "ticking ss = sorted_wrt (\<lambda>s s'. fst s < fst s') ss"

lemma ticking_Cons: "ticking (s # ss) \<longleftrightarrow> (\<forall>s'\<in>set ss. fst s < fst s') \<and> ticking ss"
  by (simp add: ticking_def)

lemma pair_slopes_length: "ticking ss \<Longrightarrow> 2 * length (pair_slopes rnd ss) + length ss = length ss * length ss"
proof (induction ss)
  case (Cons s ss)
  then have "filter (\<lambda>s1. fst s < fst s1) ss = ss" by (simp add: ticking_Cons)
  with Cons show ?case by (simp add: ticking_Cons)
qed simp

text \<open>Two levels, one after the other: only pairs across the step have a slope other than 0.\<close>

lemma pair_slopes_level:
  assumes "rnd 0 = 0" and "\<forall>s\<in>set ss. snd s = a"
  shows "filter (\<lambda>p. p \<noteq> 0) (pair_slopes rnd ss) = []"
  using assms(2) by (induction ss) (auto simp: pair_slope_def assms(1))

lemma pair_slopes_step:
  assumes "rnd 0 = 0" and "\<forall>s\<in>set as. snd s = a" and "\<forall>s\<in>set bs. snd s = b"
  shows "length (filter (\<lambda>p. p \<noteq> 0) (pair_slopes rnd (as @ bs))) \<le> length as * length bs"
  using assms(2)
proof (induction as)
  case Nil
  with pair_slopes_level [where rnd = rnd, OF assms(1,3)] show ?case by simp
next
  case (Cons s as)
  have flat: "filter (\<lambda>p. p \<noteq> 0) (map (pair_slope rnd s) (filter (\<lambda>s1. fst s < fst s1) as)) = []"
    using Cons.prems assms(1) by (auto simp: pair_slope_def)
  have "length (filter (\<lambda>p. p \<noteq> 0) (map (pair_slope rnd s) (filter (\<lambda>s1. fst s < fst s1) bs))) \<le> length bs"
    by (metis length_filter_le length_map order_trans)
  moreover have "length (filter (\<lambda>p. p \<noteq> 0) (pair_slopes rnd (as @ bs))) \<le> length as * length bs"
    using Cons by simp
  ultimately have "length (filter (\<lambda>p. p \<noteq> 0) (map (pair_slope rnd s) (filter (\<lambda>s1. fst s < fst s1) bs)))
      + length (filter (\<lambda>p. p \<noteq> 0) (pair_slopes rnd (as @ bs))) \<le> length bs + length as * length bs"
    by (rule add_mono)
  with flat show ?case by simp
qed

lemma pair_slopes_line:
  assumes "ticking ss"
    and "\<And>s s'. s \<in> set ss \<Longrightarrow> s' \<in> set ss \<Longrightarrow> fst s < fst s' \<Longrightarrow> pair_slope rnd s s' = v"
  shows "\<forall>p\<in>set (pair_slopes rnd ss). p = v"
  using assms by (induction ss) (auto simp: ticking_Cons)

section \<open>A run that is reported\<close>

lemma span_thread_counts [simp]: "length (filter (\<lambda>st. st = CountSpan) (span_thread t m n)) = m"
  by (induction t m n rule: span_thread.induct) (simp_all add: span_round_def Let_def)

lemma spans_entered_rounds: "spans_entered rounds = of_nat (rounds 0 + rounds 1)"
  by (simp add: spans_entered_def SPAN_THREADS_def numeral_2_eq_2)

definition leak_builder :: "leak_run \<Rightarrow> u64 \<Rightarrow> builder" where
  "leak_builder run port =
     (if lr_env run (lit ''RSS_PROBE_NO_PROFILING'') = Some (lit ''1'') then telemetry_builder (lit ''rss-probe'')
      else with_profiling (sink_url port) (telemetry_builder (lit ''rss-probe'')))"

lemma leak_reads_rss:
  assumes "rss_probe_main rnd run = (verdict, sd)" and "leak_exit_code verdict = 0"
  shows "rss_bytes (lr_rss run) \<noteq> None"
proof
  assume "rss_bytes (lr_rss run) = None"
  with assms show False by (auto simp: rss_probe_main_def Let_def)
qed

lemma leak_ok:
  assumes "rss_probe_main rnd run = (verdict, sd)" and "leak_exit_code verdict = 0"
  shows "1000 \<le> spans_entered (lr_rounds run) \<and> (\<exists>port h. lr_sink run = Inr port \<and> lr_init run (leak_builder run port) = Inr h \<and> sd = Some h
    \<and> (lr_env run (lit ''RSS_PROBE_NO_PROFILING'') \<noteq> Some (lit ''1'') \<longrightarrow> hd_profiling h \<noteq> None))"
proof -
  have "rss_bytes (lr_rss run) \<noteq> None" by (rule leak_reads_rss [OF assms])
  moreover from this assms obtain port where "lr_sink run = Inr port"
    by (cases "lr_sink run") (auto simp: rss_probe_main_def Let_def)
  moreover from this calculation(1) assms obtain h where "lr_init run (leak_builder run port) = Inr h"
    by (cases "lr_init run (leak_builder run port)") (auto simp: rss_probe_main_def leak_builder_def Let_def)
  ultimately show ?thesis using assms
    by (auto simp: rss_probe_main_def leak_verdict_of_def leak_builder_def Let_def not_less split: if_split_asm)
qed

text \<open>The agents of a run are those of the endpoint given to the builder, if any.\<close>

lemma leak_agent:
  assumes "init ft ext env n (leak_builder run port) gl = (gl', eff, Inr h)"
  shows "(lr_env run (lit ''RSS_PROBE_NO_PROFILING'') = Some (lit ''1'') \<longrightarrow> hd_profiling h = None)
    \<and> (\<forall>ph. hd_profiling h = Some ph \<longrightarrow> (\<forall>ag\<in>set (handle_agents ph). ag_endpoint ag = sink_url port))"
proof -
  obtain st where p: "snd (snd (init_profiling ft ext (leak_builder run port) st (gl_profiling_started gl))) = Inr (hd_profiling h)"
    using init_profiling_of_init [OF assms] by blast
  have "ag_endpoint ag = sink_url port" if "hd_profiling h = Some ph" "ag \<in> set (handle_agents ph)" for ph ag
    using p that start_handle [of "xe_prof_features ext" "xe_prof ext" "gl_profiling_started gl" "st_service_name st" "sink_url port"]
    by (auto simp: init_profiling_def leak_builder_def telemetry_builder_def telemetry_from_env_def with_profiling_def
        split: if_splits) (metis prod.collapse)
  moreover have "hd_profiling h = None" if "lr_env run (lit ''RSS_PROBE_NO_PROFILING'') = Some (lit ''1'')"
    using p that
    by (auto simp: init_profiling_def leak_builder_def telemetry_builder_def telemetry_from_env_def split: if_splits)
  ultimately show ?thesis by blast
qed

text \<open>The slope over a step between two levels, along a line, and at a single time.\<close>

lemma slope_step:
  assumes "rnd 0 = 0" "ticking (as @ bs)" "\<forall>s\<in>set as. snd s = a" "\<forall>s\<in>set bs. snd s = b"
    and "4 * (length as * length bs) + length (as @ bs) < length (as @ bs) * length (as @ bs)"
  shows "slope rnd (as @ bs) = 0"
proof (rule slope_majority)
  have "length (filter (\<lambda>p. p \<noteq> 0) (pair_slopes rnd (as @ bs))) \<le> length as * length bs"
    by (rule pair_slopes_step [where rnd = rnd, OF assms(1,3,4)])
  with pair_slopes_length [OF assms(2), of rnd] assms(5)
  show "2 * length (filter (\<lambda>p. p \<noteq> 0) (pair_slopes rnd (as @ bs))) < length (pair_slopes rnd (as @ bs))"
    by linarith
qed (simp_all add: assms(1))

lemma slope_line:
  assumes "ticking ls" "2 \<le> length ls"
    and exact: "\<And>s s'. s \<in> set ls \<Longrightarrow> s' \<in> set ls \<Longrightarrow> fst s < fst s'
        \<Longrightarrow> snd s' - snd s = v * (fst s' - fst s) \<and> rnd (snd s' - snd s) = snd s' - snd s
          \<and> rnd (fst s' - fst s) = fst s' - fst s"
    and v: "rnd v = v" "rnd (v + v) = v + v"
  shows "slope rnd ls = v"
proof (rule slope_majority)
  have "pair_slope rnd s s' = v" if "s \<in> set ls" "s' \<in> set ls" "fst s < fst s'" for s s'
  proof -
    note d = exact [OF that]
    then have "rnd (snd s' - snd s) / rnd (fst s' - fst s) = v * (fst s' - fst s) / (fst s' - fst s)" by metis
    also have "\<dots> = v" using that(3) by simp
    finally have "rnd (snd s' - snd s) / rnd (fst s' - fst s) = v" .
    then show ?thesis by (simp add: pair_slope_def v(1))
  qed
  then have "\<forall>p\<in>set (pair_slopes rnd ls). p = v" by (intro pair_slopes_line assms(1)) blast
  then have "filter (\<lambda>p. p \<noteq> v) (pair_slopes rnd ls) = []" by (simp add: filter_empty_conv)
  moreover have "length ls < length ls * length ls"
    using assms(2) n_less_m_mult_n [of "length ls" "length ls"] by linarith
  with pair_slopes_length [OF assms(1), of rnd] have "0 < length (pair_slopes rnd ls)" by linarith
  ultimately show "2 * length (filter (\<lambda>p. p \<noteq> v) (pair_slopes rnd ls)) < length (pair_slopes rnd ls)"
    by simp
qed (fact v)+

lemma slope_still: "\<forall>s\<in>set cs. fst s = t \<Longrightarrow> slope rnd cs = 0"
proof -
  assume "\<forall>s\<in>set cs. fst s = t"
  then have "pair_slopes rnd cs = []" by (induction cs) (auto simp: filter_empty_conv)
  then show ?thesis by (simp add: slope_def)
qed

section \<open>Properties\<close>

text \<open>
  C39. The slope tells a leak from a step. On a series of samples at increasing times that stays on
  one level and then on another, with too few pairs across the step to be half of them, it is 0
  whatever the size of the step; on one that grows along a line whose values the floats represent,
  it is the slope of the line; and with fewer than two distinct times it is 0. The hypotheses on
  rounding are that it keeps what needs no rounding.
\<close>

theorem slope_tells_leak_from_step:
  assumes zero: "rnd 0 = 0"
    and step: "ticking (as @ bs)" "\<forall>s\<in>set as. snd s = a" "\<forall>s\<in>set bs. snd s = b"
      "4 * (length as * length bs) + length (as @ bs) < length (as @ bs) * length (as @ bs)"
    and line: "ticking ls" "2 \<le> length ls" "\<And>s s'. s \<in> set ls \<Longrightarrow> s' \<in> set ls \<Longrightarrow> fst s < fst s'
        \<Longrightarrow> snd s' - snd s = v * (fst s' - fst s) \<and> rnd (snd s' - snd s) = snd s' - snd s
          \<and> rnd (fst s' - fst s) = fst s' - fst s"
      "rnd v = v" "rnd (v + v) = v + v"
    and still: "\<forall>s\<in>set cs. fst s = t"
  shows "slope rnd (as @ bs) = 0 \<and> slope rnd ls = v \<and> slope rnd cs = 0"
  using slope_step [where rnd = rnd, OF zero step] slope_line [where rnd = rnd, OF line(1-3) line(4,5)] slope_still [OF still, of rnd] by blast

theorem slope_tells_leak_from_step_witness:
  "slope id ([(0, 32), (1, 32), (2, 32), (3, 32), (4, 32)] @ [(5, 36)]) = 0
   \<and> slope id [(0, 1000), (1, 1050), (2, 1100)] = 50 \<and> slope id [(1, 5), (1, 9)] = 0"
  by (rule slope_tells_leak_from_step [where a = 32 and b = 36 and t = 1]) (auto simp: ticking_def)

text \<open>
  C40. Neither probe passes without having looked. The heap probe exits with 0 exactly when
  sampling was activated and a profile with at least one byte was dumped. The leak probe exits
  with 0 only after a readable RSS, a sink, at least a thousand spans over its threads and, unless
  it is the control run, an agent that profiles it into that sink; the control run starts none;
  and the telemetry it started has been shut down.
\<close>

theorem probes_do_not_pass_unseen:
  assumes "rss_probe_main rnd run = (verdict, sd)" and "leak_exit_code verdict = 0"
    and "\<And>b. lr_init run b = snd (snd (init ft ext env n b gl))"
  shows "(heap_exit_code (heap_probe_main ctl dump) = 0)
      = (activate_jemalloc_sampling ctl = Activated \<and> (\<exists>p. dump = DumpFree (Inr p) \<and> p \<noteq> []))
    \<and> rss_bytes (lr_rss run) \<noteq> None \<and> 1000 \<le> spans_entered (lr_rounds run)
    \<and> (\<exists>port h. lr_sink run = Inr port \<and> sd = Some h
        \<and> (if lr_env run (lit ''RSS_PROBE_NO_PROFILING'') = Some (lit ''1'')
           then lr_init run (telemetry_builder (lit ''rss-probe'')) = Inr h \<and> hd_profiling h = None
           else lr_init run (with_profiling (sink_url port) (telemetry_builder (lit ''rss-probe''))) = Inr h
             \<and> (\<exists>ph. hd_profiling h = Some ph \<and> (\<forall>ag\<in>set (handle_agents ph). ag_endpoint ag = sink_url port))))"
proof (intro conjI)
  show "(heap_exit_code (heap_probe_main ctl dump) = 0)
      = (activate_jemalloc_sampling ctl = Activated \<and> (\<exists>p. dump = DumpFree (Inr p) \<and> p \<noteq> []))"
    by (auto simp: heap_probe_main_def dump_pprof_def split: sampling_activation.split dump_ctl.split sum.split)
  show "rss_bytes (lr_rss run) \<noteq> None"
    by (rule leak_reads_rss [OF assms(1,2)])
  from leak_ok [OF assms(1,2)] show "1000 \<le> spans_entered (lr_rounds run)" by blast
  from leak_ok [OF assms(1,2)] obtain port h where run: "lr_sink run = Inr port"
      "lr_init run (leak_builder run port) = Inr h" "sd = Some h"
      "lr_env run (lit ''RSS_PROBE_NO_PROFILING'') \<noteq> Some (lit ''1'') \<Longrightarrow> hd_profiling h \<noteq> None" by blast
  from run(2) assms(3) obtain gl' eff where "init ft ext env n (leak_builder run port) gl = (gl', eff, Inr h)"
    by (metis prod.collapse)
  from leak_agent [OF this] run
  show "\<exists>port h. lr_sink run = Inr port \<and> sd = Some h
        \<and> (if lr_env run (lit ''RSS_PROBE_NO_PROFILING'') = Some (lit ''1'')
           then lr_init run (telemetry_builder (lit ''rss-probe'')) = Inr h \<and> hd_profiling h = None
           else lr_init run (with_profiling (sink_url port) (telemetry_builder (lit ''rss-probe''))) = Inr h
             \<and> (\<exists>ph. hd_profiling h = Some ph \<and> (\<forall>ag\<in>set (handle_agents ph). ag_endpoint ag = sink_url port)))"
    by (auto simp: leak_builder_def)
qed

text \<open>A control run on a machine whose libraries accept everything.\<close>

definition control_run :: leak_run where
  "control_run = \<lparr>lr_env = (\<lambda>k. if k = lit ''RSS_PROBE_NO_PROFILING'' then Some (lit ''1'') else None),
     lr_rss = ProcStatus (Some (lit ''VmRSS: 9 kB'')), lr_sink = Inr 4040,
     lr_init = (\<lambda>b. snd (snd (init all_features toy_ext (\<lambda>_. None) 0 b toy_globals))),
     lr_readings = [], lr_rounds = (\<lambda>_. 700), lr_elapsed = 180, lr_gunzip = (\<lambda>s. (s, True)), lr_connections = []\<rparr>"

lemma control_run_ok: "leak_exit_code (fst (rss_probe_main id control_run)) = 0"
proof -
  obtain gl' eff h where "init all_features toy_ext (\<lambda>_. None) 0 (telemetry_builder (lit ''rss-probe'')) toy_globals = (gl', eff, Inr h)"
    using toy_init [of "telemetry_builder (lit ''rss-probe'')" "\<lambda>_. None" 0 toy_globals]
    by (auto simp: telemetry_builder_def telemetry_from_env_def)
  moreover have "rss_bytes (ProcStatus (Some (lit ''VmRSS: 9 kB''))) \<noteq> None"
    by (simp add: rss_bytes_def str_lines_def lit_def split_whitespace.simps is_whitespace_def parse_u64_def is_digit_def value_of_def)
  ultimately show ?thesis
    by (simp add: rss_probe_main_def leak_verdict_of_def control_run_def spans_entered_rounds Let_def)
qed

theorem probes_do_not_pass_unseen_witness:
  "heap_exit_code (heap_probe_main (CtlFree True (Inr ())) (DumpFree (Inr [1, 2]))) = 0
   \<and> heap_exit_code (heap_probe_main CtlAbsent (DumpFree (Inr [1, 2]))) \<noteq> 0
   \<and> (\<exists>h. lr_init control_run (telemetry_builder (lit ''rss-probe'')) = Inr h \<and> hd_profiling h = None)"
proof -
  have init: "lr_init control_run b = snd (snd (init all_features toy_ext (\<lambda>_. None) 0 b toy_globals))" for b
    by (simp add: control_run_def)
  have control: "lr_env control_run (lit ''RSS_PROBE_NO_PROFILING'') = Some (lit ''1'')"
    by (simp add: control_run_def)
  note claim = probes_do_not_pass_unseen [OF prod.collapse [symmetric] control_run_ok init]
  from claim [of "CtlFree True (Inr ())" "DumpFree (Inr [1, 2])"] claim [of CtlAbsent "DumpFree (Inr [1, 2])"] control
  show ?thesis by (auto simp: activate_jemalloc_sampling_def)
qed

end
