(* ===== verification/Layers.thy ===== *)
theory Layers
  imports Middleware
begin

text \<open>
  The tower layers of \<open>src/src/axum_middleware.rs\<close> and \<open>src/src/grpc_middleware.rs\<close> and
  their constructors in \<open>src/src/lib.rs\<close>: each wraps an inner service, forwards its readiness
  and clones with it, so that the contract of \<open>swapping_service\<close> holds of the wrapped services
  too and a stack of them is polled down to its innermost service.
\<close>

section \<open>Layers and their services\<close>

datatype 'e readiness = Pending | ReadyOk | ReadyErr 'e

record 's otel_trace_service = ot_inner :: 's
record 's span_enricher_service = se_inner :: 's
record 's grpc_client_trace_service = gc_inner :: 's
record 's grpc_server_trace_service = gs_inner :: 's

datatype otel_trace_layer = OtelTraceLayer
datatype 't span_enricher_layer_of = SpanEnricherLayer
datatype grpc_client_trace_layer = GrpcClientTraceLayer
datatype grpc_server_trace_layer = GrpcServerTraceLayer

definition otel_layer_service :: "otel_trace_layer \<Rightarrow> 's \<Rightarrow> 's otel_trace_service" where
  "otel_layer_service self inner = \<lparr>ot_inner = inner\<rparr>"

definition span_enricher_layer_service :: "'t span_enricher_layer_of \<Rightarrow> 's \<Rightarrow> 's span_enricher_service" where
  "span_enricher_layer_service self inner = \<lparr>se_inner = inner\<rparr>"

definition grpc_client_layer_service :: "grpc_client_trace_layer \<Rightarrow> 's \<Rightarrow> 's grpc_client_trace_service" where
  "grpc_client_layer_service self inner = \<lparr>gc_inner = inner\<rparr>"

definition grpc_server_layer_service :: "grpc_server_trace_layer \<Rightarrow> 's \<Rightarrow> 's grpc_server_trace_service" where
  "grpc_server_layer_service self inner = \<lparr>gs_inner = inner\<rparr>"

definition span_enricher_layer_default :: "'t span_enricher_layer_of" where
  "span_enricher_layer_default = SpanEnricherLayer"

definition span_enricher_layer_clone :: "'t span_enricher_layer_of \<Rightarrow> 't span_enricher_layer_of" where
  "span_enricher_layer_clone self = SpanEnricherLayer"

text \<open>The constructors of the crate root.\<close>

definition axum_layer :: otel_trace_layer where
  "axum_layer = OtelTraceLayer"

definition span_enricher_layer :: "'t span_enricher_layer_of" where
  "span_enricher_layer = span_enricher_layer_default"

definition grpc_client_layer :: grpc_client_trace_layer where
  "grpc_client_layer = GrpcClientTraceLayer"

definition grpc_server_layer :: grpc_server_trace_layer where
  "grpc_server_layer = GrpcServerTraceLayer"

section \<open>Readiness\<close>

definition otel_poll_ready ::
    "('s \<Rightarrow> 's \<times> 'e readiness) \<Rightarrow> 's otel_trace_service \<Rightarrow> 's otel_trace_service \<times> 'e readiness" where
  "otel_poll_ready poll self = (let (i, r) = poll (ot_inner self) in (self\<lparr>ot_inner := i\<rparr>, r))"

definition enricher_poll_ready ::
    "('s \<Rightarrow> 's \<times> 'e readiness) \<Rightarrow> 's span_enricher_service \<Rightarrow> 's span_enricher_service \<times> 'e readiness" where
  "enricher_poll_ready poll self = (let (i, r) = poll (se_inner self) in (self\<lparr>se_inner := i\<rparr>, r))"

definition grpc_client_poll_ready ::
    "('s \<Rightarrow> 's \<times> 'e readiness) \<Rightarrow> 's grpc_client_trace_service \<Rightarrow> 's grpc_client_trace_service \<times> 'e readiness" where
  "grpc_client_poll_ready poll self = (let (i, r) = poll (gc_inner self) in (self\<lparr>gc_inner := i\<rparr>, r))"

definition grpc_server_poll_ready ::
    "('s \<Rightarrow> 's \<times> 'e readiness) \<Rightarrow> 's grpc_server_trace_service \<Rightarrow> 's grpc_server_trace_service \<times> 'e readiness" where
  "grpc_server_poll_ready poll self = (let (i, r) = poll (gs_inner self) in (self\<lparr>gs_inner := i\<rparr>, r))"

section \<open>Calls\<close>

text \<open>
  A call goes to the inner handle and leaves in its place what the call of the service leaves;
  the clone of a service, derived, clones its inner one.
\<close>

definition otel_clone :: "('s \<Rightarrow> 's) \<Rightarrow> 's otel_trace_service \<Rightarrow> 's otel_trace_service" where
  "otel_clone clone self = \<lparr>ot_inner = clone (ot_inner self)\<rparr>"

definition otel_call ::
    "('s \<Rightarrow> request \<Rightarrow> 's \<times> 'o) \<Rightarrow> 's otel_trace_service \<Rightarrow> request \<Rightarrow> 's otel_trace_service \<times> 'o" where
  "otel_call call self req = (let (i, out) = call (ot_inner self) req in (self\<lparr>ot_inner := i\<rparr>, out))"

definition grpc_client_clone :: "('s \<Rightarrow> 's) \<Rightarrow> 's grpc_client_trace_service \<Rightarrow> 's grpc_client_trace_service" where
  "grpc_client_clone clone self = \<lparr>gc_inner = clone (gc_inner self)\<rparr>"

definition grpc_client_service_call ::
    "('s \<Rightarrow> request \<Rightarrow> 's \<times> 'o) \<Rightarrow> 's grpc_client_trace_service \<Rightarrow> request \<Rightarrow> 's grpc_client_trace_service \<times> 'o" where
  "grpc_client_service_call call self req = (let (i, out) = call (gc_inner self) req in (self\<lparr>gc_inner := i\<rparr>, out))"

definition grpc_server_clone :: "('s \<Rightarrow> 's) \<Rightarrow> 's grpc_server_trace_service \<Rightarrow> 's grpc_server_trace_service" where
  "grpc_server_clone clone self = \<lparr>gs_inner = clone (gs_inner self)\<rparr>"

definition grpc_server_service_call ::
    "('s \<Rightarrow> request \<Rightarrow> 's \<times> 'o) \<Rightarrow> 's grpc_server_trace_service \<Rightarrow> request \<Rightarrow> 's grpc_server_trace_service \<times> 'o" where
  "grpc_server_service_call call self req = (let (i, out) = call (gs_inner self) req in (self\<lparr>gs_inner := i\<rparr>, out))"

section \<open>Facts\<close>

text \<open>The wrapped services keep the contract of their calls.\<close>

interpretation http_service: swapping_service "otel_clone clone" "otel_call (http_call pg start reason ambient clone fire)"
    "\<lambda>sv. otel_layer_service axum_layer (sv_fired sv)"
  for clone pg start reason ambient fire
  by unfold_locales
     (simp_all add: otel_call_def otel_clone_def otel_layer_service_def case_prod_beta http.keeps_clone http.fires_held)

interpretation grpc_server_service: swapping_service "grpc_server_clone clone"
    "grpc_server_service_call (grpc_server_call pg start reason ambient clone fire)" "\<lambda>sv. grpc_server_layer_service grpc_server_layer (sv_fired sv)"
  for clone pg start reason ambient fire
  by unfold_locales
     (simp_all add: grpc_server_service_call_def grpc_server_clone_def grpc_server_layer_service_def case_prod_beta
        grpc_server.keeps_clone grpc_server.fires_held)

interpretation grpc_client_service: swapping_service "grpc_client_clone clone"
    "grpc_client_service_call (grpc_client_call pg start current clone fire)" "\<lambda>out. grpc_client_layer_service grpc_client_layer (fst out)"
  for clone pg start current fire
  by unfold_locales
     (simp_all add: grpc_client_service_call_def grpc_client_clone_def grpc_client_layer_service_def case_prod_beta
        grpc_client.keeps_clone grpc_client.fires_held)

definition says_ready :: "('s \<Rightarrow> 's \<times> 'e readiness) \<Rightarrow> 's \<Rightarrow> 's \<times> bool" where
  "says_ready poll s = (let (s, r) = poll s in (s, case r of ReadyOk \<Rightarrow> True | _ \<Rightarrow> False))"

text \<open>What a poll makes ready inside, a poll of the layer makes ready there too.\<close>

lemma readiness_forwarded:
  assumes "\<And>s. snd (says_ready poll s) \<Longrightarrow> is_ready (fst (says_ready poll s))"
  shows "snd (says_ready (otel_poll_ready poll) a) \<Longrightarrow> is_ready (ot_inner (fst (says_ready (otel_poll_ready poll) a)))"
    and "snd (says_ready (enricher_poll_ready poll) b) \<Longrightarrow> is_ready (se_inner (fst (says_ready (enricher_poll_ready poll) b)))"
    and "snd (says_ready (grpc_client_poll_ready poll) c) \<Longrightarrow> is_ready (gc_inner (fst (says_ready (grpc_client_poll_ready poll) c)))"
    and "snd (says_ready (grpc_server_poll_ready poll) d) \<Longrightarrow> is_ready (gs_inner (fst (says_ready (grpc_server_poll_ready poll) d)))"
  using assms [of "ot_inner a"] assms [of "se_inner b"] assms [of "gc_inner c"] assms [of "gs_inner d"]
  by (simp_all add: says_ready_def otel_poll_ready_def enricher_poll_ready_def grpc_client_poll_ready_def
      grpc_server_poll_ready_def case_prod_beta)

text \<open>
  The documented stack: the HTTP service over the span enricher over a service. A caller that polls
  the stack to readiness before each call makes it fire on enrichers whose service is ready.
\<close>

lemma stack_fires_ready:
  assumes "\<And>s. snd (says_ready poll s) \<Longrightarrow> is_ready (fst (says_ready poll s))"
    and "polls_before_calls (says_ready (otel_poll_ready (enricher_poll_ready poll)))
        (otel_call (http_call pg start reason ambient clone fire)) False stack ops"
    and "h \<in> set (fired (says_ready (otel_poll_ready (enricher_poll_ready poll)))
        (otel_call (http_call pg start reason ambient clone fire)) (\<lambda>sv. otel_layer_service axum_layer (sv_fired sv)) stack ops)"
  shows "is_ready (se_inner (ot_inner h))"
proof -
  have "is_ready (se_inner (ot_inner (fst (says_ready (otel_poll_ready (enricher_poll_ready poll)) a))))"
    if "snd (says_ready (otel_poll_ready (enricher_poll_ready poll)) a)" for a
    using readiness_forwarded(1) [where poll = "enricher_poll_ready poll" and is_ready = "\<lambda>b. is_ready (se_inner b)",
        OF readiness_forwarded(2) [where is_ready = is_ready, OF assms(1)] that] .
  from http_service.fired_ready [where is_ready = "\<lambda>a. is_ready (se_inner (ot_inner a))", OF this assms(2)] assms(3)
  show ?thesis by simp
qed

end
