(* ===== verification/BootTests.thy ===== *)
theory BootTests
  imports BootGlobal ProcessAge
begin

text \<open>
  The unit tests of \<open>src/src/boot.rs\<close>, each as what it asserts of the model, under its own
  name; the clocks and the environment a test happens to run under are its arguments, and each is
  shown to pass whatever they are, or under the assumption on them that the test's comment makes.
\<close>

section \<open>What the tests use\<close>

text \<open>A fresh timeline, one thread, and what its \<open>echo\<close> was given.\<close>

definition capturing :: "instant \<Rightarrow> instant \<Rightarrow> systime \<Rightarrow> systime \<Rightarrow> config" where
  "capturing now now' wall1 wall2 = init_config (timeline_new now now' wall1 wall2)"

definition captured_lines :: "config \<Rightarrow> rstring list" where
  "captured_lines c = stderr_lines (cf_out c)"

definition config_record :: "rstring \<Rightarrow> config recorder" where
  "config_record dflt c name start now o' = seq_call dflt c (RecordCall name start now o')"

definition ends_with :: "rstring \<Rightarrow> rstring \<Rightarrow> bool" where
  "ends_with s p \<longleftrightarrow> length p \<le> length s \<and> drop (length s - length p) s = p"

definition names_outcomes :: "config \<Rightarrow> (rstring \<times> outcome) list" where
  "names_outcomes c = map (\<lambda>ph. (ph_name ph, ph_outcome ph)) (phases (cf_tl c))"

section \<open>The tests\<close>

definition each_completed_phase_is_one_logfmt_line_on_stderr :: "rstring \<Rightarrow> config \<Rightarrow> bool" where
  "each_completed_phase_is_one_logfmt_line_on_stderr dflt c \<longleftrightarrow>
     (let c = seq_call dflt c (SetName (lit ''orders''));
          start = tl_origin (cf_tl c);
          c = config_record dflt c (lit ''config-fetch'') (start + int (from_millis 200)) (start + int (from_millis 1012)) Ok
      in captured_lines c = [lit ''boot phase=config-fetch outcome=ok took_ms=812 at_ms=1012 service=orders''])"

definition ready_writes_the_whole_boot_once :: "rstring \<Rightarrow> instant \<Rightarrow> instant \<Rightarrow> config \<Rightarrow> bool" where
  "ready_writes_the_whole_boot_once dflt end1 end2 c \<longleftrightarrow>
     (let c = seq_call dflt (seq_call dflt (seq_call dflt c (SetName (lit ''orders''))) (ReadyCall end1)) (ReadyCall end2)
      in length (captured_lines c) = 1
         \<and> (let rdy = hd (captured_lines c) in
            starts_with rdy (lit ''boot phase=ready outcome=ok took_ms='')
            \<and> contains rdy (lit '' origin=first_use service='') \<and> ends_with rdy (lit '' service=orders'')))"

definition values_that_would_not_parse_back_are_quoted :: bool where
  "values_that_would_not_parse_back_are_quoted \<longleftrightarrow>
     line (lit ''load '' @ 34 # lit ''cache'' @ [34]) Failed (from_millis 5) (from_millis 9)
         (lit ''a=b'' @ 92 # lit ''c'' @ 10 # lit ''d'' @ [1])
       = lit ''boot phase='' @ 34 # lit ''load '' @ 92 # 34 # lit ''cache'' @ 92 # 34 # 34 # lit '' outcome=failed took_ms=5 at_ms=9 service=''
         @ 34 # lit ''a=b'' @ 92 # 92 # lit ''c'' @ 92 # lit ''nd'' @ 92 # lit ''u{1}'' @ [34]
     \<and> line [] Ok 0 0 (lit ''svc'') = lit ''boot phase='' @ 34 # 34 # lit '' outcome=ok took_ms=0 at_ms=0 service=svc''"

text \<open>\<open>t\<close> gives the readings of the clock in their order.\<close>

definition an_unfinished_guard_records_a_failure :: "rstring \<Rightarrow> (nat \<Rightarrow> instant) \<Rightarrow> config \<Rightarrow> bool" where
  "an_unfinished_guard_records_a_failure dflt t c \<longleftrightarrow>
     (let c = guard_drop (config_record dflt) c (phase_guard (lit ''dropped'') (t 0)) (t 1);
          c = guard_fail (config_record dflt) c (phase_guard (lit ''failed'') (t 2)) (t 3) (t 4);
          c = guard_finish (config_record dflt) c (phase_guard (lit ''finished'') (t 5)) (t 6) (t 7)
      in names_outcomes c = [(lit ''dropped'', Failed), (lit ''failed'', Failed), (lit ''finished'', Ok)])"

definition futures_are_timed_and_errors_and_cancellation_fail_the_phase ::
    "rstring \<Rightarrow> (nat \<Rightarrow> instant) \<Rightarrow> config \<Rightarrow> bool" where
  "futures_are_timed_and_errors_and_cancellation_fail_the_phase dflt t c \<longleftrightarrow>
     (let rec = config_record dflt;
          (c, slept) = time rec c (lit ''sleep'') (t 0) (\<lambda>c. (c, Completed ())) (t 1) (t 2);
          (c, ok) = try_time rec c (lit ''ok'') (t 3) (\<lambda>c. (c, Completed (Inr 1))) (t 4) (t 5);
          (c, err) = try_time rec c (lit ''err'') (t 6) (\<lambda>c. (c, Completed (Inl (lit ''no'')))) (t 7) (t 8);
          (c, cancelled) = time rec c (lit ''cancelled'') (t 9) (\<lambda>c. (c, Abandoned :: unit run)) (t 10) (t 11);
          phs = phases (cf_tl c)
      in ok = Completed (Inr (1 :: nat) :: rstring + nat) \<and> err = Completed (Inl (lit ''no'') :: rstring + nat)
         \<and> names_outcomes c = [(lit ''sleep'', Ok), (lit ''ok'', Ok), (lit ''err'', Failed), (lit ''cancelled'', Failed)]
         \<and> from_millis 20 \<le> ph_took (phs ! 0)
         \<and> ph_end (phs ! 0) - ph_start (phs ! 0) = int (ph_took (phs ! 0))
         \<and> ph_at (phs ! 0) \<le> ph_at (phs ! 1))"

definition without_telemetry_phases_are_echoed_and_buffered_up_to_the_bound ::
    "rstring \<Rightarrow> (nat \<Rightarrow> instant) \<Rightarrow> config \<Rightarrow> bool" where
  "without_telemetry_phases_are_echoed_and_buffered_up_to_the_bound dflt t c \<longleftrightarrow>
     (let c = foldl (\<lambda>c i. guard_finish (config_record dflt) c (phase_guard (lit ''step'') (t (3 * i))) (t (3 * i + 1)) (t (3 * i + 2)))
                c [0..<MAX_PHASES + 3];
          st = tl_state (cf_tl c)
      in length (phases (cf_tl c)) = MAX_PHASES \<and> length (captured_lines c) = MAX_PHASES + 3
         \<and> bs_dropped st = 3 \<and> bs_exporter st = None \<and> list_all (\<lambda>r. \<not> rec_exported r) (bs_phases st))"

definition close_without_a_provider_does_nothing :: "instant \<Rightarrow> config \<Rightarrow> bool" where
  "close_without_a_provider_does_nothing now c \<longleftrightarrow> \<not> bs_root_ended (tl_state (fst (close (cf_tl c) now)))"

definition the_service_falls_back_to_a_derived_name ::
    "rstring option \<Rightarrow> rstring option \<Rightarrow> (nat \<Rightarrow> instant) \<Rightarrow> config \<Rightarrow> bool" where
  "the_service_falls_back_to_a_derived_name env_name exe_stem t c \<longleftrightarrow>
     (let dflt = default_service_name env_name exe_stem;
          c = guard_finish (config_record dflt) c (phase_guard (lit ''step'') (t 0)) (t 1) (t 2)
      in ends_with (hd (captured_lines c)) (lit '' service='' @ dflt) \<and> dflt \<noteq> [])"

definition the_global_timeline_starts_no_later_than_its_first_use :: "instant \<Rightarrow> reading \<Rightarrow> reading \<Rightarrow> process \<Rightarrow> bool" where
  "the_global_timeline_starts_no_later_than_its_first_use before rd rd' p \<longleftrightarrow>
     (let p1 = Timeline_global rd p; tm = cf_tl (the (pr_boot p1))
      in (tl_origin tm \<le> before + int (from_millis 20) \<or> rd_age rd = None)
         \<and> tl_source tm = [FirstUse, ProcessStart] ! (if rd_age rd \<noteq> None then 1 else 0)
         \<and> Timeline_global rd' p1 = p1)"

definition process_age_reads_start_ticks_after_the_command_name :: bool where
  "process_age_reads_start_ticks_after_the_command_name \<longleftrightarrow>
     (let stat = lit ''42 (my (odd) cmd) S 1 42 42 0 -1 4194560 100 0 0 0 1 2 0 0 20 0 1 0 1000 1000 10 0''
      in process_age_from stat (lit ''15.50 30.00'' @ [10]) = Some (from_millis 5500)
         \<and> process_age_from stat (lit ''5.00 1.00'' @ [10]) = None
         \<and> process_age_from (lit ''garbage'') (lit ''1.0 1.0'') = None
         \<and> process_age_from stat (lit ''-1.0 1.0'') = None
         \<and> process_age_from stat [] = None)"

section \<open>They pass\<close>

lemma capturing_sel:
  "quiet (capturing now now' w1 w2)" "captured_lines (capturing now now' w1 w2) = []"
  "cf_tl (capturing now now' w1 w2) = timeline_new now now' w1 w2" "boot_reach dflt (capturing now now' w1 w2)"
  "tl_state (timeline_new now now' w1 w2) = bstate_default" "tl_source (timeline_new now now' w1 w2) = FirstUse"
  "tl_origin (timeline_new now now' w1 w2) = now" "cf_before (capturing now now' w1 w2) = []"
  "cf_after (capturing now now' w1 w2) = []"
  by (simp_all add: capturing_def quiet_def captured_lines_def init_config_def timeline_new_def starting_at_def
      boot_reach.start [unfolded init_config_def])

lemma captured_seq: "quiet c \<Longrightarrow> captured_lines (seq_call dflt c k) = captured_lines c @ stderr_lines (call_effects dflt c k)"
  unfolding quiet_def by (simp add: captured_lines_def seq_call_def drain_def call_effects_def del: concat_eq_Nil_conv)

lemma effects_unattached:
  assumes "bs_exporter (cf_state c) = None"
  shows "call_effects dflt c (RecordCall n s e o') =
      [Stderr (line n o' (saturating_duration_since e s) (saturating_duration_since e (tl_origin (cf_tl c)))
         (service_label dflt (cf_state c)))]"
    and "bs_ready (cf_state c) = None \<Longrightarrow> call_effects dflt c (ReadyCall e) =
      [Stderr (ready_line (saturating_duration_since e (tl_origin (cf_tl c))) (tl_source (cf_tl c))
         (service_label dflt (cf_state c)))]"
    and "bs_ready (cf_state c) \<noteq> None \<Longrightarrow> call_effects dflt c (ReadyCall e) = []"
  using assms
  by (simp_all add: call_eff_simps cf_state_def record_phase_def ready_def mk_phase_def service_label_def
      take_root_to_end_def Let_def split: option.split)

lemma dec_small: "dec 812 = lit ''812''" "dec 1012 = lit ''1012''" "dec 5 = lit ''5''" "dec 9 = lit ''9''" "dec 0 = lit ''0''"
  by (simp_all add: dec_def digits.simps lit_def)

lemmas line_eval = line_def push_value_def push_char_def bare_def is_whitespace_def is_control_def outcome_str_def
  millis_def as_millis_def from_millis_def dec_small hex_def hex_digit_def digits.simps lit_def Let_def

lemma pass_1: "each_completed_phase_is_one_logfmt_line_on_stderr dflt (capturing now now' w1 w2)"
proof -
  define c where "c = seq_call dflt (capturing now now' w1 w2) (SetName (lit ''orders''))"
  have c: "quiet c" "captured_lines c = []" "bs_exporter (cf_state c) = None" "service_label dflt (cf_state c) = lit ''orders''"
    by (simp_all add: c_def quiet_seq captured_seq capturing_sel call_set_effects cf_state_def set_service_name_def
        bstate_default_def service_label_def)
  have "line (lit ''config-fetch'') Ok (from_millis 812) (from_millis 1012) (lit ''orders'')
      = lit ''boot phase=config-fetch outcome=ok took_ms=812 at_ms=1012 service=orders''"
    by (simp add: line_eval)
  moreover have "nat (int (from_millis 1012) - int (from_millis 200)) = from_millis 812" by (simp add: from_millis_def)
  ultimately show ?thesis
    unfolding each_completed_phase_is_one_logfmt_line_on_stderr_def c_def [symmetric] config_record_def Let_def
    by (simp add: captured_seq c effects_unattached saturating_duration_since_def)
qed

lemma ends_with_append: "ends_with (a @ p) p"
  by (simp add: ends_with_def)

lemma pass_2: "ready_writes_the_whole_boot_once dflt end1 end2 (capturing now now' w1 w2)"
proof -
  define c where "c = seq_call dflt (capturing now now' w1 w2) (SetName (lit ''orders''))"
  have c: "quiet c" "captured_lines c = []" "bs_exporter (cf_state c) = None" "service_label dflt (cf_state c) = lit ''orders''"
    "bs_ready (cf_state c) = None" "tl_source (cf_tl c) = FirstUse"
    by (simp_all add: c_def quiet_seq captured_seq capturing_sel call_set_effects cf_state_def set_service_name_def
        bstate_default_def service_label_def)
  define ms where "ms = dec (unat (millis (saturating_duration_since end1 (tl_origin (cf_tl c)))))"
  have rdy: "ready_line (saturating_duration_since end1 (tl_origin (cf_tl c))) FirstUse (lit ''orders'')
      = lit ''boot phase=ready outcome=ok took_ms='' @ ms @ lit '' at_ms='' @ ms @ lit '' origin=first_use service='' @ lit ''orders''"
    by (simp add: ready_line_def ms_def READY_def origin_str_def push_value_def bare_def is_whitespace_def is_control_def
        lit_def Let_def)
  have once: "captured_lines (seq_call dflt (seq_call dflt c (ReadyCall end1)) (ReadyCall end2))
      = [ready_line (saturating_duration_since end1 (tl_origin (cf_tl c))) FirstUse (lit ''orders'')]"
    using c by (simp add: captured_seq quiet_seq effects_unattached(2) effects_unattached(3) [of "seq_call dflt c (ReadyCall end1)"]
        cf_state_def ready_fst take_root_fst ends_root_def)
  show ?thesis
    unfolding ready_writes_the_whole_boot_once_def c_def [symmetric] Let_def once rdy
    using contains_append [of "lit ''boot phase=ready outcome=ok took_ms='' @ ms @ lit '' at_ms='' @ ms" "lit '' origin=first_use service=''" "lit ''orders''"]
      ends_with_append [of "lit ''boot phase=ready outcome=ok took_ms='' @ ms @ lit '' at_ms='' @ ms @ lit '' origin=first_use''" "lit '' service=orders''"]
    by (simp add: lit_def)
qed

lemma pass_3: values_that_would_not_parse_back_are_quoted
  unfolding values_that_would_not_parse_back_are_quoted_def by (intro conjI; simp add: line_eval)


lemma guards_record:
  "guard_finish rec s (phase_guard n start) now now' = rec s n start now Ok"
  "guard_fail rec s (phase_guard n start) now now' = rec s n start now Failed"
  "guard_drop rec s (phase_guard n start) now = rec s n start now Failed"
  by (simp_all add: guard_finish_def guard_fail_def guard_drop_def guard_end_def phase_guard_def)

lemma timed_record:
  "time rec s n start (\<lambda>c. (c, Completed a)) now now' = (rec s n start now Ok, Completed a)"
  "time rec s n start (\<lambda>c. (c, Abandoned)) now now' = (rec s n start now Failed, Abandoned)"
  "try_time rec s n start (\<lambda>c. (c, Completed (Inr b))) now now' = (rec s n start now Ok, Completed (Inr b))"
  "try_time rec s n start (\<lambda>c. (c, Completed (Inl e))) now now' = (rec s n start now Failed, Completed (Inl e))"
  by (simp_all add: time_def try_time_def guards_record)

lemma phases_record:
  "length (phases (cf_tl c)) < MAX_PHASES \<Longrightarrow>
     phases (cf_tl (config_record dflt c n s e o')) = phases (cf_tl c) @ [mk_phase (cf_tl c) n s e o']"
  by (simp add: config_record_def record_phase_fst phases_def)

lemma origin_record [simp]:
  "tl_origin (cf_tl (config_record dflt c n s e o')) = tl_origin (cf_tl c)"
  "tl_wall (cf_tl (config_record dflt c n s e o')) = tl_wall (cf_tl c)"
  by (simp_all add: config_record_def record_phase_fst)

lemma no_phases: "phases (timeline_new now now' w1 w2) = []"
  by (simp add: phases_def capturing_sel bstate_default_def)

lemma pass_4: "an_unfinished_guard_records_a_failure dflt t (capturing now now' w1 w2)"
  by (simp add: an_unfinished_guard_records_a_failure_def guards_record names_outcomes_def phases_record no_phases
      capturing_sel MAX_PHASES_def mk_phase_def)

text \<open>The sleep takes its time, and the clock does not go back.\<close>

lemma pass_5:
  assumes "now \<le> t 0" and "t 0 + int (from_millis 20) \<le> t 1" and "t 1 \<le> t 4"
  shows "futures_are_timed_and_errors_and_cancellation_fail_the_phase dflt t (capturing now now' w1 w2)"
proof -
  have "from_millis 20 = 20000000" by (simp add: from_millis_def)
  with assms show ?thesis
    by (simp add: futures_are_timed_and_errors_and_cancellation_fail_the_phase_def timed_record names_outcomes_def
        phases_record no_phases capturing_sel MAX_PHASES_def mk_phase_def wall_def saturating_duration_since_def)
       arith
qed

lemma recorded_unattached:
  assumes "quiet c" and "bs_exporter (tl_state (cf_tl c)) = None"
  shows "quiet (config_record dflt c n s e o')" "bs_exporter (tl_state (cf_tl (config_record dflt c n s e o'))) = None"
    "length (captured_lines (config_record dflt c n s e o')) = Suc (length (captured_lines c))"
  using assms
  by (simp_all add: config_record_def quiet_seq record_phase_fst captured_seq effects_unattached(1) cf_state_def)

lemma buffered_steps:
  "let c = foldl (\<lambda>c i. config_record dflt c n (s i) (e i) Ok) (capturing now now' w1 w2) [0..<m]; st = tl_state (cf_tl c)
   in quiet c \<and> bs_exporter st = None \<and> length (captured_lines c) = m \<and> length (bs_phases st) = min m MAX_PHASES
      \<and> bs_dropped st = of_nat (m - MAX_PHASES) \<and> list_all (\<lambda>r. \<not> rec_exported r) (bs_phases st)"
proof (induction m)
  case 0
  show ?case by (simp add: capturing_sel bstate_default_def)
next
  case (Suc m)
  define c where "c = foldl (\<lambda>c i. config_record dflt c n (s i) (e i) Ok) (capturing now now' w1 w2) [0..<m]"
  have IH: "quiet c" "bs_exporter (tl_state (cf_tl c)) = None" "length (captured_lines c) = m"
    "length (bs_phases (tl_state (cf_tl c))) = min m MAX_PHASES"
    "bs_dropped (tl_state (cf_tl c)) = of_nat (m - MAX_PHASES)"
    "list_all (\<lambda>r. \<not> rec_exported r) (bs_phases (tl_state (cf_tl c)))"
    using Suc by (simp_all add: c_def Let_def)
  have "quiet (config_record dflt c n (s m) (e m) Ok)"
    "bs_exporter (tl_state (cf_tl (config_record dflt c n (s m) (e m) Ok))) = None"
    "length (captured_lines (config_record dflt c n (s m) (e m) Ok)) = Suc m"
    using recorded_unattached [OF IH(1,2)] IH(3) by simp_all
  moreover have "length (bs_phases (tl_state (cf_tl (config_record dflt c n (s m) (e m) Ok)))) = min (Suc m) MAX_PHASES"
    "bs_dropped (tl_state (cf_tl (config_record dflt c n (s m) (e m) Ok))) = of_nat (Suc m - MAX_PHASES)"
    "list_all (\<lambda>r. \<not> rec_exported r) (bs_phases (tl_state (cf_tl (config_record dflt c n (s m) (e m) Ok))))"
    using IH by (auto simp: config_record_def record_phase_fst Suc_diff_le not_less)
  ultimately show ?case by (simp add: c_def Let_def)
qed

lemma pass_6: "without_telemetry_phases_are_echoed_and_buffered_up_to_the_bound dflt t (capturing now now' w1 w2)"
  using buffered_steps [of dflt "lit ''step''" "\<lambda>i. t (3 * i)" "\<lambda>i. t (3 * i + 1)" now now' w1 w2 "MAX_PHASES + 3"]
  by (simp add: without_telemetry_phases_are_echoed_and_buffered_up_to_the_bound_def guards_record phases_def Let_def)

lemma pass_7: "close_without_a_provider_does_nothing end (capturing now now' w1 w2)"
  by (simp add: close_without_a_provider_does_nothing_def close_fst take_root_fst ends_root_def capturing_sel
      bstate_default_def)

text \<open>The name the test runs under needs no quotes.\<close>

lemma pass_8:
  assumes "bare (default_service_name env_name exe_stem)"
  shows "the_service_falls_back_to_a_derived_name env_name exe_stem t (capturing now now' w1 w2)"
proof -
  have "captured_lines (config_record dflt (capturing now now' w1 w2) (lit ''step'') (t 0) (t 1) Ok)
      = [line (lit ''step'') Ok (saturating_duration_since (t 1) (t 0)) (saturating_duration_since (t 1) now) dflt]" for dflt
    by (simp add: config_record_def captured_seq capturing_sel effects_unattached cf_state_def bstate_default_def service_label_def)
  moreover have "ends_with (line n o' took at dflt) (lit '' service='' @ dflt)" if "bare dflt" for n o' took at dflt
    using that by (simp add: line_def Let_def push_value_def ends_with_def)
  ultimately show ?thesis
    using assms
    by (simp add: the_service_falls_back_to_a_derived_name_def guards_record Let_def) (simp add: bare_def)
qed

text \<open>The age is read to one resolution, and the process started within the range of the clock.\<close>

lemma pass_9:
  assumes "\<forall>age. rd_age rd = Some age \<longrightarrow> rd_now rd - int age \<le> before + int (from_millis 20) \<and> clock_min \<le> rd_now rd - int age"
  shows "the_global_timeline_starts_no_later_than_its_first_use before rd rd' process_start"
  using assms
  by (cases "rd_age rd")
     (simp_all add: the_global_timeline_starts_no_later_than_its_first_use_def Timeline_global_def process_start_def
        timeline_from_def global_init_def starting_at_def init_config_def clock_checked_sub_def)


text \<open>The lines of the last test, as the kernel writes them.\<close>

definition test_fields :: "rstring list" where
  "test_fields = map lit [''S'', ''1'', ''42'', ''42'', ''0'', ''-1'', ''4194560'', ''100'', ''0'', ''0'', ''0'', ''1'', ''2'', ''0'', ''0'',
     ''20'', ''0'', ''1'', ''0'', ''1000'', ''1000'', ''10'', ''0'']"

lemma test_stat:
  "lit ''42 (my (odd) cmd) S 1 42 42 0 -1 4194560 100 0 0 0 1 2 0 0 20 0 1 0 1000 1000 10 0''
     = stat_line (lit ''42'') (lit ''my (odd) cmd'') test_fields []"
  by (simp add: stat_line_def test_fields_def lit_def)

lemma test_uptimes:
  "lit ''15.50 30.00'' @ [10] = uptime_line 15 5 0 (lit ''30.00'' @ [10])"
  "lit ''5.00 1.00'' @ [10] = uptime_line 5 0 0 (lit ''1.00'' @ [10])"
  by (simp_all add: uptime_line_def uptime_secs_def dec_def digits.simps lit_def)

lemma test_age:
  "a < 10 \<Longrightarrow> b < 10 \<Longrightarrow> s < 2 ^ 23 \<Longrightarrow>
     process_age_from (stat_line pid comm test_fields []) (uptime_line s a b idle) = age_spec 1000 s a b"
proof (rule process_age_files)
  show "\<forall>w\<in>set test_fields. word_ok w \<and> 41 \<notin> set w"
    by (simp add: test_fields_def word_ok_def is_whitespace_def lit_def)
  show "19 < length test_fields" "test_fields ! 19 = dec 1000"
    by (simp_all add: test_fields_def dec_def digits.simps lit_def)
qed simp_all

lemma test_negative: "process_age_from s (lit ''-1.0 1.0'') = None"
proof -
  have "split_whitespace (lit ''-1.0 1.0'') = lit ''-1.0'' # split_whitespace (lit ''1.0'')"
    using split_whitespace_word_sep [of "lit ''-1.0''" 32 "lit ''1.0''"] by (simp add: word_ok_def is_whitespace_def lit_def)
  moreover have "parse_f64 (lit ''-1.0'') = Some (round_f64 True 10 10)"
    by (simp add: parse_f64_def lower_def is_digit_def read_exp_def dec_value_of_def value_of_def lit_def)
  moreover have "flog2 (Suc 0) = 0" by (subst flog2.simps) simp
  then have "round_f64 True 10 10 = Fin True (2 ^ 52) (- 52)"
    by (simp add: round_f64_def binade_def round_div_def)
  ultimately show ?thesis
    by (auto simp: process_age_from_def dur_try_from_secs_f64_def split: option.split)
qed

lemma pass_10: process_age_reads_start_ticks_after_the_command_name
proof -
  have "rsplit_once 41 (lit ''garbage'') = None" by (simp add: rsplit_once_None lit_def)
  then have "process_age_from (lit ''garbage'') u = None" for u by (simp add: process_age_from_def)
  moreover have "process_age_from s [] = None" for s
    by (simp add: process_age_from_def split: option.split)
  ultimately show ?thesis
    unfolding process_age_reads_start_ticks_after_the_command_name_def Let_def test_stat test_uptimes
    by (simp add: test_age test_negative age_spec_def from_millis_def)
qed

end
