(* ===== verification/ConfigTests.thy ===== *)
theory ConfigTests
  imports HandleProps
begin

text \<open>
  The unit tests of \<open>src/src/lib.rs\<close>, each as what it asserts of the model, under its own name:
  configuration here, initialisation and handles below. What a test finds in its surroundings (the
  environment but for the variables it sets, the host, the features) is its argument, and it passes
  whatever that is. Left out are the tests of the SDK's tracer and of \<open>Send\<close> and \<open>Sync\<close>.
\<close>

section \<open>Configuration\<close>

definition runtime_metrics_can_be_disabled :: bool where
  "runtime_metrics_can_be_disabled \<longleftrightarrow>
     bd_runtime_metrics (telemetry_builder (lit ''rm-default''))
     \<and> \<not> bd_runtime_metrics (with_runtime_metrics False (telemetry_builder (lit ''rm-off'')))"

definition resource_contains_all_attributes_when_provided :: "rstring option \<Rightarrow> int \<Rightarrow> bool" where
  "resource_contains_all_attributes_when_provided hostname pid \<longleftrightarrow>
     (let r = build_resource hostname pid (lit ''test-svc'') (Some (lit ''1.2.3'')) (Some (lit ''staging'')) in
      map_of r (lit ''service.name'') = Some (RStr (lit ''test-svc'')) \<and> map_of r (lit ''service.version'') = Some (RStr (lit ''1.2.3''))
      \<and> map_of r (lit ''deployment.environment.name'') = Some (RStr (lit ''staging''))
      \<and> map_of r (lit ''host.name'') \<noteq> None \<and> map_of r (lit ''process.pid'') \<noteq> None)"

definition resource_carries_the_service_namespace_only_when_set :: "rstring option \<Rightarrow> int \<Rightarrow> bool" where
  "resource_carries_the_service_namespace_only_when_set hostname pid \<longleftrightarrow>
     map_of (build_resource_in hostname pid (lit ''svc'') (Some (lit ''is.brefwiz.internal'')) None None) (lit ''service.namespace'')
       = Some (RStr (lit ''is.brefwiz.internal''))
     \<and> map_of (build_resource hostname pid (lit ''svc'') None None) (lit ''service.namespace'') = None"

definition builder_namespace_is_absent_unless_non_empty :: bool where
  "builder_namespace_is_absent_unless_non_empty \<longleftrightarrow>
     bd_service_namespace (with_service_namespace (lit ''realm.example'') (telemetry_builder (lit ''svc''))) = Some (lit ''realm.example'')
     \<and> bd_service_namespace (with_service_namespace [] (telemetry_builder (lit ''svc''))) = None
     \<and> bd_service_namespace (telemetry_builder (lit ''svc'')) = None"

definition resource_graceful_when_optional_values_omitted :: "rstring option \<Rightarrow> int \<Rightarrow> bool" where
  "resource_graceful_when_optional_values_omitted hostname pid \<longleftrightarrow>
     (let r = build_resource hostname pid (lit ''test-svc'') None None in
      map_of r (lit ''service.name'') = Some (RStr (lit ''test-svc'')) \<and> map_of r (lit ''service.version'') = None
      \<and> map_of r (lit ''deployment.environment.name'') = None
      \<and> map_of r (lit ''host.name'') \<noteq> None \<and> map_of r (lit ''process.pid'') \<noteq> None)"

definition trace_sampler_ratio_converts_to_sdk :: bool where
  "trace_sampler_ratio_converts_to_sdk \<longleftrightarrow>
     into_sdk_sampler (TraceIdRatio (round_f64 False 5 10)) = SdkTraceIdRatioBased (round_f64 False 5 10)"

definition trace_sampler_parent_based_converts_to_sdk :: bool where
  "trace_sampler_parent_based_converts_to_sdk \<longleftrightarrow>
     into_sdk_sampler (ParentBased (TraceIdRatio (round_f64 False 25 100)))
       = SdkParentBased (SdkTraceIdRatioBased (round_f64 False 25 100))"

definition sampler_from_env_reads_traceidratio :: "env_vars \<Rightarrow> bool" where
  "sampler_from_env_reads_traceidratio env \<longleftrightarrow>
     sampler_from_env (env(lit ''OTEL_TRACES_SAMPLER'' \<mapsto> lit ''traceidratio'', lit ''OTEL_TRACES_SAMPLER_ARG'' \<mapsto> lit ''0.42''))
       = Inr (Some (TraceIdRatio (round_f64 False 42 100)))"

definition sampler_from_env_returns_none_when_unset :: "env_vars \<Rightarrow> bool" where
  "sampler_from_env_returns_none_when_unset env \<longleftrightarrow>
     sampler_from_env (env(lit ''OTEL_TRACES_SAMPLER'' := None)) = Inr None"

definition sampler_from_env_reads_parentbased_traceidratio :: "env_vars \<Rightarrow> bool" where
  "sampler_from_env_reads_parentbased_traceidratio env \<longleftrightarrow>
     sampler_from_env (env(lit ''OTEL_TRACES_SAMPLER'' \<mapsto> lit ''parentbased_traceidratio'', lit ''OTEL_TRACES_SAMPLER_ARG'' \<mapsto> lit ''0.1''))
       = Inr (Some (ParentBased (TraceIdRatio (round_f64 False 1 10))))"

definition sampler_from_env_parentbased_always_on :: "env_vars \<Rightarrow> bool" where
  "sampler_from_env_parentbased_always_on env \<longleftrightarrow>
     sampler_from_env (env(lit ''OTEL_TRACES_SAMPLER'' \<mapsto> lit ''parentbased_always_on'')) = Inr (Some (ParentBased AlwaysOn))"

definition sampler_from_env_parentbased_always_off :: "env_vars \<Rightarrow> bool" where
  "sampler_from_env_parentbased_always_off env \<longleftrightarrow>
     sampler_from_env (env(lit ''OTEL_TRACES_SAMPLER'' \<mapsto> lit ''parentbased_always_off'')) = Inr (Some (ParentBased AlwaysOff))"

definition sampler_from_env_always_on :: "env_vars \<Rightarrow> bool" where
  "sampler_from_env_always_on env \<longleftrightarrow>
     sampler_from_env (env(lit ''OTEL_TRACES_SAMPLER'' \<mapsto> lit ''always_on'')) = Inr (Some (AlwaysOn))"

definition sampler_from_env_always_off :: "env_vars \<Rightarrow> bool" where
  "sampler_from_env_always_off env \<longleftrightarrow>
     sampler_from_env (env(lit ''OTEL_TRACES_SAMPLER'' \<mapsto> lit ''always_off'')) = Inr (Some (AlwaysOff))"

definition sampler_from_env_unknown_returns_error :: "env_vars \<Rightarrow> bool" where
  "sampler_from_env_unknown_returns_error env \<longleftrightarrow>
     (case sampler_from_env (env(lit ''OTEL_TRACES_SAMPLER'' \<mapsto> lit ''unknown_sampler'')) of
        Inl e \<Rightarrow> contains e (lit ''unknown_sampler'') | Inr s \<Rightarrow> False)"

definition trace_sampler_always_on_converts_to_sdk :: bool where
  "trace_sampler_always_on_converts_to_sdk \<longleftrightarrow>
     into_sdk_sampler AlwaysOn = SdkAlwaysOn"

definition trace_sampler_always_off_converts_to_sdk :: bool where
  "trace_sampler_always_off_converts_to_sdk \<longleftrightarrow>
     into_sdk_sampler AlwaysOff = SdkAlwaysOff"

definition builder_has_sensible_defaults :: bool where
  "builder_has_sensible_defaults \<longleftrightarrow>
     (let b = telemetry_builder (lit ''test-svc'') in
      bd_service_name b = Some (lit ''test-svc'') \<and> bd_service_version b = None \<and> bd_deployment_environment b = None
      \<and> bd_sampler b = None \<and> bd_metrics b \<and> \<not> bd_logs b \<and> bd_protocol b = None \<and> bd_max_export_batch_size b = None
      \<and> bd_metric_export_interval b = None \<and> bd_export_timeout b = None)"

definition from_env_builder_has_no_service_name :: bool where
  "from_env_builder_has_no_service_name \<longleftrightarrow>
     bd_service_name telemetry_from_env = None"

definition with_export_timeout_stores_value :: bool where
  "with_export_timeout_stores_value \<longleftrightarrow>
     bd_export_timeout (with_export_timeout (from_secs 5) (telemetry_builder (lit ''test-svc''))) = Some (from_secs 5)"

definition timeout_from_env_reads_milliseconds :: "env_vars \<Rightarrow> bool" where
  "timeout_from_env_reads_milliseconds env \<longleftrightarrow>
     timeout_from_env (env(lit ''OTEL_EXPORTER_OTLP_TIMEOUT'' \<mapsto> lit ''5000'')) = Some (from_millis 5000)"

definition timeout_from_env_returns_none_when_unset :: "env_vars \<Rightarrow> bool" where
  "timeout_from_env_returns_none_when_unset env \<longleftrightarrow>
     timeout_from_env (env(lit ''OTEL_EXPORTER_OTLP_TIMEOUT'' := None)) = None"

definition service_name_from_env_used_when_none_given :: bool where
  "service_name_from_env_used_when_none_given \<longleftrightarrow>
     bd_service_name telemetry_from_env = None"

definition explicit_service_name_overrides_env_var :: bool where
  "explicit_service_name_overrides_env_var \<longleftrightarrow>
     bd_service_name (telemetry_builder (lit ''explicit-svc'')) = Some (lit ''explicit-svc'')"

definition from_env_builder_service_name_is_none :: bool where
  "from_env_builder_service_name_is_none \<longleftrightarrow>
     bd_service_name telemetry_from_env = None"

definition with_max_export_batch_size_stores_value :: bool where
  "with_max_export_batch_size_stores_value \<longleftrightarrow>
     bd_max_export_batch_size (with_max_export_batch_size 1024 (telemetry_builder (lit ''test-svc''))) = Some 1024"

definition with_metric_export_interval_stores_value :: bool where
  "with_metric_export_interval_stores_value \<longleftrightarrow>
     bd_metric_export_interval (with_metric_export_interval (from_secs 30) (telemetry_builder (lit ''test-svc''))) = Some (from_secs 30)"

definition builder_with_custom_values :: bool where
  "builder_with_custom_values \<longleftrightarrow>
     (let b = with_metrics False (with_sampler (TraceIdRatio (round_f64 False 5 10)) (with_environment (lit ''production'')
          (with_version (lit ''2.0.0'') (telemetry_builder (lit ''test-svc''))))) in
      bd_service_name b = Some (lit ''test-svc'') \<and> bd_service_version b = Some (lit ''2.0.0'')
      \<and> bd_deployment_environment b = Some (lit ''production'')
      \<and> bd_sampler b = Some (TraceIdRatio (round_f64 False 5 10)) \<and> \<not> bd_metrics b)"

definition builder_stores_programmatic_log_configuration :: bool where
  "builder_stores_programmatic_log_configuration \<longleftrightarrow>
     (let b = with_log_format Json (with_log_filter (lit ''info,opentelemetry_sdk=warn'') (telemetry_builder (lit ''test-svc''))) in
      bd_log_filter b = Some (lit ''info,opentelemetry_sdk=warn'') \<and> bd_log_format b = Json)"

definition builder_with_default_endpoint :: bool where
  "builder_with_default_endpoint \<longleftrightarrow>
     bd_default_endpoint (with_default_endpoint (lit ''http://otel-collector:4317'') (telemetry_builder (lit ''svc'')))
       = Some (lit ''http://otel-collector:4317'')"

definition a_configured_endpoint_wins_over_the_runtime_default :: bool where
  "a_configured_endpoint_wins_over_the_runtime_default \<longleftrightarrow>
     resolve_endpoint (Some (lit ''http://c:4317'')) (Some (lit ''http://d:4317'')) (lit ''http://localhost:4317'') = lit ''http://c:4317''
     \<and> resolve_endpoint None (Some (lit ''http://d:4317'')) (lit ''http://localhost:4317'') = lit ''http://d:4317''
     \<and> resolve_endpoint None None (lit ''http://localhost:4317'') = lit ''http://localhost:4317''"

definition builder_with_protocol_grpc :: bool where
  "builder_with_protocol_grpc \<longleftrightarrow>
     bd_protocol (with_protocol Grpc (telemetry_builder (lit ''test-svc''))) = Some Grpc"

definition builder_with_protocol_http :: bool where
  "builder_with_protocol_http \<longleftrightarrow>
     bd_protocol (with_protocol HttpProtobuf (telemetry_builder (lit ''test-svc''))) = Some HttpProtobuf"

definition protocol_from_env_reads_grpc :: "features \<Rightarrow> env_vars \<Rightarrow> bool" where
  "protocol_from_env_reads_grpc ft env \<longleftrightarrow>
     ft_grpc ft \<longrightarrow> protocol_from_env ft (env(lit ''OTEL_EXPORTER_OTLP_PROTOCOL'' \<mapsto> lit ''grpc'')) = Some Grpc"

definition protocol_from_env_reads_http_protobuf :: "features \<Rightarrow> env_vars \<Rightarrow> bool" where
  "protocol_from_env_reads_http_protobuf ft env \<longleftrightarrow>
     ft_http ft \<longrightarrow> protocol_from_env ft (env(lit ''OTEL_EXPORTER_OTLP_PROTOCOL'' \<mapsto> lit ''http/protobuf'')) = Some HttpProtobuf"

definition protocol_from_env_returns_none_when_unset :: "features \<Rightarrow> env_vars \<Rightarrow> bool" where
  "protocol_from_env_returns_none_when_unset ft env \<longleftrightarrow>
     protocol_from_env ft (env(lit ''OTEL_EXPORTER_OTLP_PROTOCOL'' := None)) = None"

definition protocol_from_env_returns_none_for_unknown :: "features \<Rightarrow> env_vars \<Rightarrow> bool" where
  "protocol_from_env_returns_none_for_unknown ft env \<longleftrightarrow>
     protocol_from_env ft (env(lit ''OTEL_EXPORTER_OTLP_PROTOCOL'' \<mapsto> lit ''websocket'')) = None"

definition with_shutdown_timeout_stores_value :: bool where
  "with_shutdown_timeout_stores_value \<longleftrightarrow>
     bd_shutdown_timeout (with_shutdown_timeout (from_secs 10) (telemetry_builder (lit ''test-svc''))) = from_secs 10"

definition default_shutdown_timeout_is_five_seconds :: bool where
  "default_shutdown_timeout_is_five_seconds \<longleftrightarrow>
     bd_shutdown_timeout (telemetry_builder (lit ''test-svc'')) = from_secs 5"

section \<open>They pass\<close>

lemmas builder_eval = telemetry_builder_def telemetry_from_env_def DEFAULT_SHUTDOWN_TIMEOUT_def init_simps filter_opt_def
  resolve_endpoint_def or_else_def Let_def

lemma builder_tests_pass:
  "runtime_metrics_can_be_disabled" "builder_namespace_is_absent_unless_non_empty"
  "trace_sampler_ratio_converts_to_sdk" "trace_sampler_parent_based_converts_to_sdk"
  "trace_sampler_always_on_converts_to_sdk" "trace_sampler_always_off_converts_to_sdk"
  "builder_has_sensible_defaults" "from_env_builder_has_no_service_name" "with_export_timeout_stores_value"
  "service_name_from_env_used_when_none_given" "explicit_service_name_overrides_env_var"
  "from_env_builder_service_name_is_none" "with_max_export_batch_size_stores_value"
  "with_metric_export_interval_stores_value" "builder_with_custom_values"
  "builder_stores_programmatic_log_configuration" "builder_with_default_endpoint"
  "a_configured_endpoint_wins_over_the_runtime_default" "builder_with_protocol_grpc" "builder_with_protocol_http"
  "with_shutdown_timeout_stores_value" "default_shutdown_timeout_is_five_seconds"
  by (simp_all add: builder_eval
    runtime_metrics_can_be_disabled_def builder_namespace_is_absent_unless_non_empty_def
    trace_sampler_ratio_converts_to_sdk_def trace_sampler_parent_based_converts_to_sdk_def
    trace_sampler_always_on_converts_to_sdk_def trace_sampler_always_off_converts_to_sdk_def
    builder_has_sensible_defaults_def from_env_builder_has_no_service_name_def with_export_timeout_stores_value_def
    service_name_from_env_used_when_none_given_def explicit_service_name_overrides_env_var_def
    from_env_builder_service_name_is_none_def with_max_export_batch_size_stores_value_def
    with_metric_export_interval_stores_value_def builder_with_custom_values_def
    builder_stores_programmatic_log_configuration_def builder_with_default_endpoint_def
    a_configured_endpoint_wins_over_the_runtime_default_def builder_with_protocol_grpc_def
    builder_with_protocol_http_def with_shutdown_timeout_stores_value_def
    default_shutdown_timeout_is_five_seconds_def)

lemma resource_tests_pass:
  "resource_contains_all_attributes_when_provided hostname pid"
  "resource_carries_the_service_namespace_only_when_set hostname pid"
  "resource_graceful_when_optional_values_omitted hostname pid"
  by (simp_all add: build_resource_def build_resource_in_def opt_attr_def lit_def Let_def
    resource_contains_all_attributes_when_provided_def resource_carries_the_service_namespace_only_when_set_def
    resource_graceful_when_optional_values_omitted_def)

lemma unknown_sampler_passes: "sampler_from_env_unknown_returns_error env"
  using contains_append [of "lit ''OTEL_TRACES_SAMPLER: unrecognised sampler name '' @ [39]" "lit ''unknown_sampler''"]
  by (simp add: sampler_from_env_unknown_returns_error_def sampler_from_env_def lit_def)

lemma parse_5000: "parse_u64 (trim (lit ''5000'')) = Some 5000"
  by (simp add: parse_u64_def trim_def trim_by_def trim_end_by_def is_whitespace_def is_digit_def value_of_def lit_def)

lemma trimmed: "trim (lit ''grpc'') = lit ''grpc''" "trim (lit ''http/protobuf'') = lit ''http/protobuf''" "trim (lit ''websocket'') = lit ''websocket''"
  by (simp_all add: trim_def trim_by_def trim_end_by_def is_whitespace_def lit_def)

lemma parse_ratios: "parse_f64 (lit ''0.42'') = Some (round_f64 False 42 100)" "parse_f64 (lit ''0.1'') = Some (round_f64 False 1 10)"
  by (simp_all add: parse_f64_def lower_def is_digit_def read_exp_def dec_value_of_def value_of_def lit_def)

lemma env_tests_pass:
  "sampler_from_env_returns_none_when_unset env" "sampler_from_env_parentbased_always_on env"
  "sampler_from_env_parentbased_always_off env" "sampler_from_env_always_on env" "sampler_from_env_always_off env"
  "timeout_from_env_reads_milliseconds env" "timeout_from_env_returns_none_when_unset env"
  "protocol_from_env_reads_grpc ft env" "protocol_from_env_reads_http_protobuf ft env"
  "protocol_from_env_returns_none_when_unset ft env" "protocol_from_env_returns_none_for_unknown ft env"
  by (simp_all add: sampler_from_env_def timeout_from_env_def protocol_from_env_def parse_5000 trimmed Let_def
    sampler_from_env_returns_none_when_unset_def sampler_from_env_parentbased_always_on_def
    sampler_from_env_parentbased_always_off_def sampler_from_env_always_on_def sampler_from_env_always_off_def
    timeout_from_env_reads_milliseconds_def timeout_from_env_returns_none_when_unset_def
    protocol_from_env_reads_grpc_def protocol_from_env_reads_http_protobuf_def
    protocol_from_env_returns_none_when_unset_def protocol_from_env_returns_none_for_unknown_def)

lemma ratio_tests_pass:
  "sampler_from_env_reads_traceidratio env" "sampler_from_env_reads_parentbased_traceidratio env"
  by (simp_all add: sampler_from_env_def sampler_ratio_def parse_ratios Let_def
    sampler_from_env_reads_traceidratio_def sampler_from_env_reads_parentbased_traceidratio_def)

section \<open>Initialisation and handles\<close>

definition init_returns_error_for_unknown_otel_traces_sampler ::
    "features \<Rightarrow> externals \<Rightarrow> env_vars \<Rightarrow> nat \<Rightarrow> globals \<Rightarrow> bool" where
  "init_returns_error_for_unknown_otel_traces_sampler ft ext env n gl \<longleftrightarrow>
     (case snd (snd (init ft ext (env(lit ''OTEL_TRACES_SAMPLER'' \<mapsto> lit ''not_a_real_sampler'')) n
              (with_metrics False (telemetry_builder (lit ''test-svc''))) gl)) of
        Inl e \<Rightarrow> contains e (lit ''not_a_real_sampler'')
      | Inr h \<Rightarrow> False)"

definition init_rejects_zero_metric_export_interval ::
    "features \<Rightarrow> externals \<Rightarrow> env_vars \<Rightarrow> nat \<Rightarrow> globals \<Rightarrow> bool" where
  "init_rejects_zero_metric_export_interval ft ext env n gl \<longleftrightarrow>
     (case snd (snd (init ft ext env n
              (with_metrics False (with_metric_export_interval 0 (telemetry_builder (lit ''test-svc'')))) gl)) of
        Inl e \<Rightarrow> contains e (lit ''metric_export_interval'')
      | Inr h \<Rightarrow> False)"

definition init_rejects_invalid_programmatic_log_filter_before_provider_setup ::
    "features \<Rightarrow> externals \<Rightarrow> env_vars \<Rightarrow> nat \<Rightarrow> globals \<Rightarrow> bool" where
  "init_rejects_invalid_programmatic_log_filter_before_provider_setup ft ext env n gl \<longleftrightarrow>
     (let (gl', eff, r) = init ft ext env n
            (with_meter_provider_setup 0 (with_log_filter (lit ''['') (telemetry_builder (lit ''test-svc'')))) gl
      in (case r of Inl e \<Rightarrow> contains e (lit ''invalid filter directive'') | Inr h \<Rightarrow> False)
         \<and> list_all (\<lambda>x. case x of SetMeterProvider mp \<Rightarrow> False | _ \<Rightarrow> True) eff)"

text \<open>\<open>results\<close> is what the providers report, the second time that they are shut down already.\<close>

definition shutdown_absorbs_provider_errors ::
    "tracer_provider \<Rightarrow> meter_provider \<Rightarrow> logger_provider \<Rightarrow> (nat \<Rightarrow> otel_signal \<Rightarrow> rstring option) \<Rightarrow> timeline \<Rightarrow> instant
       \<Rightarrow> instant \<Rightarrow> bool" where
  "shutdown_absorbs_provider_errors tp mp lp results tm now now' \<longleftrightarrow>
     (let h = \<lparr>hd_tracer = tp, hd_meter = Some mp, hd_logger = Some lp, hd_shutdown_timeout = DEFAULT_SHUTDOWN_TIMEOUT,
               hd_boot_owner = False, hd_profiling = None\<rparr>;
          (tm, eff, first) = shutdown h (results 0) tm now;
          (tm, eff, second) = shutdown h (results 1) tm now'
      in first = Inr () \<and> second = Inr ())"

definition drop_completes_within_shutdown_timeout ::
    "externals \<Rightarrow> nat \<Rightarrow> globals \<Rightarrow> (otel_signal \<Rightarrow> rstring option) \<Rightarrow> duration option \<Rightarrow> instant \<Rightarrow> rstring \<Rightarrow> bool" where
  "drop_completes_within_shutdown_timeout ext n gl results took now shown \<longleftrightarrow>
     (let (gl, eff, h) = testing ext n (lit ''drop-timeout-test'') gl;
          h = h\<lparr>hd_shutdown_timeout := from_millis 100\<rparr>;
          (tm, here, there, waited) = drop_handles h results took (gl_timeline gl) now shown
      in waited < from_millis 500)"

lemma filter_unset: "bd_log_filter (telemetry_builder n) = None" "bd_sampler (telemetry_builder n) = None"
  "bd_metric_export_interval (telemetry_builder n) = None"
  by (simp_all add: builder_eval)

lemma unknown_sampler_init_passes: "init_returns_error_for_unknown_otel_traces_sampler ft ext env n gl"
  using contains_append [of "lit ''OTEL_TRACES_SAMPLER: unrecognised sampler name '' @ [39]" "lit ''not_a_real_sampler''"]
  by (simp add: init_returns_error_for_unknown_otel_traces_sampler_def init_def resolve_settings_def sampler_from_env_def
      builder_eval bind_res_def)

lemma zero_interval_passes: "init_rejects_zero_metric_export_interval ft ext env n gl"
  using contains_append [of "[]" "lit ''metric_export_interval''" "lit '' must be greater than zero''"]
  by (simp add: init_rejects_zero_metric_export_interval_def init_def resolve_settings_def builder_eval) (simp add: lit_def)

text \<open>The filter's parser says so of a lone bracket.\<close>

lemma invalid_filter_passes:
  assumes "xe_filter ext (lit ''['') = Some e" and "contains e (lit ''invalid filter directive'')"
  shows "init_rejects_invalid_programmatic_log_filter_before_provider_setup ft ext env n gl"
  using assms
  by (simp add: init_rejects_invalid_programmatic_log_filter_before_provider_setup_def init_def resolve_settings_def builder_eval)

lemma shutdown_twice_passes: "shutdown_absorbs_provider_errors tp mp lp results tm now now'"
  by (simp add: shutdown_absorbs_provider_errors_def shutdown_def close_boot_def)

lemma drop_timeout_passes: "drop_completes_within_shutdown_timeout ext n gl results took now shown"
  by (auto simp: drop_completes_within_shutdown_timeout_def testing_def drop_handles_def close_boot_def from_millis_def Let_def
      case_prod_beta split: option.split)

end
