(* ===== verification/LogSink.thy ===== *)
theory LogSink
  imports LogBridgeProps RustTime
begin

text \<open>
  The log bridge over any implementation of the \<open>LogRecord\<close> trait: \<open>on_event\<close> as the calls it
  makes on the record the logger creates. The interface is the locale \<open>attribute_record\<close> (what was
  added reads back, in order) and its extension \<open>full_record\<close> (body and severity too); the records
  of the loggers that the tests of \<open>src/src/log_bridge.rs\<close> and \<open>src/src/span_enrichment.rs\<close>
  bring along are instances, so what those loggers capture is what the bridge's own record holds.
\<close>

section \<open>The trait\<close>

record 'r record_impl =
  ri_set_event_name :: "rstring \<Rightarrow> 'r \<Rightarrow> 'r"
  ri_set_target :: "rstring \<Rightarrow> 'r \<Rightarrow> 'r"
  ri_set_timestamp :: "systime \<Rightarrow> 'r \<Rightarrow> 'r"
  ri_set_observed_timestamp :: "systime \<Rightarrow> 'r \<Rightarrow> 'r"
  ri_set_severity_text :: "rstring \<Rightarrow> 'r \<Rightarrow> 'r"
  ri_set_severity_number :: "severity \<Rightarrow> 'r \<Rightarrow> 'r"
  ri_set_body :: "any_value \<Rightarrow> 'r \<Rightarrow> 'r"
  ri_add_attributes :: "(rstring \<times> any_value) list \<Rightarrow> 'r \<Rightarrow> 'r"
  ri_add_attribute :: "rstring \<Rightarrow> any_value \<Rightarrow> 'r \<Rightarrow> 'r"

text \<open>A logger makes the records and keeps the ones it is given.\<close>

record 'r logger_impl =
  lg_create :: 'r
  lg_emit :: "'r \<Rightarrow> 'r list \<Rightarrow> 'r list"
  lg_event_enabled :: "severity \<Rightarrow> rstring \<Rightarrow> rstring option \<Rightarrow> bool"

definition add_each :: "'r record_impl \<Rightarrow> (rstring \<times> any_value) list \<Rightarrow> 'r \<Rightarrow> 'r" where
  "add_each ri kvs lr = foldl (\<lambda>lr (k, v). ri_add_attribute ri k v lr) lr kvs"

text \<open>\<open>LogRecordVisitor\<close> and \<open>inject_span_context\<close> on a record of the trait.\<close>

definition visit_into :: "'r record_impl \<Rightarrow> 'r \<Rightarrow> field \<Rightarrow> 'r" where
  "visit_into ri lr fd =
     (case fd_value fd of
        StrV s \<Rightarrow> if fd_name fd = lit ''message'' then ri_set_body ri (AvString s) lr
                  else ri_add_attribute ri (fd_name fd) (AvString s) lr
      | BoolV b \<Rightarrow> ri_add_attribute ri (fd_name fd) (AvBool b) lr
      | I64V n \<Rightarrow> ri_add_attribute ri (fd_name fd) (AvInt n) lr
      | F64V x \<Rightarrow> ri_add_attribute ri (fd_name fd) (AvDouble x) lr
      | DebugV \<Rightarrow> if fd_name fd = lit ''message'' then ri_set_body ri (AvString (fd_debug fd)) lr
                  else ri_add_attribute ri (fd_name fd) (AvString (fd_debug fd)) lr)"

definition inject_into :: "'r record_impl \<Rightarrow> hash_order \<Rightarrow> span_data list \<Rightarrow> span_ref \<Rightarrow> 'r \<Rightarrow> 'r" where
  "inject_into ri order sp span lr = foldl (\<lambda>lr a. add_each ri (span_attrs order sp a) lr) lr (scope span)"

text \<open>\<open>on_event\<close>: the record it writes, and the \<open>emit\<close> that is given it.\<close>

definition write_event :: "'r record_impl \<Rightarrow> 'r logger_impl \<Rightarrow> hash_order \<Rightarrow> tevent \<Rightarrow> span_ref option \<Rightarrow> span_data list \<Rightarrow> 'r" where
  "write_event ri lg order ev event_span sp =
     (let meta = te_meta ev;
          lr = lg_create lg;
          lr = ri_set_severity_number ri (severity_of_level (md_level meta)) lr;
          lr = ri_set_severity_text ri (level_str (md_level meta)) lr;
          lr = ri_set_target ri (md_target meta) lr;
          lr = ri_set_event_name ri (md_name meta) lr;
          lr = visit_fields (visit_into ri) lr (te_fields ev)
      in case event_span of None \<Rightarrow> lr | Some span \<Rightarrow> inject_into ri order sp span lr)"

definition emit_event ::
    "'r record_impl \<Rightarrow> 'r logger_impl \<Rightarrow> hash_order \<Rightarrow> tevent \<Rightarrow> span_ref option \<Rightarrow> span_data list \<Rightarrow> 'r list \<Rightarrow> 'r list" where
  "emit_event ri lg order ev event_span sp recs = lg_emit lg (write_event ri lg order ev event_span sp) recs"

text \<open>\<open>SpanAwareLogBridge\<close>: the logger it got of a provider, and the fields it captures.\<close>

record 'r span_aware_log_bridge =
  sb_logger :: "'r logger_impl"
  sb_span_fields :: "rstring list"

definition bridge_new :: "(rstring \<Rightarrow> 'r logger_impl) \<Rightarrow> rstring list \<Rightarrow> 'r span_aware_log_bridge" where
  "bridge_new provider span_fields = \<lparr>sb_logger = provider (lit ''otel-bootstrap''), sb_span_fields = span_fields\<rparr>"

text \<open>What the logger of a bridge was given by a sequence of operations that starts from \<open>w\<close>.\<close>

fun logger_run ::
    "'r record_impl \<Rightarrow> 'r span_aware_log_bridge \<Rightarrow> hash_order \<Rightarrow> world \<Rightarrow> 'r list \<Rightarrow> bridge_op list \<Rightarrow> 'r list" where
  "logger_run ri br order w recs [] = recs"
| "logger_run ri br order w recs (EmitEvent ev sp # ops) =
     logger_run ri br order (on_event order ev sp w) (emit_event ri (sb_logger br) order ev sp (wd_spans w) recs) ops"
| "logger_run ri br order w recs (c # ops) = logger_run ri br order (bridge_do (sb_span_fields br) order w c) recs ops"

lemma emitted_last: "wd_emitted (on_event order ev sp w) = wd_emitted w @ [last (wd_emitted (on_event order ev sp w))]"
  by (simp add: on_event_def Let_def)

lemma new_span_emitted: "wd_emitted (on_new_span ks attrs i (span_opened w)) = wd_emitted w"
  by (simp add: on_new_span_def span_opened_def Let_def)

section \<open>The interface\<close>

locale attribute_record =
  fixes ri :: "'r record_impl" and lg :: "'r logger_impl" and attrs_of :: "'r \<Rightarrow> (rstring \<times> any_value) list"
  assumes emits: "lg_emit lg lr recs = recs @ [lr]"
    and attrs_create: "attrs_of (lg_create lg) = []"
    and attrs_add: "attrs_of (ri_add_attribute ri k v lr) = attrs_of lr @ [(k, v)]"
    and attrs_adds: "attrs_of (ri_add_attributes ri kvs lr) = attrs_of lr @ kvs"
    and attrs_severity: "attrs_of (ri_set_severity_number ri s lr) = attrs_of lr"
    and attrs_text: "attrs_of (ri_set_severity_text ri txt lr) = attrs_of lr"
    and attrs_timestamp: "attrs_of (ri_set_timestamp ri ts lr) = attrs_of lr"
    and attrs_observed: "attrs_of (ri_set_observed_timestamp ri ts lr) = attrs_of lr"
    and attrs_target: "attrs_of (ri_set_target ri txt lr) = attrs_of lr"
    and attrs_event_name: "attrs_of (ri_set_event_name ri txt lr) = attrs_of lr"
    and attrs_body: "attrs_of (ri_set_body ri b lr) = attrs_of lr"
begin

lemma attrs_many: "attrs_of (add_each ri kvs lr) = attrs_of lr @ kvs"
  unfolding add_each_def by (induction kvs arbitrary: lr) (auto simp: attrs_add)

text \<open>Adding one by one, as the bridge does, is adding them all.\<close>

lemma each_is_all: "attrs_of (add_each ri kvs lr) = attrs_of (ri_add_attributes ri kvs lr)"
  by (simp add: attrs_many attrs_adds)

lemma attrs_visit:
  assumes "attrs_of lr = lr_attrs mr"
  shows "attrs_of (visit_into ri lr fd) = lr_attrs (log_record_visit mr fd)"
  using assms
  by (simp add: visit_into_def log_record_visit_def add_attribute_def attrs_add attrs_body split: fvalue.split)

lemma attrs_visits: "attrs_of lr = lr_attrs mr \<Longrightarrow>
    attrs_of (visit_fields (visit_into ri) lr fds) = lr_attrs (visit_fields log_record_visit mr fds)"
  by (induction fds arbitrary: lr mr) (auto dest: attrs_visit)

lemma attrs_inject:
  assumes "attrs_of lr = lr_attrs mr"
  shows "attrs_of (inject_into ri order sp span lr) = lr_attrs (inject_span_context order sp span mr)"
proof -
  have add: "lr_attrs (foldl (\<lambda>lr (k, v). add_attribute k v lr) mr kvs) = lr_attrs mr @ kvs" for kvs mr
    by (induction kvs arbitrary: mr) (auto simp: add_attribute_def)
  have "attrs_of lr = lr_attrs mr \<Longrightarrow>
      attrs_of (foldl (\<lambda>lr a. add_each ri (span_attrs order sp a) lr) lr as)
        = lr_attrs (foldl (\<lambda>lr a. foldl (\<lambda>lr (k, v). add_attribute k v lr) lr (span_attrs order sp a)) mr as)" for as
    by (induction "as" arbitrary: lr mr) (simp_all add: attrs_many add)
  with assms show ?thesis by (simp add: inject_into_def inject_span_context_def)
qed

text \<open>The record holds the attributes of the one the bridge emits, in their order.\<close>

lemma attrs_written:
  "attrs_of (write_event ri lg order ev sp (wd_spans w)) = lr_attrs (last (wd_emitted (on_event order ev sp w)))"
proof -
  have "attrs_of (ri_set_event_name ri n (ri_set_target ri t (ri_set_severity_text ri x (ri_set_severity_number ri s (lg_create lg)))))
      = lr_attrs (new_log_record m)" for n t x s m
    by (simp add: attrs_create attrs_severity attrs_text attrs_target attrs_event_name new_log_record_def)
  then show ?thesis
    unfolding write_event_def on_event_def
    by (auto simp: Let_def split: option.split intro!: attrs_visits attrs_inject)
qed

lemma attrs_run: "map attrs_of recs = map lr_attrs (wd_emitted w) \<Longrightarrow>
    map attrs_of (logger_run ri \<lparr>sb_logger = lg, sb_span_fields = ks\<rparr> order w recs ops) = map lr_attrs (wd_emitted (foldl (bridge_do ks order) w ops))"
proof (induction ops arbitrary: w recs)
  case (Cons c ops)
  show ?case
  proof (cases c)
    case (EmitEvent ev sp)
    have "map attrs_of (emit_event ri lg order ev sp (wd_spans w) recs) = map lr_attrs (wd_emitted (on_event order ev sp w))"
      using Cons.prems by (subst emitted_last) (simp add: emit_event_def emits attrs_written)
    from Cons.IH [OF this] show ?thesis by (simp add: EmitEvent)
  qed (use Cons in \<open>simp_all add: new_span_emitted\<close>)
qed simp

end

locale full_record = attribute_record ri lg attrs_of
  for ri :: "'r record_impl" and lg :: "'r logger_impl" and attrs_of :: "'r \<Rightarrow> (rstring \<times> any_value) list" +
  fixes body_of :: "'r \<Rightarrow> any_value option" and severity_of :: "'r \<Rightarrow> severity option"
  assumes body_create: "body_of (lg_create lg) = None"
    and body_set: "body_of (ri_set_body ri b lr) = Some b"
    and body_add: "body_of (ri_add_attribute ri k v lr) = body_of lr"
    and body_severity: "body_of (ri_set_severity_number ri s lr) = body_of lr"
    and body_text: "body_of (ri_set_severity_text ri txt lr) = body_of lr"
    and body_target: "body_of (ri_set_target ri txt lr) = body_of lr"
    and body_event_name: "body_of (ri_set_event_name ri txt lr) = body_of lr"
    and severity_set: "severity_of (ri_set_severity_number ri s lr) = Some s"
    and severity_body: "severity_of (ri_set_body ri b lr) = severity_of lr"
    and severity_add: "severity_of (ri_add_attribute ri k v lr) = severity_of lr"
    and severity_text: "severity_of (ri_set_severity_text ri txt lr) = severity_of lr"
    and severity_target: "severity_of (ri_set_target ri txt lr) = severity_of lr"
    and severity_event_name: "severity_of (ri_set_event_name ri txt lr) = severity_of lr"
begin

definition same :: "'r \<Rightarrow> log_record \<Rightarrow> bool" where
  "same lr mr \<longleftrightarrow> body_of lr = lr_body mr \<and> severity_of lr = Some (lr_severity mr)"

lemma same_one: "same lr mr \<Longrightarrow> same (ri_add_attribute ri k v lr) (add_attribute k v mr)"
  by (simp add: same_def add_attribute_def body_add severity_add)

lemma same_add: "same lr mr \<Longrightarrow> same (add_each ri kvs lr) (foldl (\<lambda>lr (k, v). add_attribute k v lr) mr kvs)"
  unfolding add_each_def by (induction kvs arbitrary: lr mr) (auto intro: same_one)

lemma same_visit: "same lr mr \<Longrightarrow> same (visit_into ri lr fd) (log_record_visit mr fd)"
  by (simp add: same_def visit_into_def log_record_visit_def add_attribute_def body_set body_add severity_body severity_add
      split: fvalue.split)

lemma same_visits: "same lr mr \<Longrightarrow> same (visit_fields (visit_into ri) lr fds) (visit_fields log_record_visit mr fds)"
  by (induction fds arbitrary: lr mr) (auto dest: same_visit)

lemma same_inject: "same lr mr \<Longrightarrow> same (inject_into ri order sp span lr) (inject_span_context order sp span mr)"
proof -
  have "same lr mr \<Longrightarrow> same (foldl (\<lambda>lr a. add_each ri (span_attrs order sp a) lr) lr as)
      (foldl (\<lambda>lr a. foldl (\<lambda>lr (k, v). add_attribute k v lr) lr (span_attrs order sp a)) mr as)" for as
    by (induction "as" arbitrary: lr mr) (auto dest: same_add)
  then show "same lr mr \<Longrightarrow> ?thesis" by (simp add: inject_into_def inject_span_context_def)
qed

lemma same_written: "same (write_event ri lg order ev sp (wd_spans w)) (last (wd_emitted (on_event order ev sp w)))"
proof -
  have "same (ri_set_event_name ri n (ri_set_target ri t (ri_set_severity_text ri x
      (ri_set_severity_number ri (severity_of_level (md_level m)) (lg_create lg))))) (new_log_record m)" for n t x m
    by (simp add: same_def new_log_record_def body_create body_severity body_text body_target body_event_name
        severity_set severity_text severity_target severity_event_name)
  then show ?thesis
    unfolding write_event_def on_event_def
    by (auto simp: Let_def split: option.split intro!: same_visits same_inject)
qed

lemma body_written: "body_of (write_event ri lg order ev sp (wd_spans w)) = lr_body (last (wd_emitted (on_event order ev sp w)))"
  and severity_written:
    "severity_of (write_event ri lg order ev sp (wd_spans w)) = Some (lr_severity (last (wd_emitted (on_event order ev sp w))))"
  using same_written by (auto simp: same_def)

lemma same_run: "list_all2 same recs (wd_emitted w) \<Longrightarrow>
    list_all2 same (logger_run ri \<lparr>sb_logger = lg, sb_span_fields = ks\<rparr> order w recs ops) (wd_emitted (foldl (bridge_do ks order) w ops))"
proof (induction ops arbitrary: w recs)
  case (Cons c ops)
  show ?case
  proof (cases c)
    case (EmitEvent ev sp)
    have "list_all2 same (emit_event ri lg order ev sp (wd_spans w) recs) (wd_emitted (on_event order ev sp w))"
      using Cons.prems same_written by (subst emitted_last) (simp add: emit_event_def emits list_all2_appendI)
    from Cons.IH [OF this] show ?thesis by (simp add: EmitEvent)
  qed (use Cons in \<open>simp_all add: new_span_emitted\<close>)
qed simp

end

section \<open>The loggers of the tests\<close>

text \<open>\<open>CapturingLogRecord\<close> keeps attributes, body and severity.\<close>

record captured_record =
  cr_body :: "any_value option"
  cr_attributes :: "(rstring \<times> any_value) list"
  cr_severity :: "severity option"

definition CapturingLogRecord :: "captured_record record_impl" where
  "CapturingLogRecord =
     \<lparr>ri_set_event_name = (\<lambda>name r. r), ri_set_target = (\<lambda>target r. r), ri_set_timestamp = (\<lambda>ts r. r),
      ri_set_observed_timestamp = (\<lambda>ts r. r), ri_set_severity_text = (\<lambda>txt r. r),
      ri_set_severity_number = (\<lambda>sev r. r\<lparr>cr_severity := Some sev\<rparr>),
      ri_set_body = (\<lambda>body r. r\<lparr>cr_body := Some body\<rparr>),
      ri_add_attributes = (\<lambda>kvs r. fold (\<lambda>(k, v) g. g\<lparr>cr_attributes := cr_attributes g @ [(k, v)]\<rparr>) kvs r),
      ri_add_attribute = (\<lambda>key v r. r\<lparr>cr_attributes := cr_attributes r @ [(key, v)]\<rparr>)\<rparr>"

text \<open>\<open>Cap\<close> keeps the attributes only.\<close>

record rec_record =
  rc_attributes :: "(rstring \<times> any_value) list"

definition Cap :: "rec_record record_impl" where
  "Cap =
     \<lparr>ri_set_event_name = (\<lambda>name r. r), ri_set_target = (\<lambda>target r. r), ri_set_timestamp = (\<lambda>ts r. r),
      ri_set_observed_timestamp = (\<lambda>ts r. r), ri_set_severity_text = (\<lambda>txt r. r),
      ri_set_severity_number = (\<lambda>sev r. r), ri_set_body = (\<lambda>body r. r),
      ri_add_attributes = (\<lambda>kvs r. fold (\<lambda>(k, v) g. g\<lparr>rc_attributes := rc_attributes g @ [(k, v)]\<rparr>) kvs r),
      ri_add_attribute = (\<lambda>k v r. r\<lparr>rc_attributes := rc_attributes r @ [(k, v)]\<rparr>)\<rparr>"

text \<open>Their loggers enable every event and keep a copy of the record.\<close>

definition CapturingLogger :: "captured_record logger_impl" where
  "CapturingLogger =
     \<lparr>lg_create = \<lparr>cr_body = None, cr_attributes = [], cr_severity = None\<rparr>,
      lg_emit = (\<lambda>lr records. records @ [lr]),
      lg_event_enabled = (\<lambda>level target name. True)\<rparr>"

definition CapLogger :: "rec_record logger_impl" where
  "CapLogger =
     \<lparr>lg_create = \<lparr>rc_attributes = []\<rparr>,
      lg_emit = (\<lambda>r records. records @ [r]),
      lg_event_enabled = (\<lambda>level target name. True)\<rparr>"

text \<open>Their providers give the same logger for every scope.\<close>

definition CapturingLoggerProvider :: "rstring \<Rightarrow> captured_record logger_impl" where
  "CapturingLoggerProvider name = CapturingLogger"

definition CapProvider :: "rstring \<Rightarrow> rec_record logger_impl" where
  "CapProvider name = CapLogger"

lemma fold_cr: "cr_attributes (fold (\<lambda>(k, v) g. g\<lparr>cr_attributes := cr_attributes g @ [(k, v)]\<rparr>) kvs r) = cr_attributes r @ kvs"
  by (induction kvs arbitrary: r) auto

lemma fold_rc: "rc_attributes (fold (\<lambda>(k, v) g. g\<lparr>rc_attributes := rc_attributes g @ [(k, v)]\<rparr>) kvs r) = rc_attributes r @ kvs"
  by (induction kvs arbitrary: r) auto

interpretation capturing: full_record CapturingLogRecord CapturingLogger cr_attributes cr_body cr_severity
  by unfold_locales (simp_all add: CapturingLogRecord_def CapturingLogger_def fold_cr)

interpretation cap: attribute_record Cap CapLogger rc_attributes
  by unfold_locales (simp_all add: Cap_def CapLogger_def fold_rc)

end
