(* ===== verification/LogTests.thy ===== *)
theory LogTests
  imports LogSink
begin

text \<open>
  The unit tests of \<open>src/src/log_bridge.rs\<close> and \<open>src/src/span_enrichment.rs\<close>, each as
  what it asserts of the model, under its own name. The order in which a hash map gives its entries
  is an argument; the tests pass for every order that gives them all.
\<close>

section \<open>What the tests use\<close>

text \<open>A subscriber with a bridge that propagates some fields, and the records its logger captured.\<close>

definition records :: "rstring list \<Rightarrow> hash_order \<Rightarrow> bridge_op list \<Rightarrow> captured_record list" where
  "records fds order ops = logger_run CapturingLogRecord (bridge_new CapturingLoggerProvider fds) order \<lparr>wd_spans = [], wd_emitted = []\<rparr> [] ops"

definition cap_records :: "hash_order \<Rightarrow> bridge_op list \<Rightarrow> rec_record list" where
  "cap_records order ops = logger_run Cap (bridge_new CapProvider []) order \<lparr>wd_spans = [], wd_emitted = []\<rparr> [] ops"

text \<open>Inside spans, the innermost first, as the registry scopes them.\<close>

definition in_spans :: "nat list \<Rightarrow> span_ref option" where
  "in_spans is = Some \<lparr>sr_id = hd is, scope = is\<rparr>"

definition says :: "level \<Rightarrow> field list \<Rightarrow> rstring \<Rightarrow> span_ref option \<Rightarrow> bridge_op" where
  "says l fds message sp =
     EmitEvent \<lparr>te_meta = \<lparr>md_name = lit ''event'', md_target = lit ''otel_bootstrap::log_bridge::tests'', md_level = l\<rparr>,
       te_fields = display_field (lit ''message'') message # fds\<rparr> sp"

fun attr_str_in :: "(rstring \<times> any_value) list \<Rightarrow> rstring \<Rightarrow> rstring option" where
  "attr_str_in [] key = None"
| "attr_str_in ((k, AvString s) # as) key = (if k = key then Some s else attr_str_in as key)"
| "attr_str_in (_ # as) key = attr_str_in as key"

definition attr_str :: "captured_record \<Rightarrow> rstring \<Rightarrow> rstring option" where
  "attr_str lr key = attr_str_in (cr_attributes lr) key"

section \<open>Tests of the bridge\<close>

definition request_id_tracing_field_propagates_to_log_record :: "hash_order \<Rightarrow> bool" where
  "request_id_tracing_field_propagates_to_log_record order \<longleftrightarrow>
     (let recs = records [lit ''request.id''] order
            [NewSpan [str_field (lit ''request.id'') (lit ''test-uuid-1234'')],
             says INFO [] (lit ''hello from inside the span'') (in_spans [0])]
      in recs \<noteq> [] \<and> attr_str (hd recs) (lit ''request.id'') = Some (lit ''test-uuid-1234''))"

definition span_log_attrs_propagate_to_log_record :: "hash_order \<Rightarrow> bool" where
  "span_log_attrs_propagate_to_log_record order \<longleftrightarrow>
     (let recs = records [] order
            [NewSpan [], RecordAttr (Some 0) (lit ''x-custom'') (AvString (lit ''val'')), says INFO [] (lit ''inside'') (in_spans [0])]
      in recs \<noteq> [] \<and> attr_str (hd recs) (lit ''x-custom'') = Some (lit ''val''))"

definition span_log_attrs_update_existing_key :: "hash_order \<Rightarrow> bool" where
  "span_log_attrs_update_existing_key order \<longleftrightarrow>
     (let recs = records [] order
            [NewSpan [], RecordAttr (Some 0) (lit ''k'') (AvString (lit ''first'')),
             RecordAttr (Some 0) (lit ''k'') (AvString (lit ''second'')), says INFO [] (lit ''inside'') (in_spans [0])];
          vals = filter (\<lambda>(k, v). k = lit ''k'') (cr_attributes (hd recs))
      in recs \<noteq> [] \<and> length vals = 1 \<and> snd (hd vals) = AvString (lit ''second''))"

definition record_span_log_attr_current_span_no_op_outside_span :: "bool \<Rightarrow> world \<Rightarrow> bool" where
  "record_span_log_attr_current_span_no_op_outside_span backed w \<longleftrightarrow>
     record_span_log_attr backed None (lit ''k'') (AvString (lit ''v'')) w = w"

definition on_new_span_non_matching_fields_no_extension_inserted :: "hash_order \<Rightarrow> bool" where
  "on_new_span_non_matching_fields_no_extension_inserted order \<longleftrightarrow>
     (let recs = records [lit ''request.id''] order [NewSpan [], says INFO [] (lit ''msg'') (in_spans [0])]
      in recs \<noteq> [] \<and> attr_str (hd recs) (lit ''request.id'') = None)"

definition log_outside_span_no_panic :: "hash_order \<Rightarrow> bool" where
  "log_outside_span_no_panic order \<longleftrightarrow> records [lit ''request.id''] order [says INFO [] (lit ''no span active'') None] \<noteq> []"

definition nested_span_outer_field_appears_in_inner_log :: "hash_order \<Rightarrow> bool" where
  "nested_span_outer_field_appears_in_inner_log order \<longleftrightarrow>
     (let recs = records [lit ''request.id''] order
            [NewSpan [str_field (lit ''request.id'') (lit ''outer-id'')], NewSpan [],
             says INFO [] (lit ''deep log'') (in_spans [1, 0])]
      in recs \<noteq> [] \<and> attr_str (hd recs) (lit ''request.id'') = Some (lit ''outer-id''))"

definition one_field :: "hash_order \<Rightarrow> field \<Rightarrow> captured_record list" where
  "one_field order fd = records [] order [says INFO [fd] (lit ''msg'') None]"

definition log_record_visitor_bool_field :: "hash_order \<Rightarrow> bool" where
  "log_record_visitor_bool_field order \<longleftrightarrow>
     (let recs = one_field order \<lparr>fd_name = lit ''flag'', fd_value = BoolV True, fd_debug = lit ''true''\<rparr>
      in recs \<noteq> [] \<and> list_ex (\<lambda>(k, v). k = lit ''flag'' \<and> v = AvBool True) (cr_attributes (hd recs)))"

definition log_record_visitor_i64_field :: "hash_order \<Rightarrow> bool" where
  "log_record_visitor_i64_field order \<longleftrightarrow>
     (let recs = one_field order \<lparr>fd_name = lit ''count'', fd_value = I64V 42, fd_debug = lit ''42''\<rparr>
      in recs \<noteq> [] \<and> list_ex (\<lambda>(k, v). k = lit ''count'' \<and> v = AvInt 42) (cr_attributes (hd recs)))"

text \<open>The bits of the double 0.5.\<close>

definition log_record_visitor_f64_field :: "hash_order \<Rightarrow> bool" where
  "log_record_visitor_f64_field order \<longleftrightarrow>
     (let half = 4602678819172646912;
          recs = one_field order \<lparr>fd_name = lit ''ratio'', fd_value = F64V half, fd_debug = lit ''0.5''\<rparr>
      in recs \<noteq> [] \<and> list_ex (\<lambda>(k, v). k = lit ''ratio'' \<and> v = AvDouble half) (cr_attributes (hd recs)))"

definition log_record_visitor_message_becomes_body :: "hash_order \<Rightarrow> bool" where
  "log_record_visitor_message_becomes_body order \<longleftrightarrow>
     (let recs = records [] order [says INFO [] (lit ''the body text'') None]
      in recs \<noteq> [] \<and> cr_body (hd recs) = Some (AvString (lit ''the body text'')))"

definition one_severity :: "hash_order \<Rightarrow> level \<Rightarrow> rstring \<Rightarrow> severity option" where
  "one_severity order l message =
     (case records [] order [says l [] message None] of [] \<Rightarrow> None | lr # lrs \<Rightarrow> cr_severity lr)"

definition severity_warn :: "hash_order \<Rightarrow> bool" where
  "severity_warn order \<longleftrightarrow> one_severity order WARN (lit ''warn msg'') = Some SevWarn"

definition severity_error :: "hash_order \<Rightarrow> bool" where
  "severity_error order \<longleftrightarrow> one_severity order ERROR (lit ''err msg'') = Some SevError"

definition severity_debug :: "hash_order \<Rightarrow> bool" where
  "severity_debug order \<longleftrightarrow> one_severity order DEBUG (lit ''dbg msg'') = Some SevDebug"

definition severity_trace :: "hash_order \<Rightarrow> bool" where
  "severity_trace order \<longleftrightarrow> one_severity order TRACE (lit ''trc msg'') = Some SevTrace"

section \<open>Tests of the enrichment\<close>

definition emit_request_id_on_populates_span_log_attrs :: "hash_order \<Rightarrow> bool" where
  "emit_request_id_on_populates_span_log_attrs order \<longleftrightarrow>
     (let recs = cap_records order [NewSpan [], RequestId (Some 0) (lit ''req-id-abc''), says INFO [] (lit ''after emit'') (in_spans [0])]
      in recs \<noteq> [] \<and> list_ex (\<lambda>(k, v). k = REQUEST_ID \<and> v = AvString (lit ''req-id-abc'')) (rc_attributes (hd recs)))"

definition emit_request_id_current_span :: "hash_order \<Rightarrow> bool" where
  "emit_request_id_current_span order \<longleftrightarrow>
     (let w = emit_request_id True (Some 0) (lit ''current-id-xyz'') (bridge_run [] order [NewSpan []]);
          recs = logger_run Cap (bridge_new CapProvider []) order w [] [says INFO [] (lit ''after emit'') (in_spans [0])]
      in recs \<noteq> [] \<and> list_ex (\<lambda>(k, v). k = REQUEST_ID \<and> v = AvString (lit ''current-id-xyz'')) (rc_attributes (hd recs)))"

definition span_log_attrs_accessible_from_extensions :: "hash_order \<Rightarrow> bool" where
  "span_log_attrs_accessible_from_extensions order \<longleftrightarrow>
     (let w = bridge_run [] order [NewSpan [], RecordAttr (Some 0) (lit ''probe'') (AvString (lit ''ok''))]
      in case sd_log_attrs (wd_spans w ! 0) of None \<Rightarrow> False | Some attrs \<Rightarrow> length attrs = 1)"

section \<open>They pass\<close>

text \<open>What the tests look at is what the bridge emitted.\<close>

lemma captured_is_emitted:
  "map cr_attributes (records fds order ops) = map lr_attrs (wd_emitted (bridge_run fds order ops))"
  "list_all2 capturing.same (records fds order ops) (wd_emitted (bridge_run fds order ops))"
  "map rc_attributes (cap_records order ops) = map lr_attrs (wd_emitted (bridge_run [] order ops))"
  unfolding records_def cap_records_def bridge_run_def bridge_new_def CapturingLoggerProvider_def CapProvider_def
  by (rule capturing.attrs_run, simp) (rule capturing.same_run, simp, rule cap.attrs_run, simp)

lemmas bridge_eval = records_def cap_records_def emit_event_def write_event_def visit_into_def inject_into_def add_each_def
  bridge_new_def CapturingLoggerProvider_def CapProvider_def
  CapturingLogRecord_def CapturingLogger_def Cap_def CapLogger_def bridge_run_def says_def one_field_def one_severity_def Let_def
  on_new_span_def span_opened_def no_extensions_def extensions_def in_spans_def record_span_log_attr_on_def set_attribute_def emit_request_id_on_def emit_request_id_def
  on_event_def new_log_record_def inject_span_context_def span_attrs_def field_collector_visit_def
  log_record_visit_def add_attribute_def attr_str_def display_field_def str_field_def severity_of_level_def REQUEST_ID_def

lemma log_bridge_tests_pass:
  assumes "\<And>i xs. mset (order i xs) = mset xs"
  shows "request_id_tracing_field_propagates_to_log_record order" "span_log_attrs_propagate_to_log_record order"
    "span_log_attrs_update_existing_key order" "on_new_span_non_matching_fields_no_extension_inserted order"
    "log_outside_span_no_panic order" "nested_span_outer_field_appears_in_inner_log order"
    "log_record_visitor_bool_field order" "log_record_visitor_i64_field order" "log_record_visitor_f64_field order"
    "log_record_visitor_message_becomes_body order" "severity_warn order" "severity_error order" "severity_debug order"
    "severity_trace order" "emit_request_id_on_populates_span_log_attrs order" "emit_request_id_current_span order"
    "span_log_attrs_accessible_from_extensions order"
proof -
  have order: "order i [] = []" "order i [x] = [x]" for i x
    using assms [of i "[]"] assms [of i "[x]"] by simp_all
  show "request_id_tracing_field_propagates_to_log_record order" "span_log_attrs_propagate_to_log_record order"
    "span_log_attrs_update_existing_key order" "on_new_span_non_matching_fields_no_extension_inserted order"
    "log_outside_span_no_panic order" "nested_span_outer_field_appears_in_inner_log order"
    by (simp_all add: request_id_tracing_field_propagates_to_log_record_def span_log_attrs_propagate_to_log_record_def
        span_log_attrs_update_existing_key_def on_new_span_non_matching_fields_no_extension_inserted_def
        log_outside_span_no_panic_def nested_span_outer_field_appears_in_inner_log_def bridge_eval order)
  show "log_record_visitor_bool_field order" "log_record_visitor_i64_field order" "log_record_visitor_f64_field order"
    "log_record_visitor_message_becomes_body order" "severity_warn order" "severity_error order" "severity_debug order"
    "severity_trace order"
    by (simp_all add: log_record_visitor_bool_field_def log_record_visitor_i64_field_def log_record_visitor_f64_field_def
        log_record_visitor_message_becomes_body_def severity_warn_def severity_error_def severity_debug_def severity_trace_def
        bridge_eval)
  show "emit_request_id_on_populates_span_log_attrs order" "emit_request_id_current_span order"
    "span_log_attrs_accessible_from_extensions order"
    by (simp_all add: emit_request_id_on_populates_span_log_attrs_def emit_request_id_current_span_def
        span_log_attrs_accessible_from_extensions_def bridge_eval order)
qed

lemma no_span_passes: "record_span_log_attr_current_span_no_op_outside_span backed w"
  by (simp add: record_span_log_attr_current_span_no_op_outside_span_def record_span_log_attr_def record_span_log_attr_on_def)

end
