(* ===== verification/MtlsTests.thy ===== *)
theory MtlsTests
  imports Mtls
begin

text \<open>
  The unit tests of \<open>src/src/rotating_mtls.rs\<close>, each as what it asserts of the model, under
  its own name, with the test's certificates as numbers and its server as the handshake of the
  libraries' environment.
\<close>

section \<open>The fixtures\<close>

definition STRANGER_CA :: nat where "STRANGER_CA = 1"
definition CA :: nat where "CA = 2"
definition SERVER_CERT :: nat where "SERVER_CERT = 3"
definition SERVER_KEY :: nat where "SERVER_KEY = 14"
definition CLIENT_ONE_CERT :: nat where "CLIENT_ONE_CERT = 4"
definition CLIENT_ONE_KEY :: nat where "CLIENT_ONE_KEY = 11"
definition CLIENT_TWO_CERT :: nat where "CLIENT_TWO_CERT = 5"
definition CLIENT_TWO_KEY :: nat where "CLIENT_TWO_KEY = 12"
definition PINNED_CA :: nat where "PINNED_CA = 6"
definition PINNED_CLIENT_CERT :: nat where "PINNED_CLIENT_CERT = 7"
definition PINNED_CLIENT_KEY :: nat where "PINNED_CLIENT_KEY = 13"
definition SERVER_MATCH :: nat where "SERVER_MATCH = 8"
definition SERVER_MATCH_KEY :: nat where "SERVER_MATCH_KEY = 15"
definition SERVER_OTHER :: nat where "SERVER_OTHER = 9"
definition SERVER_OTHER_KEY :: nat where "SERVER_OTHER_KEY = 16"
definition SERVER_NOURI :: nat where "SERVER_NOURI = 10"
definition SERVER_NOURI_KEY :: nat where "SERVER_NOURI_KEY = 17"

lemmas fixture_defs = STRANGER_CA_def CA_def SERVER_CERT_def CLIENT_ONE_CERT_def CLIENT_TWO_CERT_def PINNED_CA_def
  PINNED_CLIENT_CERT_def SERVER_MATCH_def SERVER_OTHER_def SERVER_NOURI_def

definition COLLECTOR_ID :: rstring where
  "COLLECTOR_ID = lit ''spiffe://brefwiz.e2e/otel-collector''"

definition IMPOSTOR_ID :: rstring where
  "IMPOSTOR_ID = lit ''spiffe://brefwiz.e2e/impostor''"

definition issuer :: "nat \<Rightarrow> nat" where
  "issuer c = (if c \<in> {SERVER_CERT, CLIENT_ONE_CERT, CLIENT_TWO_CERT} then CA
     else if c \<in> {PINNED_CLIENT_CERT, SERVER_MATCH, SERVER_OTHER, SERVER_NOURI} then PINNED_CA else c)"

definition names_of :: "nat \<Rightarrow> general_name list" where
  "names_of c = OtherName # (if c = SERVER_MATCH then [UriName COLLECTOR_ID]
     else if c = SERVER_OTHER then [UriName IMPOSTOR_ID] else [])"

definition material :: "bytes \<Rightarrow> bytes \<Rightarrow> bytes \<Rightarrow> mtls_material" where
  "material cert key bundle = \<lparr>client_cert_chain_pem = cert, client_key_pem = key, trust_bundle_pem = bundle\<rparr>"

definition client_one :: mtls_material where "client_one = material [CLIENT_ONE_CERT] [CLIENT_ONE_KEY] [CA]"
definition client_two :: mtls_material where "client_two = material [CLIENT_TWO_CERT] [CLIENT_TWO_KEY] [CA]"

section \<open>The server\<close>

text \<open>
  \<open>server_with\<close>: the configuration of the server, \<open>None\<close> where an \<open>unwrap\<close> fails, and the task
  that accepts connections and notes the first certificate of each client whose handshake ends.
\<close>

record ('cert, 'key) server_config =
  sc_roots :: "'cert list"
  sc_chain :: "'cert list"
  sc_key :: 'key
  sc_alpn :: "bytes list"

definition server_with ::
    "('cert, 'key) tls_env \<Rightarrow> bytes \<Rightarrow> bytes \<Rightarrow> bytes \<Rightarrow> ('cert, 'key) server_config option" where
  "server_with env server_cert server_key client_ca =
     (case (pem_certs env client_ca, pem_certs env server_cert, pem_key env server_key) of
        (Inr ca # cas, certs, Inr key) \<Rightarrow>
          if isl (anchor_ok env ca) \<or> isl (protocol_versions env) \<or> list_ex isl certs then None
          else Some \<lparr>sc_roots = [ca], sc_chain = map projr certs, sc_key = key, sc_alpn = [lit ''h2'']\<rparr>
      | _ \<Rightarrow> None)"

definition accept_one :: "('tcp \<Rightarrow> rstring + 'cert list option) \<Rightarrow> 'cert list \<Rightarrow> 'tcp \<Rightarrow> 'cert list" where
  "accept_one tls_accept seen tcp =
     (case tls_accept tcp of
        Inl e \<Rightarrow> seen
      | Inr peer_certificates \<Rightarrow>
          (case peer_certificates of Some (leaf # chain) \<Rightarrow> seen @ [leaf] | _ \<Rightarrow> seen))"

text \<open>What the server saw of some calls of a connector: each handshake that a call starts reaches it.\<close>

definition handshakes :: "(('cert, 'key) net_effect list \<times> (rstring + 'cert list option)) list \<Rightarrow> ('cert, 'key) tls_config list" where
  "handshakes cs = concat (map (\<lambda>(eff, r). List.map_filter (\<lambda>e. case e of Handshake cfg host \<Rightarrow> Some cfg | _ \<Rightarrow> None) eff) cs)"

definition server_seen ::
    "(('cert, 'key) tls_config \<Rightarrow> rstring + 'cert list option)
      \<Rightarrow> (('cert, 'key) net_effect list \<times> (rstring + 'cert list option)) list \<Rightarrow> 'cert list" where
  "server_seen tls_accept cs = foldl (accept_one tls_accept) [] (handshakes cs)"

text \<open>
  The libraries: a text in PEM is the list of its certificates, and the two ends of a handshake agree
  when the client's roots hold the issuer of the server's leaf and the server's roots that of the client's.
\<close>

definition agree :: "(nat, nat) server_config \<Rightarrow> (nat, nat) tls_config \<Rightarrow> bool" where
  "agree sc cfg \<longleftrightarrow> (\<exists>c \<in> set (take 1 (sc_chain sc)). issuer c \<in> set (tc_roots cfg))
     \<and> (\<exists>c \<in> set (take 1 (tc_chain cfg)). issuer c \<in> set (sc_roots sc))"

definition pem_env :: "(nat, nat) tls_env" where
  "pem_env =
     \<lparr>pem_certs = map Inr, anchor_ok = (\<lambda>_. Inr ()), pem_key = (\<lambda>b. case b of [] \<Rightarrow> Inl (lit ''no key'') | k # _ \<Rightarrow> Inr k),
      protocol_versions = Inr (), client_auth = (\<lambda>_ _. Inr ()), dial = (\<lambda>_ _. Inr ()), set_nodelay = Inr (),
      server_name = (\<lambda>_. Inr ()), handshake = (\<lambda>cfg host. Inl (lit ''no server'')),
      cert_sans = (\<lambda>c. Inr (Inr (Some (names_of c))))\<rparr>"

text \<open>The client's end and the server's end, with a server listening.\<close>

definition client_end :: "(nat, nat) server_config option \<Rightarrow> (nat, nat) tls_env" where
  "client_end server = (case server of None \<Rightarrow> pem_env
     | Some sc \<Rightarrow> pem_env\<lparr>handshake := (\<lambda>cfg host. if agree sc cfg then Inr (Some (sc_chain sc)) else Inl (lit ''handshake failure''))\<rparr>)"

definition server_end :: "(nat, nat) server_config option \<Rightarrow> (nat, nat) tls_config \<Rightarrow> rstring + nat list option" where
  "server_end server cfg = (case server of None \<Rightarrow> Inl (lit ''no server'')
     | Some sc \<Rightarrow> if agree sc cfg then Inr (Some (tc_chain cfg)) else Inl (lit ''handshake failure''))"

text \<open>A network: the environment of a client, by the server that listens.\<close>

type_synonym network = "(nat, nat) server_config option \<Rightarrow> (nat, nat) tls_env"

definition server :: "network \<Rightarrow> (nat, nat) server_config option" where
  "server net = server_with (net None) [SERVER_CERT] [SERVER_KEY] [CA]"

text \<open>\<open>Swappable\<close>: the content of the cell at each connection.\<close>

definition Swappable :: "mtls_material option list \<Rightarrow> cert_source" where
  "Swappable contents n = contents ! n"

definition test_uri :: "nat \<Rightarrow> uri" where
  "test_uri port = \<lparr>ur_host = Some (lit ''localhost''), ur_port = Some port, ur_authority = Some (lit ''localhost'')\<rparr>"

record pki =
  pk_ca :: bytes
  pk_server_cert :: bytes
  pk_server_key :: bytes
  pk_client :: mtls_material

definition pki_of :: "rstring option \<Rightarrow> pki" where
  "pki_of server_uri =
     (let (server_cert, server_key) =
        (case server_uri of
           Some u \<Rightarrow> if u = COLLECTOR_ID then ([SERVER_MATCH], [SERVER_MATCH_KEY]) else ([SERVER_OTHER], [SERVER_OTHER_KEY])
         | None \<Rightarrow> ([SERVER_NOURI], [SERVER_NOURI_KEY]))
      in \<lparr>pk_ca = [PINNED_CA], pk_server_cert = server_cert, pk_server_key = server_key,
          pk_client = material [PINNED_CLIENT_CERT] [PINNED_CLIENT_KEY] [PINNED_CA]\<rparr>)"

definition pki_server :: "network \<Rightarrow> pki \<Rightarrow> (nat, nat) server_config option" where
  "pki_server net pki = server_with (net None) (pk_server_cert pki) (pk_server_key pki) (pk_ca pki)"

definition pinned :: "pki \<Rightarrow> rstring option \<Rightarrow> connector" where
  "pinned pki expected = \<lparr>cn_source = static_cert_source (pk_client pki), cn_expected_id = expected\<rparr>"

text \<open>The result of one call of a connector.\<close>

definition one_call :: "(nat, nat) tls_env \<Rightarrow> bool \<Rightarrow> connector \<Rightarrow> nat \<Rightarrow> rstring + nat list option" where
  "one_call env warned cn port = snd (hd (connections env cn warned 0 [test_uri port]))"

section \<open>The tests\<close>

definition each_new_connection_presents_the_material_current_at_that_moment ::
    "network \<Rightarrow> ((nat, nat) server_config option \<Rightarrow> (nat, nat) tls_config \<Rightarrow> rstring + nat list option) \<Rightarrow> bool \<Rightarrow> nat \<Rightarrow> bool" where
  "each_new_connection_presents_the_material_current_at_that_moment net accept warned port \<longleftrightarrow>
     (let cn = \<lparr>cn_source = Swappable [Some client_one, Some client_two], cn_expected_id = None\<rparr>;
          cs = connections (net (server net)) cn warned 0 [test_uri port, test_uri port]
      in list_all (\<lambda>(eff, r). \<not> isl r) cs \<and> server_seen (accept (server net)) cs = [CLIENT_ONE_CERT, CLIENT_TWO_CERT])"

definition a_source_not_ready_at_first_connect_fails_that_attempt_then_connects_once_ready ::
    "network \<Rightarrow> ((nat, nat) server_config option \<Rightarrow> (nat, nat) tls_config \<Rightarrow> rstring + nat list option) \<Rightarrow> bool \<Rightarrow> nat \<Rightarrow> bool" where
  "a_source_not_ready_at_first_connect_fails_that_attempt_then_connects_once_ready net accept warned port \<longleftrightarrow>
     (let cn = \<lparr>cn_source = Swappable [None, Some client_one], cn_expected_id = None\<rparr>;
          cs = connections (net (server net)) cn warned 0 [test_uri port, test_uri port]
      in (case snd (cs ! 0) of Inl e \<Rightarrow> contains e (lit ''not available yet'') | Inr p \<Rightarrow> False)
         \<and> server_seen (accept (server net)) (take 1 cs) = [] \<and> \<not> isl (snd (cs ! 1)))"

definition a_bundle_of_several_certificates_trusts_each_of_them :: "network \<Rightarrow> bool \<Rightarrow> nat \<Rightarrow> bool" where
  "a_bundle_of_several_certificates_trusts_each_of_them net warned port \<longleftrightarrow>
     (let cn = \<lparr>cn_source = static_cert_source (material [CLIENT_ONE_CERT] [CLIENT_ONE_KEY] ([STRANGER_CA] @ [CA])), cn_expected_id = None\<rparr>
      in \<not> isl (one_call (net (server net)) warned cn port))"

definition a_server_the_bundle_does_not_vouch_for_is_refused :: "network \<Rightarrow> bool \<Rightarrow> nat \<Rightarrow> bool" where
  "a_server_the_bundle_does_not_vouch_for_is_refused net warned port \<longleftrightarrow>
     (let cn = \<lparr>cn_source = static_cert_source (material [CLIENT_ONE_CERT] [CLIENT_ONE_KEY] [STRANGER_CA]), cn_expected_id = None\<rparr>
      in isl (one_call (net (server net)) warned cn port))"

definition malformed_material_is_an_error_not_a_panic :: "(nat, nat) tls_env \<Rightarrow> bool" where
  "malformed_material_is_an_error_not_a_panic env \<longleftrightarrow>
     (case client_config env \<lparr>client_cert_chain_pem = [120], client_key_pem = [120], trust_bundle_pem = []\<rparr> of
        Inl e \<Rightarrow> contains e (lit ''no certificates'') | Inr cfg \<Rightarrow> False)"

definition static_source_returns_its_material :: "nat \<Rightarrow> bool" where
  "static_source_returns_its_material n \<longleftrightarrow>
     (case static_cert_source client_one n of None \<Rightarrow> False
      | Some got \<Rightarrow> client_cert_chain_pem got = client_cert_chain_pem client_one)"

definition a_collector_carrying_the_expected_spiffe_id_is_accepted :: "network \<Rightarrow> bool \<Rightarrow> nat \<Rightarrow> bool" where
  "a_collector_carrying_the_expected_spiffe_id_is_accepted net warned port \<longleftrightarrow>
     (let pki = pki_of (Some COLLECTOR_ID)
      in \<not> isl (one_call (net (pki_server net pki)) warned (pinned pki (Some COLLECTOR_ID)) port))"

definition a_collector_with_another_spiffe_id_is_refused_though_chain_and_dns_hold :: "network \<Rightarrow> bool \<Rightarrow> nat \<Rightarrow> bool" where
  "a_collector_with_another_spiffe_id_is_refused_though_chain_and_dns_hold net warned port \<longleftrightarrow>
     (let pki = pki_of (Some IMPOSTOR_ID); env = net (pki_server net pki)
      in \<not> isl (one_call env warned (pinned pki None) port)
         \<and> (case one_call env warned (pinned pki (Some COLLECTOR_ID)) port of
              Inl e \<Rightarrow> contains e (lit ''identity mismatch'') \<and> contains e (lit ''impostor'') | Inr p \<Rightarrow> False))"

definition a_collector_with_no_spiffe_id_is_refused_when_one_is_expected :: "network \<Rightarrow> bool \<Rightarrow> nat \<Rightarrow> bool" where
  "a_collector_with_no_spiffe_id_is_refused_when_one_is_expected net warned port \<longleftrightarrow>
     (let pki = pki_of None
      in case one_call (net (pki_server net pki)) warned (pinned pki (Some COLLECTOR_ID)) port of
           Inl e \<Rightarrow> contains e (lit ''identity mismatch'') | Inr p \<Rightarrow> False)"

definition without_an_expected_id_chain_and_dns_name_are_enough :: "network \<Rightarrow> bool \<Rightarrow> nat \<Rightarrow> bool" where
  "without_an_expected_id_chain_and_dns_name_are_enough net warned port \<longleftrightarrow>
     (let pki = pki_of None in \<not> isl (one_call (net (pki_server net pki)) warned (pinned pki None) port))"

definition channel_rejects_an_endpoint_without_a_host ::
    "(rstring \<Rightarrow> rstring + uri) \<Rightarrow> (rstring \<Rightarrow> rstring + unit) \<Rightarrow> bool" where
  "channel_rejects_an_endpoint_without_a_host parse_uri from_shared \<longleftrightarrow>
     isl (make_channel parse_uri from_shared (lit ''not a uri'') (\<lambda>n. None) None None)
     \<and> \<not> isl (make_channel parse_uri from_shared (lit ''https://collector.example:4320'') (\<lambda>n. None) (Some (from_secs 3)) None)"

section \<open>They pass\<close>

lemma issuers [simp]:
  "issuer SERVER_CERT = CA" "issuer CLIENT_ONE_CERT = CA" "issuer CLIENT_TWO_CERT = CA" "issuer PINNED_CLIENT_CERT = PINNED_CA"
  "issuer SERVER_MATCH = PINNED_CA" "issuer SERVER_OTHER = PINNED_CA" "issuer SERVER_NOURI = PINNED_CA" "STRANGER_CA \<noteq> CA"
  "CA \<noteq> STRANGER_CA"
  by (simp_all add: issuer_def fixture_defs)

text \<open>A server with one leaf and one root; both ends need the other's issuer.\<close>

definition listening :: "nat \<Rightarrow> nat \<Rightarrow> nat \<Rightarrow> (nat, nat) server_config" where
  "listening sc key ca = \<lparr>sc_roots = [ca], sc_chain = [sc], sc_key = key, sc_alpn = [lit ''h2'']\<rparr>"

lemma server_listens: "server client_end = Some (listening SERVER_CERT SERVER_KEY CA)"
  by (simp add: server_def server_with_def client_end_def pem_env_def listening_def)

lemma pki_listens: "pki_server client_end pki =
    (case (pk_ca pki, pk_server_cert pki, pk_server_key pki) of
       (ca # cas, scs, key # keys) \<Rightarrow> Some \<lparr>sc_roots = [ca], sc_chain = scs, sc_key = key, sc_alpn = [lit ''h2'']\<rparr> | _ \<Rightarrow> None)"
  by (simp add: pki_server_def server_with_def client_end_def pem_env_def list_ex_iff o_def split: list.split)

lemma client_end_fields [simp]:
  "pem_certs (client_end s) b = map Inr b" "pem_key (client_end s) (k # ks) = Inr k"
  "protocol_versions (client_end s) = Inr ()" "client_auth (client_end s) chain key = Inr ()"
  "dial (client_end s) h p = Inr ()" "set_nodelay (client_end s) = Inr ()"
  "server_name (client_end s) h = Inr ()" "anchor_ok (client_end s) c = Inr ()"
  "cert_sans (client_end s) c = Inr (Inr (Some (names_of c)))"
  "handshake (client_end (Some (listening sc key ca))) cfg host =
     (if agree (listening sc key ca) cfg then Inr (Some [sc]) else Inl (lit ''handshake failure''))"
  by (simp_all add: client_end_def pem_env_def listening_def split: option.split)

lemma agree_one [simp]: "agree (listening sc key ca) \<lparr>tc_roots = bund, tc_chain = [c], tc_key = k, tc_alpn = al\<rparr>
    \<longleftrightarrow> issuer sc \<in> set bund \<and> issuer c = ca"
  by (simp add: agree_def listening_def)

lemma connect_server:
  "connect (client_end (Some (listening sc key ca))) warned (Some (material [c] [k] bund)) ex (test_uri port) =
     (if bund = [] then ([], warned, Inl (lit ''mTLS trust bundle holds no certificates''))
      else let cfg = \<lparr>tc_roots = bund, tc_chain = [c], tc_key = k, tc_alpn = [lit ''h2'']\<rparr>;
               eff = [Dialled (lit ''localhost'') port, Handshake cfg (lit ''localhost'')]
           in if issuer sc \<in> set bund \<and> issuer c = ca then
                (case ex of
                   None \<Rightarrow> (eff @ (if warned then [] else [WarnUnpinned]), True, Inr (Some [sc]))
                 | Some ident \<Rightarrow> (case require_spiffe_id (client_end (Some (listening sc key ca))) (Some [sc]) ident of
                     Inl e \<Rightarrow> (eff, warned, Inl e) | Inr u \<Rightarrow> (eff, warned, Inr (Some [sc]))))
              else (eff, warned, Inl (lit ''handshake failure'')))"
proof -
  let ?env = "client_end (Some (listening sc key ca))"
  have add_all: "add_roots ?env (map Inr cs) roots = Inr (roots @ cs)" for cs roots
    by (induction cs arbitrary: roots) simp_all
  have "client_config ?env (material [c] [k] bund) =
     (if bund = [] then Inl (lit ''mTLS trust bundle holds no certificates'')
      else Inr \<lparr>tc_roots = bund, tc_chain = [c], tc_key = k, tc_alpn = [lit ''h2'']\<rparr>)"
    using add_all[of bund "[]"] by (simp add: client_config_def material_def)
  then show ?thesis
    by (simp add: connect_def test_uri_def ok_or_def unwrap_or_def Let_def split: option.split sum.split)
qed

lemmas connections_eval = client_one_def client_two_def connect_server static_cert_source_def Swappable_def
  server_seen_def handshakes_def List.map_filter_def accept_one_def server_end_def one_call_def Let_def case_prod_beta

lemma rotation_tests_pass:
  "each_new_connection_presents_the_material_current_at_that_moment client_end server_end warned port"
  "a_source_not_ready_at_first_connect_fails_that_attempt_then_connects_once_ready client_end server_end warned port"
  "a_bundle_of_several_certificates_trusts_each_of_them client_end warned port"
  "a_server_the_bundle_does_not_vouch_for_is_refused client_end warned port"
proof -
  have "contains (lit ''mTLS material is not available yet'') (lit ''not available yet'')"
    by (simp add: lit_def)
  then show "a_source_not_ready_at_first_connect_fails_that_attempt_then_connects_once_ready client_end server_end warned port"
    by (simp add: a_source_not_ready_at_first_connect_fails_that_attempt_then_connects_once_ready_def server_listens
        connections_eval connect_def [of _ _ None] test_uri_def [of port] connect_server [unfolded test_uri_def])
qed (simp_all add: each_new_connection_presents_the_material_current_at_that_moment_def
       a_bundle_of_several_certificates_trusts_each_of_them_def a_server_the_bundle_does_not_vouch_for_is_refused_def
       server_listens connections_eval)

lemma malformed_passes:
  assumes "pem_certs env [] = []"
  shows "malformed_material_is_an_error_not_a_panic env"
proof -
  have "contains (lit ''mTLS trust bundle holds no certificates'') (lit ''no certificates'')" by (simp add: lit_def)
  then show ?thesis by (simp add: malformed_material_is_an_error_not_a_panic_def client_config_def assms)
qed

lemma static_source_passes: "static_source_returns_its_material n"
  by (simp add: static_source_returns_its_material_def static_cert_source_def)

lemma ids: "COLLECTOR_ID \<noteq> IMPOSTOR_ID" "IMPOSTOR_ID \<noteq> COLLECTOR_ID"
  by (simp_all add: COLLECTOR_ID_def IMPOSTOR_ID_def lit_def)

lemma names [simp]:
  "names_of SERVER_MATCH = [OtherName, UriName COLLECTOR_ID]" "names_of SERVER_OTHER = [OtherName, UriName IMPOSTOR_ID]"
  "names_of SERVER_NOURI = [OtherName]"
  by (simp_all add: names_of_def fixture_defs)

lemma mismatch:
  "contains (lit ''collector identity mismatch: expected '' @ COLLECTOR_ID @ lit '', certificate carries ['' @ IMPOSTOR_ID @ lit '']'')
     (lit ''impostor'')"
  "contains (lit ''collector identity mismatch: expected '' @ s) (lit ''identity mismatch'')"
  by (simp_all add: COLLECTOR_ID_def IMPOSTOR_ID_def lit_def)

lemma pki_cases:
  "pki_server client_end (pki_of (Some COLLECTOR_ID)) = Some (listening SERVER_MATCH SERVER_MATCH_KEY PINNED_CA)"
  "pki_server client_end (pki_of (Some IMPOSTOR_ID)) = Some (listening SERVER_OTHER SERVER_OTHER_KEY PINNED_CA)"
  "pki_server client_end (pki_of None) = Some (listening SERVER_NOURI SERVER_NOURI_KEY PINNED_CA)"
  "pk_client (pki_of u) = material [PINNED_CLIENT_CERT] [PINNED_CLIENT_KEY] [PINNED_CA]"
  by (simp_all add: pki_listens pki_of_def listening_def ids case_prod_beta)

lemma identity_tests_pass:
  "a_collector_carrying_the_expected_spiffe_id_is_accepted client_end warned port"
  "a_collector_with_another_spiffe_id_is_refused_though_chain_and_dns_hold client_end warned port"
  "a_collector_with_no_spiffe_id_is_refused_when_one_is_expected client_end warned port"
  "without_an_expected_id_chain_and_dns_name_are_enough client_end warned port"
  using mismatch
  by (simp_all add: a_collector_carrying_the_expected_spiffe_id_is_accepted_def
      a_collector_with_another_spiffe_id_is_refused_though_chain_and_dns_hold_def
      a_collector_with_no_spiffe_id_is_refused_when_one_is_expected_def
      without_an_expected_id_chain_and_dns_name_are_enough_def pinned_def pki_cases connections_eval require_spiffe_id_def ids)

text \<open>What the parsers of the libraries say of the two endpoints.\<close>

lemma channel_passes:
  assumes "isl (parse_uri (lit ''not a uri''))" and "parse_uri (lit ''https://collector.example:4320'') = Inr u"
    and "ur_authority u = Some authority" and "from_shared (lit ''http://'' @ authority) = Inr ()"
  shows "channel_rejects_an_endpoint_without_a_host parse_uri from_shared"
  using assms
  by (cases "parse_uri (lit ''not a uri'')")
     (simp_all add: channel_rejects_an_endpoint_without_a_host_def make_channel_def bind_res_def ok_or_def)

end
