(* ===== verification/PortTests.thy ===== *)
theory PortTests
  imports Instrumented
begin

text \<open>
  The unit tests of \<open>src/src/instrumented_port.rs\<close>, each as what it asserts of the model,
  under its own name. The tracer that hands out the span contexts is an argument.
\<close>

section \<open>The adapter\<close>

type_synonym answer = "rstring + rstring"

definition adapter_wrap :: "unit \<Rightarrow> otel_context \<Rightarrow> answer" where
  "adapter_wrap self cx = Inr (lit ''wrapped'')"

definition adapter_unwrap :: "unit \<Rightarrow> otel_context \<Rightarrow> answer" where
  "adapter_unwrap self cx = Inl (lit ''boom'')"

section \<open>The exporter\<close>

text \<open>What a tracer hands an exporter of a span that ended: what it started with and what was recorded on it.\<close>

record captured_span =
  sp_context :: span_context
  sp_kind :: span_kind
  sp_name :: rstring
  sp_attributes :: "(rstring \<times> attr) list"
  sp_status :: "rstring option"

fun span_op_done :: "captured_span \<Rightarrow> span_op \<Rightarrow> captured_span" where
  "span_op_done span (SetError d) = span\<lparr>sp_status := Some d\<rparr>"
| "span_op_done span (SetAttr k v) = span\<lparr>sp_attributes := sp_attributes span @ [(k, v)]\<rparr>"

definition ended :: "(span_start \<Rightarrow> span_context) \<Rightarrow> ('e, 't) ported \<Rightarrow> captured_span" where
  "ended start pc =
     (let ss = pc_start pc
      in foldl span_op_done \<lparr>sp_context = start ss, sp_kind = ss_kind ss, sp_name = ss_name ss, sp_attributes = ss_attrs ss,
           sp_status = None\<rparr> (pc_ops pc))"

definition capturing_export :: "captured_span list \<Rightarrow> captured_span list \<Rightarrow> unit \<times> captured_span list" where
  "capturing_export batch spans = ((), spans @ batch)"

text \<open>The provider of the tests exports each span alone, as it ends.\<close>

definition install_capturing_tracer :: "(span_start \<Rightarrow> span_context) \<Rightarrow> ('e, 't) ported list \<Rightarrow> captured_span list" where
  "install_capturing_tracer start calls = foldl (\<lambda>spans pc. snd (capturing_export [ended start pc] spans)) [] calls"

definition has_attr :: "captured_span \<Rightarrow> rstring \<Rightarrow> rstring \<Rightarrow> bool" where
  "has_attr span key v = list_ex (\<lambda>kv. fst kv = key \<and> snd kv = AttrStr v) (sp_attributes span)"

section \<open>The tests\<close>

definition call_emits_client_span_with_operation_and_provider_hint ::
    "(span_start \<Rightarrow> span_context) \<Rightarrow> otel_context \<Rightarrow> bool" where
  "call_emits_client_span_with_operation_and_provider_hint start current \<longleftrightarrow>
     (let wrapped = instrumented_new () (lit ''KmsProvider'') (Some (lit ''aws-kms''));
          pc = port_call start current wrapped (lit ''wrap'') adapter_wrap;
          captured = install_capturing_tracer start [pc];
          span = captured ! 0
      in pc_result pc = Inr (lit ''wrapped'') \<and> length captured = 1
         \<and> sp_kind span = Client \<and> sp_name span = lit ''KmsProvider.wrap''
         \<and> has_attr span PORT_NAME (lit ''KmsProvider'')
         \<and> has_attr span PORT_OPERATION (lit ''wrap'')
         \<and> has_attr span PORT_PROVIDER_HINT (lit ''aws-kms''))"

definition call_records_error_status_and_returns_error_unchanged ::
    "(span_start \<Rightarrow> span_context) \<Rightarrow> otel_context \<Rightarrow> bool" where
  "call_records_error_status_and_returns_error_unchanged start current \<longleftrightarrow>
     (let wrapped = instrumented_new () (lit ''KmsProvider'') None;
          pc = port_call start current wrapped (lit ''unwrap'') adapter_unwrap;
          captured = install_capturing_tracer start [pc];
          span = captured ! 0
      in pc_result pc = Inl (lit ''boom'') \<and> length captured = 1
         \<and> sp_name span = lit ''KmsProvider.unwrap'' \<and> sp_status span \<noteq> None
         \<and> \<not> list_ex (\<lambda>kv. fst kv = PORT_PROVIDER_HINT) (sp_attributes span))"

definition call_mints_valid_trace_id_with_no_parent :: "(span_start \<Rightarrow> span_context) \<Rightarrow> bool" where
  "call_mints_valid_trace_id_with_no_parent start \<longleftrightarrow>
     (let wrapped = instrumented_new () (lit ''KmsProvider'') None;
          captured = install_capturing_tracer start [port_call start context_new wrapped (lit ''unwrap'') adapter_unwrap]
      in length captured = 1 \<and> sc_valid (sp_context (captured ! 0)))"

definition call_mints_fresh_trace_id_when_current_parent_is_invalid :: "(span_start \<Rightarrow> span_context) \<Rightarrow> bool" where
  "call_mints_fresh_trace_id_when_current_parent_is_invalid start \<longleftrightarrow>
     (let invalid_parent = with_span \<lparr>sc_trace_id = 0, sc_span_id = 0\<rparr> context_new;
          wrapped = instrumented_new () (lit ''KmsProvider'') None;
          captured = install_capturing_tracer start [port_call start invalid_parent wrapped (lit ''unwrap'') adapter_unwrap]
      in \<not> has_valid_span invalid_parent \<and> length captured = 1 \<and> sc_valid (sp_context (captured ! 0)))"

definition instrumented_arc_alias_wraps_shared_port_handle ::
    "(span_start \<Rightarrow> span_context) \<Rightarrow> otel_context \<Rightarrow> bool" where
  "instrumented_arc_alias_wraps_shared_port_handle start current \<longleftrightarrow>
     pc_result (port_call start current (instrumented_new () (lit ''KmsProvider'') None) (lit ''wrap'') adapter_wrap)
       = Inr (lit ''wrapped'')"

section \<open>They pass\<close>

lemmas port_keys = PORT_NAME_def PORT_OPERATION_def PORT_PROVIDER_HINT_def

lemma port_result_tests_pass:
  "call_emits_client_span_with_operation_and_provider_hint start current"
  "call_records_error_status_and_returns_error_unchanged start current"
  "instrumented_arc_alias_wraps_shared_port_handle start current"
  by (simp_all add: call_emits_client_span_with_operation_and_provider_hint_def
      call_records_error_status_and_returns_error_unchanged_def instrumented_arc_alias_wraps_shared_port_handle_def
      install_capturing_tracer_def capturing_export_def ended_def port_call_def instrumented_new_def has_attr_def adapter_wrap_def adapter_unwrap_def port_keys lit_def Let_def)

text \<open>A tracer gives a span started without a parent span ids of its own.\<close>

lemma captured_context: "sp_context (ended start pc) = start (pc_start pc)"
proof -
  have "sp_context (foldl span_op_done sp ops) = sp_context sp" for sp ops
  proof (induction ops arbitrary: sp)
    case (Cons c ops)
    then show ?case by (cases c) simp_all
  qed simp
  then show ?thesis by (simp add: ended_def Let_def)
qed

lemma port_parent_tests_pass:
  assumes "\<And>ss. cx_span (ss_parent ss) = None \<Longrightarrow> sc_valid (start ss)"
  shows "call_mints_valid_trace_id_with_no_parent start"
    and "call_mints_fresh_trace_id_when_current_parent_is_invalid start"
  using assms
  by (simp_all add: call_mints_valid_trace_id_with_no_parent_def
      call_mints_fresh_trace_id_when_current_parent_is_invalid_def install_capturing_tracer_def capturing_export_def
      captured_context port_call_sel has_valid_span_def with_span_def
      sc_valid_def Let_def)

text \<open>Without the check of the parent, a tracer that copies its trace id fails the last of them.\<close>

lemma copied_id_is_invalid:
  "\<not> sc_valid (copying_start \<lparr>ss_name = n, ss_kind = Client, ss_attrs = as,
      ss_parent = with_span \<lparr>sc_trace_id = 0, sc_span_id = 0\<rparr> context_new\<rparr>)"
  by (simp add: copying_start_def with_span_def sc_valid_def)

end
