(* ===== verification/ExportTests.thy ===== *)
theory ExportTests
  imports ExportBackoff ExportRetry
begin

text \<open>
  The unit tests of \<open>src/src/export_backoff.rs\<close> and \<open>src/src/export_retry.rs\<close>, each as
  what it asserts of the model, under its own name. The clock is an argument, and so is the text
  the SDK writes around an error's own.
\<close>

section \<open>Back-off: the tests\<close>

definition admit_at :: "instant \<Rightarrow> string \<Rightarrow> nat \<Rightarrow> windows \<Rightarrow> windows \<times> bool" where
  "admit_at start kind secs ws = admit ws (lit kind) (start + int (from_secs secs))"

definition the_first_failure_is_logged_and_repeats_wait_for_the_backoff :: "instant \<Rightarrow> bool" where
  "the_first_failure_is_logged_and_repeats_wait_for_the_backoff start \<longleftrightarrow>
     (let at = admit_at start ''BatchSpanProcessor.ExportError'';
          (ws, first) = at 0 fresh;
          (ws, after_5) = at 5 ws;
          (ws, after_59) = at 59 ws;
          (ws, after_60) = at 60 ws;
          (ws, after_170) = at 170 ws;
          (ws, after_180) = at 180 ws
      in first \<and> \<not> after_5 \<and> \<not> after_59 \<and> after_60 \<and> \<not> after_170 \<and> after_180)"

definition each_kind_of_failure_has_its_own_window :: "instant \<Rightarrow> bool" where
  "each_kind_of_failure_has_its_own_window start \<longleftrightarrow>
     (let (ws, span) = admit_at start ''BatchSpanProcessor.ExportError'' 0 fresh;
          (ws, log) = admit_at start ''BatchLogProcessor.ExportError'' 0 ws
      in span \<and> log)"

text \<open>The loop of the test, an hour on at each turn.\<close>

fun hourly :: "windows \<Rightarrow> instant \<Rightarrow> nat \<Rightarrow> bool" where
  "hourly ws now 0 = True"
| "hourly ws now (Suc n) =
     (let now = now + int MAX_BACKOFF; (ws, ok) = admit ws (lit ''k'') now in ok \<and> hourly ws now n)"

definition the_backoff_never_exceeds_an_hour :: "instant \<Rightarrow> bool" where
  "the_backoff_never_exceeds_an_hour now \<longleftrightarrow>
     (let (ws, ok) = admit fresh (lit ''k'') now in ok \<and> hourly ws now 20)"

definition test_event :: "level \<Rightarrow> string \<Rightarrow> field list \<Rightarrow> string \<Rightarrow> tevent" where
  "test_event l target fds message =
     \<lparr>te_meta = \<lparr>md_name = lit ''event src/export_backoff.rs'', md_target = lit target, md_level = l\<rparr>,
      te_fields = display_field (lit ''message'') (lit message) # fds\<rparr>"

text \<open>What the layer after the back-off sees.\<close>

definition seen_events :: "(tevent \<times> instant) list \<Rightarrow> tevent list" where
  "seen_events es = map fst (filter snd (layer_run fresh es))"

definition a_name_recorded_as_debug_is_read_as_its_text :: "(nat \<Rightarrow> instant) \<Rightarrow> bool" where
  "a_name_recorded_as_debug_is_read_as_its_text now \<longleftrightarrow>
     (let name = display_field (lit ''name'') (34 # lit ''MetricReader.ExportError'' @ [34]);
          ev = test_event WARN ''opentelemetry_sdk'' [name] ''export failed''
      in length (seen_events (map (\<lambda>i. (ev, now i)) [0..<3])) = 1)"

definition only_sdk_export_failures_are_rate_limited :: "(nat \<Rightarrow> instant) \<Rightarrow> bool" where
  "only_sdk_export_failures_are_rate_limited now \<longleftrightarrow>
     (let sdk = test_event ERROR ''opentelemetry_sdk''
            [str_field (lit ''name'') (lit ''BatchSpanProcessor.ExportError'')] ''export failed'';
          own = test_event ERROR ''my_service'' [] ''a real error'';
          seen = map (\<lambda>ev. md_target (te_meta ev))
            (seen_events (concat (map (\<lambda>i. [(sdk, now (2 * i)), (own, now (2 * i + 1))]) [0..<3])))
      in length (filter (\<lambda>t. t = lit ''opentelemetry_sdk'') seen) = 1
         \<and> length (filter (\<lambda>t. t = lit ''my_service'') seen) = 3)"

section \<open>Back-off: they pass\<close>

lemmas admit_eval = admit_at_def admit_def fresh_def FIRST_BACKOFF_def MAX_BACKOFF_def from_secs_def

lemma admit_tests_pass:
  "the_first_failure_is_logged_and_repeats_wait_for_the_backoff start"
  "each_kind_of_failure_has_its_own_window start"
  by (simp_all add: the_first_failure_is_logged_and_repeats_wait_for_the_backoff_def
      each_kind_of_failure_has_its_own_window_def admit_eval Let_def)

lemma hourly_admitted:
  "ws (lit ''k'') = Some w \<Longrightarrow> next_allowed w \<le> now + int MAX_BACKOFF \<Longrightarrow> hourly ws now n"
  by (induction n arbitrary: ws w now) (simp_all add: admit_def Let_def)

lemma hour_passes: "the_backoff_never_exceeds_an_hour now"
proof -
  have "int FIRST_BACKOFF \<le> int MAX_BACKOFF" by (simp add: admit_eval)
  then show ?thesis
    by (simp add: the_backoff_never_exceeds_an_hour_def admit_def fresh_def hourly_admitted)
qed

lemma test_event_kind:
  "export_failure_kind (test_event ERROR ''my_service'' [] m) = None"
  "export_failure_kind (test_event WARN ''opentelemetry_sdk''
     [display_field (lit ''name'') (34 # lit ''MetricReader.ExportError'' @ [34])] m) = Some (lit ''MetricReader.ExportError'')"
  "export_failure_kind (test_event ERROR ''opentelemetry_sdk''
     [str_field (lit ''name'') (lit ''BatchSpanProcessor.ExportError'')] m) = Some (lit ''BatchSpanProcessor.ExportError'')"
  by (simp_all add: export_failure_kind_def test_event_def event_name_visit_def display_field_def str_field_def
      trim_matches_def trim_by_def trim_end_by_def less_level_def lit_def Let_def)

text \<open>The events of a test are written within the first window.\<close>

lemma layer_tests_pass:
  assumes "\<And>i. i < 6 \<Longrightarrow> now 0 \<le> now i \<and> now i < now 0 + int (from_secs 60)"
  shows "a_name_recorded_as_debug_is_read_as_its_text now" "only_sdk_export_failures_are_rate_limited now"
proof -
  have "now (Suc 0) < now 0 + int FIRST_BACKOFF" "now 2 < now 0 + int FIRST_BACKOFF" "now (Suc (Suc 0)) < now 0 + int FIRST_BACKOFF"
    "now (Suc (Suc (Suc (Suc 0)))) < now 0 + int FIRST_BACKOFF"
    using assms [of "Suc 0"] assms [of "Suc (Suc 0)"] assms [of 2] assms [of "Suc (Suc (Suc (Suc 0)))"]
    by (simp_all add: FIRST_BACKOFF_def)
  moreover have "md_target (te_meta (test_event l t fds m)) = lit t" for l t fds m
    by (simp add: test_event_def)
  ultimately show "a_name_recorded_as_debug_is_read_as_its_text now" "only_sdk_export_failures_are_rate_limited now"
    by (simp_all add: a_name_recorded_as_debug_is_read_as_its_text_def only_sdk_export_failures_are_rate_limited_def
        seen_events_def event_enabled_def test_event_kind admit_def fresh_def upt_rec numeral_3_eq_3 Let_def)
qed

section \<open>Retry: the tests\<close>

definition FAST :: "duration list" where
  "FAST = replicate 3 (from_millis 1)"

text \<open>The flaky exporter counts its calls; its batches are empty. \<open>display\<close> is the text of an error.\<close>

definition flaky_export :: "(rstring \<Rightarrow> rstring) \<Rightarrow> nat \<Rightarrow> rstring \<Rightarrow> (nat, unit list) export_fn" where
  "flaky_export display failures err calls batch =
     (Suc calls, if calls < failures then Inl (display err) else Inr ())"

definition log_export_calls :: "bool \<Rightarrow> (rstring \<Rightarrow> rstring) \<Rightarrow> nat \<Rightarrow> string \<Rightarrow> sdk_result \<times> nat" where
  "log_export_calls in_runtime display failures err =
     (let (calls, eff, r) = export_logs (flaky_export display failures (lit err)) (retry_with_backoff in_runtime FAST) 0 []
      in (r, calls))"

definition an_unavailable_export_is_retried_until_it_succeeds :: "(rstring \<Rightarrow> rstring) \<Rightarrow> bool" where
  "an_unavailable_export_is_retried_until_it_succeeds display \<longleftrightarrow>
     log_export_calls True display 2 ''gRPC code: Unavailable: Connection refused'' = (Inr (), 3)"

definition retries_are_bounded_and_the_last_failure_is_returned :: "(rstring \<Rightarrow> rstring) \<Rightarrow> bool" where
  "retries_are_bounded_and_the_last_failure_is_returned display \<longleftrightarrow>
     (let (r, calls) = log_export_calls True display (2 ^ 64 - 1) ''gRPC code: Unavailable'' in isl r \<and> calls = 4)"

definition any_other_failure_is_not_retried :: "(rstring \<Rightarrow> rstring) \<Rightarrow> bool" where
  "any_other_failure_is_not_retried display \<longleftrightarrow>
     (let (r, calls) = log_export_calls True display (2 ^ 64 - 1) ''gRPC code: InvalidArgument'' in isl r \<and> calls = 1)"

definition an_unavailable_span_export_is_retried_until_it_succeeds :: "(rstring \<Rightarrow> rstring) \<Rightarrow> bool" where
  "an_unavailable_span_export_is_retried_until_it_succeeds display \<longleftrightarrow>
     (let (calls, eff, r) = export_spans (flaky_export display 2 (lit ''gRPC code: Unavailable''))
            (retry_with_backoff True FAST) 0 []
      in r = Inr () \<and> calls = 3)"

definition outside_a_runtime_a_single_attempt_is_made :: "(rstring \<Rightarrow> rstring) \<Rightarrow> bool" where
  "outside_a_runtime_a_single_attempt_is_made display \<longleftrightarrow>
     (let (r, calls) = log_export_calls False display (2 ^ 64 - 1) ''gRPC code: Unavailable'' in isl r \<and> calls = 1)"

section \<open>Retry: they pass\<close>

lemma unavailable_texts:
  "contains (lit ''gRPC code: Unavailable: Connection refused'') (lit ''Unavailable'')"
  "contains (lit ''gRPC code: Unavailable'') (lit ''Unavailable'')"
  "\<not> contains (lit ''gRPC code: InvalidArgument'') (lit ''Unavailable'')"
  by (simp_all add: lit_def)

lemma retry_tests_pass:
  assumes "\<And>e. contains (display e) (lit ''Unavailable'') = contains e (lit ''Unavailable'')"
  shows "an_unavailable_export_is_retried_until_it_succeeds display"
    "retries_are_bounded_and_the_last_failure_is_returned display"
    "any_other_failure_is_not_retried display"
    "an_unavailable_span_export_is_retried_until_it_succeeds display"
    "outside_a_runtime_a_single_attempt_is_made display"
  by (simp_all add: an_unavailable_export_is_retried_until_it_succeeds_def log_export_calls_def
      retries_are_bounded_and_the_last_failure_is_returned_def any_other_failure_is_not_retried_def
      an_unavailable_span_export_is_retried_until_it_succeeds_def outside_a_runtime_a_single_attempt_is_made_def
      export_logs_def export_spans_def attempt_def flaky_export_def retry_with_backoff_def is_unavailable_def
      FAST_def numeral_3_eq_3 assms unavailable_texts Let_def)

end
