(* ===== verification/WorkTests.thy ===== *)
theory WorkTests
  imports Spanned Probes
begin

text \<open>
  The unit tests of \<open>src/src/spanned.rs\<close> and of \<open>src/src/bin/rss-probe.rs\<close>, each as what it
  asserts of the model, under its own name. The threads that poll and the rounding of the floats
  are arguments.
\<close>

section \<open>Spanned: the tests\<close>

text \<open>
  The futures of the tests: \<open>Job n r\<close> yields \<open>n\<close> times and gives \<open>r\<close>. An instrumented one
  enters its span at each poll and drop, which is what the recording layer sees.
\<close>

datatype 'r job = Job nat 'r | Under "'r job" rstring

fun poll_job :: "'r job \<Rightarrow> rstring stack \<Rightarrow> 'r job \<times> rstring stack \<times> (rstring, rstring) seen \<times> 'r option" where
  "poll_job (Job 0 r) stk = (Job 0 r, stk, [], Some r)"
| "poll_job (Job (Suc n) r) stk = (Job n r, stk, [], None)"
| "poll_job (Under f sp) stk =
     (let (f', stk', evs, r) = poll_job f (sp # stk) in (Under f' sp, remove1 sp stk', (sp, sp # stk) # evs, r))"

fun drop_job :: "'r job \<Rightarrow> rstring stack \<Rightarrow> rstring stack \<times> (rstring, rstring) seen" where
  "drop_job (Job n r) stk = (stk, [])"
| "drop_job (Under f sp) stk =
     (let (stk', evs) = drop_job f (sp # stk) in (remove1 sp stk', (sp, sp # stk) # evs))"

definition jobs :: "('r job, rstring, rstring, 'r) futures" where
  "jobs = \<lparr>fu_poll = poll_job, fu_drop = drop_job, fu_instrument = Under\<rparr>"

text \<open>\<open>RecordingLayer\<close>: the names of the spans entered, where the registry knows them.\<close>

definition on_enter :: "('sp \<Rightarrow> rstring option) \<Rightarrow> rstring list \<Rightarrow> 'sp \<Rightarrow> rstring list" where
  "on_enter find_span entered sid = (case find_span sid of Some name \<Rightarrow> entered @ [name] | None \<Rightarrow> entered)"

text \<open>One task awaited by its polls on the given threads: the names entered, and the result.\<close>

definition awaited :: "nat list \<Rightarrow> (rstring, 'r job) span_future \<Rightarrow> rstring list \<times> 'r option" where
  "awaited threads fut =
     (let pl = run_pool jobs (\<lambda>_. []) (\<lambda>_. fut) (map (\<lambda>t. Poll t 0) threads)
      in (foldl (on_enter Some) [] (map fst (seen_by 0 pl)), pl_results pl 0))"

definition in_span_enters_span_around_await_points :: "nat \<Rightarrow> nat \<Rightarrow> bool" where
  "in_span_enters_span_around_await_points t1 t2 \<longleftrightarrow>
     (let (entered, out) = awaited [t1, t2] (in_span (lit ''sealwiz.wrap'') (Job 1 (lit ''wrapped'')))
      in out = Some (lit ''wrapped'') \<and> lit ''sealwiz.wrap'' \<in> set entered)"

definition spanned_run_survives_yield_across_await :: "nat \<Rightarrow> nat \<Rightarrow> nat \<Rightarrow> bool" where
  "spanned_run_survives_yield_across_await t1 t2 t3 \<longleftrightarrow>
     (let (entered, out) = awaited [t1, t2, t3] (spanned_run (spanned_new (lit ''sealwiz.unwrap'')) (Job 2 (42::int)))
      in out = Some 42 \<and> lit ''sealwiz.unwrap'' \<in> set entered)"

section \<open>Spanned: they pass\<close>

lemma spanned_tests_pass:
  "in_span_enters_span_around_await_points t1 t2" "spanned_run_survives_yield_across_await t1 t2 t3"
  by (simp_all add: in_span_enters_span_around_await_points_def spanned_run_survives_yield_across_await_def
      awaited_def on_enter_def in_span_def spanned_run_def spanned_new_def run_pool_def poll_await_def jobs_def seen_by_def
      numeral_2_eq_2 Let_def)

section \<open>The slope: the tests\<close>

definition a_steady_leak_is_reported_in_full :: "rounding \<Rightarrow> bool" where
  "a_steady_leak_is_reported_in_full rnd \<longleftrightarrow>
     (let samples = map (\<lambda>t. (of_nat t, rnd (1000 + rnd (50 * of_nat t)))) [0..<120]
      in \<bar>rnd (slope rnd samples - 50)\<bar> < 1 / 10 ^ 9)"

definition a_single_late_step_is_not_a_leak :: "rounding \<Rightarrow> bool" where
  "a_single_late_step_is_not_a_leak rnd \<longleftrightarrow>
     slope rnd (map (\<lambda>t. (of_nat t, if t < 110 then 32500000 else 35800000)) [0..<120]) = 0"

definition an_even_number_of_pairs_takes_the_middle_two :: "rounding \<Rightarrow> bool" where
  "an_even_number_of_pairs_takes_the_middle_two rnd \<longleftrightarrow>
     (let samples = [(0, 0), (1, 1), (2, 3), (3, 3)]
      in slope rnd samples = 1 \<and> slope rnd (take 3 samples) = 3 / 2)"

definition fewer_than_two_distinct_times_have_no_slope :: "rounding \<Rightarrow> bool" where
  "fewer_than_two_distinct_times_have_no_slope rnd \<longleftrightarrow>
     slope rnd [] = 0 \<and> slope rnd [(1, 5)] = 0 \<and> slope rnd [(1, 5), (1, 9)] = 0"

section \<open>The slope: they pass\<close>

text \<open>A double holds every integer below \<open>2 ^ 53\<close> as it is, and the half the last test needs.\<close>

definition keeps_integers :: "rounding \<Rightarrow> bool" where
  "keeps_integers rnd \<longleftrightarrow> (\<forall>n::int. \<bar>n\<bar> < 2 ^ 53 \<longrightarrow> rnd (of_int n) = of_int n)"

lemma keeps_nat: "keeps_integers rnd \<Longrightarrow> n < 2 ^ 53 \<Longrightarrow> rnd (of_nat n) = of_nat n"
  unfolding keeps_integers_def by (metis of_int_of_nat_eq abs_of_nat of_nat_less_iff of_nat_numeral of_nat_power)

lemma ticking_seconds: "ticking (map (\<lambda>t. (of_nat t, f t)) [a..<b])"
  by (simp add: ticking_def sorted_wrt_map sorted_wrt_upt)

lemma steady_slope:
  assumes keeps: "keeps_integers rnd" and n: "2 \<le> n" "n \<le> 2 ^ 40"
  shows "slope rnd (map (\<lambda>t. (of_nat t, rnd (1000 + rnd (50 * of_nat t)))) [0..<n]) = 50"
proof (rule slope_line)
  let ?s = "\<lambda>t. (of_nat t, rnd (1000 + rnd (50 * of_nat t))) :: sample"
  have val: "?s t = (of_nat t, of_nat (1000 + 50 * t))" if "t < n" for t
    using keeps_nat [OF keeps, of "50 * t"] keeps_nat [OF keeps, of "1000 + 50 * t"] that n(2) by simp
  fix s s' assume "s \<in> set (map ?s [0..<n])" "s' \<in> set (map ?s [0..<n])" and less: "fst s < fst s'"
  then obtain t t' where t: "s = ?s t" "t < n" "s' = ?s t'" "t' < n" by auto
  with less have "t < t'" by simp
  then have d: "snd s' - snd s = of_nat (50 * (t' - t))" "fst s' - fst s = of_nat (t' - t)"
    unfolding t val [OF t(2)] val [OF t(4)] by (simp_all add: of_nat_diff algebra_simps)
  have "50 * (t' - t) < 2 ^ 53" "t' - t < 2 ^ 53" using t(4) n(2) by simp_all
  then show "snd s' - snd s = 50 * (fst s' - fst s) \<and> rnd (snd s' - snd s) = snd s' - snd s
      \<and> rnd (fst s' - fst s) = fst s' - fst s"
    unfolding d using keeps_nat [OF keeps, of "50 * (t' - t)"] keeps_nat [OF keeps, of "t' - t"] by simp
qed (use keeps_nat [OF keeps, of 50] keeps_nat [OF keeps, of 100] ticking_seconds n in simp_all)

lemma steady_passes:
  assumes "keeps_integers rnd"
  shows "a_steady_leak_is_reported_in_full rnd"
  using steady_slope [OF assms, of 120] keeps_nat [OF assms, of 0]
  by (simp add: a_steady_leak_is_reported_in_full_def del: upt_conv_Cons_Cons upt_rec_numeral)

lemma late_step_slope:
  assumes "rnd 0 = 0" and "k \<le> n" "4 * (k * (n - k)) + n < n * n"
  shows "slope rnd (map (\<lambda>t. (of_nat t, if t < k then a else b)) [0..<n]) = 0"
proof -
  let ?s = "\<lambda>t. (of_nat t, if t < k then a else b) :: sample"
  have split: "map ?s [0..<n] = map ?s [0..<k] @ map ?s [k..<n]"
    using upt_add_eq_append [of 0 k "n - k"] assms(2) by simp
  have "ticking (map ?s [0..<k] @ map ?s [k..<n])"
    unfolding split [symmetric] by (rule ticking_seconds)
  then have "slope rnd (map ?s [0..<k] @ map ?s [k..<n]) = 0"
    by (rule slope_step [where rnd = rnd, OF assms(1)]) (use assms in auto)
  then show ?thesis unfolding split .
qed

lemma step_passes:
  assumes "rnd 0 = 0"
  shows "a_single_late_step_is_not_a_leak rnd"
  unfolding a_single_late_step_is_not_a_leak_def
  by (rule late_step_slope [where rnd = rnd, OF assms]) simp_all

lemma middle_passes:
  assumes "keeps_integers rnd" "rnd (3 / 2) = 3 / 2"
  shows "an_even_number_of_pairs_takes_the_middle_two rnd"
proof -
  have "rnd 0 = 0" "rnd 1 = 1" "rnd 2 = 2" "rnd 3 = 3"
    using keeps_nat [OF assms(1), of 0] keeps_nat [OF assms(1), of 1] keeps_nat [OF assms(1), of 2] keeps_nat [OF assms(1), of 3]
    by simp_all
  with assms(2) show ?thesis
    by (simp add: an_even_number_of_pairs_takes_the_middle_two_def slope_def pair_slope_def Let_def)
qed

lemma no_slope_passes: "fewer_than_two_distinct_times_have_no_slope rnd"
  by (simp add: fewer_than_two_distinct_times_have_no_slope_def slope_still [of _ 1])

end
