(* ===== verification/InitTests.thy ===== *)
theory InitTests
  imports Examples ConfigTests ProcessTests
begin

text \<open>
  The integration tests of initialisation (\<open>src/tests/builder.rs\<close>, \<open>profiling_feature.rs\<close>,
  \<open>mtls_exporters.rs\<close>, \<open>subscriber_clobber.rs\<close>, \<open>testing.rs\<close>), each as what it asserts of the
  model under its own name, on any host where the libraries build what they are asked to. Left out are
  the two tests of \<open>builder.rs\<close> that only put layers of their own on a registry.
\<close>

section \<open>Initialising on a host\<close>

definition init_on :: "host \<Rightarrow> builder \<Rightarrow> globals \<times> init_effect list \<times> (rstring + handles)" where
  "init_on ho b = init (ho_features ho) (ho_ext ho) (ho_env ho) 0 b (ho_globals ho)"

text \<open>Success, with what the test goes on to check of the handles and of what was done.\<close>

definition init_ok :: "host \<Rightarrow> builder \<Rightarrow> (globals \<Rightarrow> init_effect list \<Rightarrow> handles \<Rightarrow> bool) \<Rightarrow> bool" where
  "init_ok ho b check =
     (let (gl, eff, r) = init_on ho b in case r of Inl e \<Rightarrow> False | Inr h \<Rightarrow> check gl eff h)"

text \<open>The test also expects its shutdown to succeed.\<close>

definition shuts_down :: "host \<Rightarrow> globals \<Rightarrow> handles \<Rightarrow> bool" where
  "shuts_down ho gl h \<longleftrightarrow> snd (snd (shutdown h (ho_results ho False) (gl_timeline gl) (ho_shutdown_at ho))) = Inr ()"

fun sets_meter :: "init_effect \<Rightarrow> bool" where
  "sets_meter (SetMeterProvider mp) = True"
| "sets_meter _ = False"

text \<open>
  A host whose libraries accept every filter, build every exporter and agent, and parse every
  address; no sampler is configured in the environment.
\<close>

definition obliging :: "host \<Rightarrow> bool" where
  "obliging ho \<longleftrightarrow>
     (\<forall>f. xe_filter (ho_ext ho) f = None) \<and> (\<forall>xc. xe_build (ho_ext ho) xc = None)
     \<and> (\<forall>s. \<exists>u. xe_parse_uri (ho_ext ho) s = Inr u \<and> ur_authority u \<noteq> None)
     \<and> (\<forall>s. xe_from_shared (ho_ext ho) s = Inr ())
     \<and> ho_env ho (lit ''OTEL_TRACES_SAMPLER'') = None
     \<and> (\<forall>a. pe_build (xe_prof (ho_ext ho)) a = Built) \<and> (\<forall>a. pe_start (xe_prof (ho_ext ho)) a = Inr ())"

text \<open>Compiled with the profiling bridge.\<close>

definition bridged :: "host \<Rightarrow> bool" where
  "bridged ho \<longleftrightarrow> ft_profiling (ho_features ho) \<and> pf_bridge (xe_prof_features (ho_ext ho))"

text \<open>Whether the builder's profiling endpoint, where it has one that is looked at, is a valid one.\<close>

definition endpoint_valid :: "host \<Rightarrow> builder \<Rightarrow> bool" where
  "endpoint_valid ho b \<longleftrightarrow>
     (case bd_pyroscope_endpoint b of
        None \<Rightarrow> True
      | Some e \<Rightarrow> bridged ho \<longrightarrow> validate_pyroscope_endpoint (pe_parse_url (xe_prof (ho_ext ho))) e = Inr ())"

definition profiles :: "host \<Rightarrow> builder \<Rightarrow> bool" where
  "profiles ho b \<longleftrightarrow> bridged ho \<and> bd_pyroscope_endpoint b \<noteq> None \<and> \<not> gl_profiling_started (ho_globals ho)"

lemma obliging_transport:
  assumes "obliging ho"
  shows "\<exists>tr. resolve_transport (xe_parse_uri (ho_ext ho)) (xe_from_shared (ho_ext ho)) m s ep t i = Inr tr"
proof -
  obtain u a where "xe_parse_uri (ho_ext ho) ep = Inr u" "ur_authority u = Some a"
    using assms by (auto simp: obliging_def) (metis option.exhaust)
  with assms show ?thesis
    by (cases m; cases s; cases i) (simp_all add: resolve_transport_def make_channel_def obliging_def bind_res_def ok_or_def)
qed

lemma bridge_starts:
  assumes "obliging ho" and "pf_bridge (xe_prof_features (ho_ext ho))"
    and "validate_pyroscope_endpoint (pe_parse_url (xe_prof (ho_ext ho))) e = Inr ()"
  shows "\<exists>ph. snd (snd (start_pyroscope_bridge (xe_prof_features (ho_ext ho)) (xe_prof (ho_ext ho)) started service e identity)) = Inr ph
    \<and> (ph \<noteq> None \<longleftrightarrow> \<not> started)"
proof -
  obtain m where "snd (start_memory_agent (xe_prof (ho_ext ho)) service e (tag_pairs identity)) = Inr m"
    using memory_agent_ok by blast
  with assms show ?thesis
    by (cases "start_memory_agent (xe_prof (ho_ext ho)) service e (tag_pairs identity)")
       (simp add: start_pyroscope_bridge_def obliging_def Let_def bind_res_def)
qed

lemma obliging_profiling:
  assumes "obliging ho" and "endpoint_valid ho b"
  obtains started eff ph where
    "init_profiling (ho_features ho) (ho_ext ho) b st (gl_profiling_started (ho_globals ho)) = (started, eff, Inr ph)"
    "ph \<noteq> None \<longleftrightarrow> profiles ho b"
proof -
  let ?p = "init_profiling (ho_features ho) (ho_ext ho) b st (gl_profiling_started (ho_globals ho))"
  have "\<exists>ph. snd (snd ?p) = Inr ph \<and> (ph \<noteq> None \<longleftrightarrow> profiles ho b)"
  proof (cases "bd_pyroscope_endpoint b")
    case None
    then show ?thesis by (simp add: init_profiling_def profiles_def)
  next
    case (Some e)
    then show ?thesis
      using bridge_starts [OF assms(1), of e] assms(2)
      by (cases "ft_profiling (ho_features ho)"; cases "pf_bridge (xe_prof_features (ho_ext ho))")
         (simp_all add: init_profiling_def profiles_def endpoint_valid_def bridged_def, simp add: start_pyroscope_bridge_def)
  qed
  then show ?thesis using that by (metis prod.collapse)
qed

text \<open>Up to the profiling agents nothing fails on such a host.\<close>

lemma obliging_steps:
  assumes ok: "obliging ho" and interval: "bd_metric_export_interval b \<noteq> Some 0"
  obtains st xc meff mp lp where "resolve_settings (ho_features ho) (ho_ext ho) (ho_env ho) b = Inr st"
    "build_span_exporter (xe_build (ho_ext ho)) (st_protocol st) (st_endpoint st) (st_timeout st) (st_transport st) = Inr xc"
    "init_meter (ho_ext ho) b st = (meff, Inr mp)" "mp \<noteq> None \<longleftrightarrow> bd_metrics b"
    "list_ex sets_meter meff \<longleftrightarrow> bd_metrics b" "\<And>m. mp = Some m \<Longrightarrow> mp_installers m = bd_extra_metric_readers b"
    "init_logger (ho_ext ho) b st = Inr lp" "lp \<noteq> None \<longleftrightarrow> bd_logs b"
proof -
  have no: "xe_build (ho_ext ho) xc = None" "xe_filter (ho_ext ho) f = None" for xc f
    using ok by (simp_all add: obliging_def)
  have bx: "build_exporter (xe_build (ho_ext ho)) sig p ep to tr = Inr (exporter_for sig p ep to tr)" for sig p ep to tr
    by (simp add: build_exporter_Inr no)
  obtain s where s: "(case bd_sampler b of Some s \<Rightarrow> Inr s
      | None \<Rightarrow> bind_res (sampler_from_env (ho_env ho)) (\<lambda>s. Inr (unwrap_or s AlwaysOn))) = Inr s"
    using ok by (cases "bd_sampler b") (auto simp: sampler_from_env_def obliging_def)
  have tr: "\<exists>st. bind_res (resolve_transport (xe_parse_uri (ho_ext ho)) (xe_from_shared (ho_ext ho)) m sr ep to i)
      (\<lambda>tr. Inr (f tr)) = Inr st" for m sr ep to i and f :: "_ \<Rightarrow> settings"
    using obliging_transport [OF ok, of m sr ep to i] by (auto simp: bind_res_def)
  have flt: "Option.bind (bd_log_filter b) (xe_filter (ho_ext ho)) = None"
    by (cases "bd_log_filter b") (simp_all add: no)
  have "\<exists>st. resolve_settings (ho_features ho) (ho_ext ho) (ho_env ho) b = Inr st"
    by (simp add: resolve_settings_def Let_def flt interval s) (intro impI, rule tr)
  then obtain st where st: "resolve_settings (ho_features ho) (ho_ext ho) (ho_env ho) b = Inr st" ..
  have "\<exists>meff mp. init_meter (ho_ext ho) b st = (meff, Inr mp) \<and> (mp \<noteq> None \<longleftrightarrow> bd_metrics b)
      \<and> (list_ex sets_meter meff \<longleftrightarrow> bd_metrics b) \<and> (\<forall>m. mp = Some m \<longrightarrow> mp_installers m = bd_extra_metric_readers b)"
    by (simp add: init_meter_def build_metric_exporter_def bx Let_def)
  then obtain meff mp where mp: "init_meter (ho_ext ho) b st = (meff, Inr mp)" "mp \<noteq> None \<longleftrightarrow> bd_metrics b"
    "list_ex sets_meter meff \<longleftrightarrow> bd_metrics b" "\<And>m. mp = Some m \<Longrightarrow> mp_installers m = bd_extra_metric_readers b"
    by blast
  have "\<exists>lp. init_logger (ho_ext ho) b st = Inr lp \<and> (lp \<noteq> None \<longleftrightarrow> bd_logs b)"
    by (simp add: init_logger_def build_log_exporter_def bx bind_res_def)
  then obtain lp where lp: "init_logger (ho_ext ho) b st = Inr lp" "lp \<noteq> None \<longleftrightarrow> bd_logs b" by blast
  show ?thesis
    by (rule that [OF st _ mp lp]) (simp add: build_span_exporter_def bx)
qed

lemma init_on_obliging:
  assumes ok: "obliging ho" and interval: "bd_metric_export_interval b \<noteq> Some 0" and endpoint: "endpoint_valid ho b"
  obtains gl eff h where "init_on ho b = (gl, eff, Inr h)"
    "hd_meter h \<noteq> None \<longleftrightarrow> bd_metrics b" "hd_logger h \<noteq> None \<longleftrightarrow> bd_logs b" "hd_profiling h \<noteq> None \<longleftrightarrow> profiles ho b"
    "list_ex sets_meter eff \<longleftrightarrow> bd_metrics b" "\<And>mp. hd_meter h = Some mp \<Longrightarrow> mp_installers mp = bd_extra_metric_readers b"
proof (rule obliging_steps [OF ok interval])
  fix st xc meff mp lp
  assume st: "resolve_settings (ho_features ho) (ho_ext ho) (ho_env ho) b = Inr st"
    and xc: "build_span_exporter (xe_build (ho_ext ho)) (st_protocol st) (st_endpoint st) (st_timeout st) (st_transport st) = Inr xc"
    and mp: "init_meter (ho_ext ho) b st = (meff, Inr mp)" "mp \<noteq> None \<longleftrightarrow> bd_metrics b"
      "list_ex sets_meter meff \<longleftrightarrow> bd_metrics b" "\<And>m. mp = Some m \<Longrightarrow> mp_installers m = bd_extra_metric_readers b"
    and lp: "init_logger (ho_ext ho) b st = Inr lp" "lp \<noteq> None \<longleftrightarrow> bd_logs b"
  obtain started peff ph where
    ph: "init_profiling (ho_features ho) (ho_ext ho) b st (gl_profiling_started (ho_globals ho)) = (started, peff, Inr ph)"
      "ph \<noteq> None \<longleftrightarrow> profiles ho b"
    by (rule obliging_profiling [OF ok endpoint])
  have quiet: "\<not> list_ex sets_meter (map Logged xs)" "\<not> list_ex sets_meter (map BootEffect xs)"
    "\<not> list_ex sets_meter (snd (install_subscriber ft ext b lp already))" for xs ft ext lp already
    by (simp_all add: list_ex_iff install_subscriber_def)
  obtain on eff4 where sub: "install_subscriber (ho_features ho) (ho_ext ho) b lp (gl_subscriber_set (ho_globals ho)) = (on, eff4)"
    by (cases "install_subscriber (ho_features ho) (ho_ext ho) b lp (gl_subscriber_set (ho_globals ho))")
  obtain at tm inside after where att: "attach (gl_timeline (ho_globals ho)) 0 (st_service_name st) = (at, tm, inside, after)"
    by (cases "attach (gl_timeline (ho_globals ho)) 0 (st_service_name st)") auto
  from quiet(3) [of "ho_features ho" "ho_ext ho" lp "gl_subscriber_set (ho_globals ho)"] sub have "\<not> list_ex sets_meter eff4" by simp
  with quiet(1,2) mp(1) lp(1) ph(1) have "\<exists>gl eff h. init_on ho b = (gl, eff, Inr h)
      \<and> hd_meter h = mp \<and> hd_logger h = lp \<and> hd_profiling h = ph \<and> list_ex sets_meter eff = list_ex sets_meter meff"
    by (simp add: init_on_def init_def st xc sub att Let_def)
  then obtain gl eff h where "init_on ho b = (gl, eff, Inr h)"
    and "hd_meter h = mp" "hd_logger h = lp" "hd_profiling h = ph" "list_ex sets_meter eff = list_ex sets_meter meff"
    by (elim exE conjE)
  with mp lp ph show ?thesis by (intro that [of gl eff h]) simp_all
qed

lemma bad_endpoint_fails:
  assumes ok: "obliging ho" and interval: "bd_metric_export_interval b \<noteq> Some 0" and on: "bridged ho"
    and bad: "bd_pyroscope_endpoint b = Some ep" "validate_pyroscope_endpoint (pe_parse_url (xe_prof (ho_ext ho))) ep = Inl e"
  shows "snd (snd (init_on ho b)) = Inl e"
proof (rule obliging_steps [OF ok interval])
  fix st xc meff mp lp
  assume "resolve_settings (ho_features ho) (ho_ext ho) (ho_env ho) b = Inr st"
    and "build_span_exporter (xe_build (ho_ext ho)) (st_protocol st) (st_endpoint st) (st_timeout st) (st_transport st) = Inr xc"
    and "init_meter (ho_ext ho) b st = (meff, Inr mp)" "init_logger (ho_ext ho) b st = Inr lp"
  moreover have "init_profiling (ho_features ho) (ho_ext ho) b st started = (started, [], Inl e)" for started
    using on bad by (simp add: init_profiling_def start_pyroscope_bridge_def bridged_def)
  ultimately show ?thesis by (simp add: init_on_def init_def Let_def)
qed

lemma init_okI:
  assumes "obliging ho" and "bd_metric_export_interval b \<noteq> Some 0" and "endpoint_valid ho b"
    and "\<And>gl eff h. (hd_meter h \<noteq> None \<longleftrightarrow> bd_metrics b) \<Longrightarrow> (hd_logger h \<noteq> None \<longleftrightarrow> bd_logs b) \<Longrightarrow>
      (hd_profiling h \<noteq> None \<longleftrightarrow> profiles ho b) \<Longrightarrow> (list_ex sets_meter eff \<longleftrightarrow> bd_metrics b) \<Longrightarrow>
      (\<And>mp. hd_meter h = Some mp \<Longrightarrow> mp_installers mp = bd_extra_metric_readers b) \<Longrightarrow> check gl eff h"
  shows "init_ok ho b check"
proof (rule init_on_obliging [OF assms(1-3)])
  fix gl eff h
  assume i: "init_on ho b = (gl, eff, Inr h)"
  assume "hd_meter h \<noteq> None \<longleftrightarrow> bd_metrics b" "hd_logger h \<noteq> None \<longleftrightarrow> bd_logs b" "hd_profiling h \<noteq> None \<longleftrightarrow> profiles ho b"
    "list_ex sets_meter eff \<longleftrightarrow> bd_metrics b" "\<And>mp. hd_meter h = Some mp \<Longrightarrow> mp_installers mp = bd_extra_metric_readers b"
  then have "check gl eff h" by (rule assms(4))
  with i show ?thesis by (simp add: init_ok_def)
qed

lemma always_shuts_down: "shuts_down ho gl h"
  by (simp add: shuts_down_def shutdown_def case_prod_beta)

section \<open>builder.rs\<close>

definition builder_with_all_options_produces_valid_handles :: "host \<Rightarrow> bool" where
  "builder_with_all_options_produces_valid_handles ho \<longleftrightarrow>
     init_ok ho (with_metrics True (with_sampler (TraceIdRatio (round_f64 False 5 10)) (with_environment (lit ''staging'')
         (with_version (lit ''1.2.3'') (telemetry_builder (lit ''builder-test-svc''))))))
       (\<lambda>gl eff h. hd_meter h \<noteq> None \<and> shuts_down ho gl h)"

definition builder_with_metrics_disabled_produces_no_meter_provider :: "host \<Rightarrow> bool" where
  "builder_with_metrics_disabled_produces_no_meter_provider ho \<longleftrightarrow>
     init_ok ho (with_metrics False (telemetry_builder (lit ''builder-no-metrics'')))
       (\<lambda>gl eff h. hd_meter h = None \<and> shuts_down ho gl h)"

definition init_telemetry_with_sampler_delegates_to_builder :: "host \<Rightarrow> bool" where
  "init_telemetry_with_sampler_delegates_to_builder ho \<longleftrightarrow>
     (let (gl, eff, r) = init_telemetry_with_sampler (ho_features ho) (ho_ext ho) (ho_env ho) 0 (lit ''sampler-delegate-test'')
            (Some AlwaysOff) (ho_globals ho)
      in case r of Inl e \<Rightarrow> False | Inr h \<Rightarrow> shuts_down ho gl h)"

definition builder_with_logs_enabled_produces_logger_provider :: "host \<Rightarrow> bool" where
  "builder_with_logs_enabled_produces_logger_provider ho \<longleftrightarrow>
     init_ok ho (with_logs True (with_metrics False (telemetry_builder (lit ''builder-logs-test'')))) (\<lambda>gl eff h. hd_logger h \<noteq> None)"

definition builder_with_logs_disabled_produces_no_logger_provider :: "host \<Rightarrow> bool" where
  "builder_with_logs_disabled_produces_no_logger_provider ho \<longleftrightarrow>
     init_ok ho (with_logs False (with_metrics False (telemetry_builder (lit ''builder-no-logs'')))) (\<lambda>gl eff h. hd_logger h = None)"

definition builder_with_programmatic_json_logging_initialises_successfully :: "host \<Rightarrow> bool" where
  "builder_with_programmatic_json_logging_initialises_successfully ho \<longleftrightarrow>
     init_ok ho (with_metrics False (with_log_format Json (with_log_filter (lit ''info,opentelemetry_sdk=warn'')
         (telemetry_builder (lit ''builder-json-logging'')))))
       (\<lambda>gl eff h. hd_meter h = None)"

definition builder_with_custom_batch_size_initialises_successfully :: "host \<Rightarrow> bool" where
  "builder_with_custom_batch_size_initialises_successfully ho \<longleftrightarrow>
     init_ok ho (with_metrics False (with_max_export_batch_size 1024 (telemetry_builder (lit ''builder-batch-size-test''))))
       (\<lambda>gl eff h. True)"

definition builder_with_custom_metric_interval_initialises_successfully :: "host \<Rightarrow> bool" where
  "builder_with_custom_metric_interval_initialises_successfully ho \<longleftrightarrow>
     init_ok ho (with_metrics True (with_metric_export_interval (from_secs 10) (telemetry_builder (lit ''builder-metric-interval-test''))))
       (\<lambda>gl eff h. hd_meter h \<noteq> None)"

text \<open>The global meter is the one of the provider that was set.\<close>

definition global_meter_is_functional_after_init :: "host \<Rightarrow> bool" where
  "global_meter_is_functional_after_init ho \<longleftrightarrow>
     init_ok ho (with_metrics True (telemetry_builder (lit ''global-meter-test''))) (\<lambda>gl eff h. list_ex sets_meter eff)"

definition from_env_reads_otel_service_name :: "host \<Rightarrow> bool" where
  "from_env_reads_otel_service_name ho \<longleftrightarrow>
     init_ok (ho\<lparr>ho_env := (ho_env ho)(lit ''OTEL_SERVICE_NAME'' \<mapsto> lit ''env-driven-svc'')\<rparr>) (with_metrics False telemetry_from_env)
       (\<lambda>gl eff h. True)"

definition with_export_timeout_propagates_to_exporters :: "host \<Rightarrow> bool" where
  "with_export_timeout_propagates_to_exporters ho \<longleftrightarrow>
     init_ok ho (with_logs True (with_metrics True (with_export_timeout (from_secs 5) (telemetry_builder (lit ''timeout-test-svc'')))))
       (\<lambda>gl eff h. hd_meter h \<noteq> None \<and> hd_logger h \<noteq> None)"

definition with_layer_builder_accepts_custom_layer :: "host \<Rightarrow> bool" where
  "with_layer_builder_accepts_custom_layer ho \<longleftrightarrow>
     init_ok ho (with_layer 0 (with_metrics False (telemetry_builder (lit ''custom-layer-single'')))) (\<lambda>gl eff h. True)"

text \<open>The closures that ran on the provider's builder, in their order.\<close>

definition with_meter_provider_setup_runs_in_registration_order :: "host \<Rightarrow> bool" where
  "with_meter_provider_setup_runs_in_registration_order ho \<longleftrightarrow>
     init_ok ho (with_meter_provider_setup 3 (with_meter_provider_setup 2 (with_meter_provider_setup 1 (with_metrics True
         (telemetry_builder (lit ''setup-order-test''))))))
       (\<lambda>gl eff h. case hd_meter h of None \<Rightarrow> False | Some mp \<Rightarrow> mp_installers mp = [1, 2, 3])"

definition with_meter_provider_setup_is_noop_when_metrics_disabled :: "host \<Rightarrow> bool" where
  "with_meter_provider_setup_is_noop_when_metrics_disabled ho \<longleftrightarrow>
     init_ok ho (with_meter_provider_setup 1 (with_metrics False (telemetry_builder (lit ''setup-noop-test''))))
       (\<lambda>gl eff h. hd_meter h = None \<and> \<not> list_ex sets_meter eff)"

definition with_layer_builder_accepts_multiple_custom_layers :: "host \<Rightarrow> bool" where
  "with_layer_builder_accepts_multiple_custom_layers ho \<longleftrightarrow>
     init_ok ho (with_layer 1 (with_layer 0 (with_metrics False (telemetry_builder (lit ''custom-layer-multi''))))) (\<lambda>gl eff h. True)"

section \<open>subscriber_clobber.rs\<close>

text \<open>A subscriber is there already, and the endpoint leads to a dead port.\<close>

definition clobbered :: "host \<Rightarrow> host" where
  "clobbered ho = ho\<lparr>ho_env := (ho_env ho)(lit ''OTEL_EXPORTER_OTLP_ENDPOINT'' \<mapsto> lit ''http://127.0.0.1:1''),
     ho_globals := (ho_globals ho)\<lparr>gl_subscriber_set := True\<rparr>\<rparr>"

definition warns_when_no_logs_and_subscriber_already_installed :: "host \<Rightarrow> bool" where
  "warns_when_no_logs_and_subscriber_already_installed ho \<longleftrightarrow>
     init_ok (clobbered ho) (telemetry_builder (lit ''clobber-test-no-logs'')) (\<lambda>gl eff h. True)"

definition warns_when_logs_enabled_and_subscriber_already_installed :: "host \<Rightarrow> bool" where
  "warns_when_logs_enabled_and_subscriber_already_installed ho \<longleftrightarrow>
     init_ok (clobbered ho) (with_logs True (telemetry_builder (lit ''clobber-test-with-logs''))) (\<lambda>gl eff h. True)"

section \<open>testing.rs\<close>

definition testing_check :: "host \<Rightarrow> rstring \<Rightarrow> (init_effect list \<Rightarrow> handles \<Rightarrow> bool) \<Rightarrow> bool" where
  "testing_check ho name check =
     (let (gl, eff, h) = testing (ho_ext ho) 0 name (ho_globals ho) in check eff h \<and> shuts_down ho gl h)"

definition testing_mode_initialises_without_error :: "host \<Rightarrow> bool" where
  "testing_mode_initialises_without_error ho \<longleftrightarrow> testing_check ho (lit ''test-noop-svc'') (\<lambda>eff h. True)"

definition testing_mode_provides_meter_provider :: "host \<Rightarrow> bool" where
  "testing_mode_provides_meter_provider ho \<longleftrightarrow> testing_check ho (lit ''test-noop-metrics'') (\<lambda>eff h. hd_meter h \<noteq> None)"

definition testing_mode_has_no_logger_provider :: "host \<Rightarrow> bool" where
  "testing_mode_has_no_logger_provider ho \<longleftrightarrow> testing_check ho (lit ''test-noop-logs'') (\<lambda>eff h. hd_logger h = None)"

definition testing_mode_global_meter_is_functional :: "host \<Rightarrow> bool" where
  "testing_mode_global_meter_is_functional ho \<longleftrightarrow> testing_check ho (lit ''test-global-meter'') (\<lambda>eff h. list_ex sets_meter eff)"

section \<open>profiling_feature.rs\<close>

definition profiled :: "rstring \<Rightarrow> builder" where
  "profiled endpoint = with_profiling endpoint (telemetry_builder (lit ''test-service''))"

definition profiling_bridge_enabled_when_sub_feature_active :: "host \<Rightarrow> bool" where
  "profiling_bridge_enabled_when_sub_feature_active ho \<longleftrightarrow> init_ok ho (profiled (lit ''http://localhost:4040'')) (\<lambda>gl eff h. True)"

definition profiling_enabled_but_bridge_not_active :: "host \<Rightarrow> bool" where
  "profiling_enabled_but_bridge_not_active ho \<longleftrightarrow>
     init_ok ho (telemetry_builder (lit ''test-service'')) (\<lambda>gl eff h. hd_profiling h = None)"

definition profiling_bridge_initializes_without_server :: "host \<Rightarrow> bool" where
  "profiling_bridge_initializes_without_server ho \<longleftrightarrow>
     init_ok ho (profiled (lit ''http://localhost:19999'')) (\<lambda>gl eff h. hd_profiling h \<noteq> None)"

definition profiling_bridge_rejects_non_loopback_endpoint :: "host \<Rightarrow> bool" where
  "profiling_bridge_rejects_non_loopback_endpoint ho \<longleftrightarrow>
     (case snd (snd (init_on ho (profiled (lit ''http://10.0.1.5:4040'')))) of
        Inl e \<Rightarrow> contains e (lit ''loopback'') \<or> contains e (lit ''127.0.0.1'') | Inr h \<Rightarrow> False)"

definition profiling_bridge_accepts_ipv6_loopback :: "host \<Rightarrow> bool" where
  "profiling_bridge_accepts_ipv6_loopback ho \<longleftrightarrow> init_ok ho (profiled (lit ''http://[::1]:4040'')) (\<lambda>gl eff h. True)"

definition profiling_bridge_accepts_unix_socket :: "host \<Rightarrow> bool" where
  "profiling_bridge_accepts_unix_socket ho \<longleftrightarrow> init_ok ho (profiled (lit ''unix:///tmp/pyroscope.sock'')) (\<lambda>gl eff h. True)"

definition profiling_feature_disabled :: "host \<Rightarrow> bool" where
  "profiling_feature_disabled ho \<longleftrightarrow> init_ok ho (telemetry_builder (lit ''test-service'')) (\<lambda>gl eff h. True)"

section \<open>mtls_exporters.rs\<close>

definition NOWHERE :: rstring where
  "NOWHERE = lit ''https://127.0.0.1:1''"

text \<open>The material is what the fixtures hold.\<close>

definition material_debug_never_prints_key_bytes :: "mtls_material \<Rightarrow> bool" where
  "material_debug_never_prints_key_bytes m \<longleftrightarrow>
     (let rendered = mtls_material_debug m in \<not> contains rendered (lit ''BEGIN'') \<and> contains rendered (lit ''redacted''))"

definition a_snapshot_builds_all_three_exporters :: "mtls_material \<Rightarrow> host \<Rightarrow> bool" where
  "a_snapshot_builds_all_three_exporters m ho \<longleftrightarrow>
     init_ok ho (with_mtls m (with_default_endpoint NOWHERE (with_logs True (telemetry_builder (lit ''mtls-snapshot'')))))
       (\<lambda>gl eff h. hd_meter h \<noteq> None \<and> hd_logger h \<noteq> None)"

definition a_live_source_that_is_not_ready_does_not_fail_init :: "host \<Rightarrow> bool" where
  "a_live_source_that_is_not_ready_does_not_fail_init ho \<longleftrightarrow>
     init_ok ho (with_mtls_source (\<lambda>n. None) (with_default_endpoint NOWHERE (with_logs True
         (telemetry_builder (lit ''mtls-live-not-ready'')))))
       (\<lambda>gl eff h. hd_meter h \<noteq> None \<and> hd_logger h \<noteq> None)"

definition a_live_source_replaces_an_earlier_snapshot :: "mtls_material \<Rightarrow> host \<Rightarrow> bool" where
  "a_live_source_replaces_an_earlier_snapshot m ho \<longleftrightarrow>
     init_ok ho (with_mtls_source (static_cert_source m) (with_mtls m (with_default_endpoint NOWHERE
         (telemetry_builder (lit ''mtls-live-replaces''))))) (\<lambda>gl eff h. True)"

definition a_snapshot_replaces_an_earlier_live_source :: "mtls_material \<Rightarrow> host \<Rightarrow> bool" where
  "a_snapshot_replaces_an_earlier_live_source m ho \<longleftrightarrow>
     init_ok ho (with_mtls m (with_default_endpoint NOWHERE (with_mtls_source (static_cert_source m) (with_default_endpoint NOWHERE
         (telemetry_builder (lit ''mtls-snapshot-replaces'')))))) (\<lambda>gl eff h. True)"

definition a_pinned_collector_identity_builds_all_three_exporters_over_a_snapshot :: "mtls_material \<Rightarrow> host \<Rightarrow> bool" where
  "a_pinned_collector_identity_builds_all_three_exporters_over_a_snapshot m ho \<longleftrightarrow>
     init_ok ho (with_collector_spiffe_id (lit ''spiffe://brefwiz.e2e/otel-collector'') (with_mtls m (with_default_endpoint NOWHERE
         (with_logs True (telemetry_builder (lit ''mtls-pinned-snapshot''))))))
       (\<lambda>gl eff h. hd_meter h \<noteq> None \<and> hd_logger h \<noteq> None)"

section \<open>They pass\<close>

lemma no_profiling: "bd_pyroscope_endpoint b = None \<Longrightarrow> endpoint_valid ho b"
  by (simp add: endpoint_valid_def)

lemma obliging_same [simp]:
  "k \<noteq> lit ''OTEL_TRACES_SAMPLER'' \<Longrightarrow> obliging (ho\<lparr>ho_env := (ho_env ho)(k \<mapsto> v)\<rparr>) = obliging ho"
  "obliging (ho\<lparr>ho_globals := g\<rparr>) = obliging ho"
  by (auto simp: obliging_def)

lemma clobbered_obliging: "obliging ho \<Longrightarrow> obliging (clobbered ho)"
  by (simp add: clobbered_def obliging_def lit_def)

lemma builder_tests_on_host_pass:
  assumes "obliging ho"
  shows "builder_with_all_options_produces_valid_handles ho" "builder_with_metrics_disabled_produces_no_meter_provider ho"
    "builder_with_logs_enabled_produces_logger_provider ho" "builder_with_logs_disabled_produces_no_logger_provider ho"
    "builder_with_programmatic_json_logging_initialises_successfully ho" "builder_with_custom_batch_size_initialises_successfully ho"
    "builder_with_custom_metric_interval_initialises_successfully ho" "global_meter_is_functional_after_init ho"
    "with_export_timeout_propagates_to_exporters ho" "with_layer_builder_accepts_custom_layer ho"
    "with_meter_provider_setup_is_noop_when_metrics_disabled ho" "with_layer_builder_accepts_multiple_custom_layers ho"
  unfolding builder_with_all_options_produces_valid_handles_def builder_with_metrics_disabled_produces_no_meter_provider_def
    builder_with_logs_enabled_produces_logger_provider_def builder_with_logs_disabled_produces_no_logger_provider_def
    builder_with_programmatic_json_logging_initialises_successfully_def builder_with_custom_batch_size_initialises_successfully_def
    builder_with_custom_metric_interval_initialises_successfully_def global_meter_is_functional_after_init_def
    with_export_timeout_propagates_to_exporters_def with_layer_builder_accepts_custom_layer_def
    with_meter_provider_setup_is_noop_when_metrics_disabled_def with_layer_builder_accepts_multiple_custom_layers_def
  by (rule init_okI [OF assms]; simp add: builder_eval no_profiling always_shuts_down from_secs_def)+

lemma setup_order_passes:
  assumes "obliging ho"
  shows "with_meter_provider_setup_runs_in_registration_order ho"
  unfolding with_meter_provider_setup_runs_in_registration_order_def
  by (rule init_okI [OF assms]) (auto simp: builder_eval no_profiling)

lemma from_env_passes:
  assumes "obliging ho"
  shows "from_env_reads_otel_service_name ho"
proof -
  have "obliging (ho\<lparr>ho_env := (ho_env ho)(lit ''OTEL_SERVICE_NAME'' \<mapsto> v)\<rparr>)" for v
    using assms by (simp add: lit_def)
  then show ?thesis
    unfolding from_env_reads_otel_service_name_def by (rule init_okI) (simp_all add: builder_eval no_profiling)
qed

lemma sampler_delegate_passes:
  assumes "obliging ho"
  shows "init_telemetry_with_sampler_delegates_to_builder ho"
proof -
  have "init_ok ho (with_sampler AlwaysOff (telemetry_builder (lit ''sampler-delegate-test''))) (\<lambda>gl eff h. shuts_down ho gl h)"
    by (rule init_okI [OF assms]) (simp_all add: builder_eval no_profiling always_shuts_down)
  then show ?thesis
    by (simp add: init_telemetry_with_sampler_delegates_to_builder_def init_telemetry_with_sampler_def init_ok_def init_on_def)
qed

lemma clobber_tests_pass:
  assumes "obliging ho"
  shows "warns_when_no_logs_and_subscriber_already_installed ho" "warns_when_logs_enabled_and_subscriber_already_installed ho"
  unfolding warns_when_no_logs_and_subscriber_already_installed_def warns_when_logs_enabled_and_subscriber_already_installed_def
  by (rule init_okI [OF clobbered_obliging [OF assms]]; simp add: builder_eval no_profiling)+

lemma testing_tests_pass:
  "testing_mode_initialises_without_error ho" "testing_mode_provides_meter_provider ho"
  "testing_mode_has_no_logger_provider ho" "testing_mode_global_meter_is_functional ho"
  by (simp_all add: testing_mode_initialises_without_error_def testing_mode_provides_meter_provider_def
      testing_mode_has_no_logger_provider_def testing_mode_global_meter_is_functional_def testing_check_def testing_def
      always_shuts_down case_prod_beta Let_def)

text \<open>What the URL parser says of the endpoints, as in the unit tests.\<close>

lemma profiling_tests_on_host_pass:
  assumes ok: "obliging ho" and url: "p = pe_parse_url (xe_prof (ho_ext ho))"
  shows "parses p ''http://localhost:4040'' '''' None ''localhost'' \<Longrightarrow> profiling_bridge_enabled_when_sub_feature_active ho"
    and "\<not> bridged ho \<Longrightarrow> profiling_enabled_but_bridge_not_active ho"
    and "bridged ho \<Longrightarrow> \<not> gl_profiling_started (ho_globals ho) \<Longrightarrow> parses p ''http://localhost:19999'' '''' None ''localhost'' \<Longrightarrow>
      profiling_bridge_initializes_without_server ho"
    and "parses p ''http://[::1]:4040'' '''' None ''[::1]'' \<Longrightarrow> profiling_bridge_accepts_ipv6_loopback ho"
    and "profiling_bridge_accepts_unix_socket ho" and "profiling_feature_disabled ho"
  unfolding profiling_bridge_enabled_when_sub_feature_active_def profiling_enabled_but_bridge_not_active_def
    profiling_bridge_initializes_without_server_def profiling_bridge_accepts_ipv6_loopback_def
    profiling_bridge_accepts_unix_socket_def profiling_feature_disabled_def profiled_def
  by (rule init_okI [OF ok]; simp add: builder_eval endpoint_valid_def profiles_def bridged_def parses_def url [symmetric]
      validate_pyroscope_endpoint_def loopback_hosts_def; simp add: lit_def)+

lemma non_loopback_passes:
  assumes "obliging ho" "bridged ho"
    and "parses (pe_parse_url (xe_prof (ho_ext ho))) ''http://10.0.1.5:4040'' '''' None ''10.0.1.5''"
  shows "profiling_bridge_rejects_non_loopback_endpoint ho"
proof -
  let ?e = "lit ''pyroscope endpoint must target loopback (127.0.0.1, ::1, localhost, or unix socket); got: ''
      @ lit ''http://10.0.1.5:4040'' @ lit '' (ADR platform/0203 AC1)''"
  have "snd (snd (init_on ho (profiled (lit ''http://10.0.1.5:4040'')))) = Inl ?e"
    using assms(3)
    by (intro bad_endpoint_fails [OF assms(1) _ assms(2), of _ "lit ''http://10.0.1.5:4040''"])
       (simp_all add: profiled_def builder_eval parses_def validate_pyroscope_endpoint_def loopback_hosts_def, simp_all add: lit_def)
  moreover have "contains ?e (lit ''loopback'')"
    using contains_append [of "lit ''pyroscope endpoint must target ''" "lit ''loopback''"] by (simp add: lit_def)
  ultimately show ?thesis by (simp add: profiling_bridge_rejects_non_loopback_endpoint_def)
qed

lemma mtls_exporters_tests_pass:
  assumes "obliging ho"
  shows "a_snapshot_builds_all_three_exporters m ho" "a_live_source_that_is_not_ready_does_not_fail_init ho"
    "a_live_source_replaces_an_earlier_snapshot m ho" "a_snapshot_replaces_an_earlier_live_source m ho"
    "a_pinned_collector_identity_builds_all_three_exporters_over_a_snapshot m ho"
  unfolding a_snapshot_builds_all_three_exporters_def a_live_source_that_is_not_ready_does_not_fail_init_def
    a_live_source_replaces_an_earlier_snapshot_def a_snapshot_replaces_an_earlier_live_source_def
    a_pinned_collector_identity_builds_all_three_exporters_over_a_snapshot_def
  by (rule init_okI [OF assms]; simp add: builder_eval no_profiling)+

lemma material_debug_passes: "material_debug_never_prints_key_bytes m"
  unfolding material_debug_never_prints_key_bytes_def mtls_material_debug_def Let_def by (simp add: lit_def)

end
