(* ===== verification/BootProcessTests.thy ===== *)
theory BootProcessTests
  imports BootTests
begin

text \<open>
  The integration tests of the boot timeline (\<open>src/tests/boot_timeline.rs\<close>,
  \<open>boot_timeline_incomplete.rs\<close>, \<open>boot_timeline_ready_first.rs\<close> and the collector of
  \<open>boot_collector/mod.rs\<close> they share), each as what it asserts of the model under its own name. A
  process is its sequence of calls on the global timeline: an initialisation attaches its provider,
  the shutdown of the handles that own the timeline closes it.
\<close>

section \<open>The collector\<close>

text \<open>
  A span as it reaches the collector of a provider: itself, and the root of its trace, which is
  its parent unless it is the root.
\<close>

record otlp_span =
  os_span :: span
  os_root :: exporter
  os_is_root :: bool

fun collected :: "nat \<Rightarrow> effect list \<Rightarrow> otlp_span list" where
  "collected p [] = []"
| "collected p (SpanEnd ex sp # es) =
     (if ex_provider ex = p then [\<lparr>os_span = sp, os_root = ex, os_is_root = False\<rparr>] else []) @ collected p es"
| "collected p (RootEnd ex outcome' cnt dropped w # es) =
     (if ex_provider ex = p
      then [\<lparr>os_span = \<lparr>sp_name = lit ''boot'', sp_start = ex_root_start ex, sp_end = w,
               sp_attrs = [(lit ''boot.origin'', VStr (origin_str (ex_root_origin ex))), (lit ''boot.outcome'', VStr outcome')],
               sp_error = None\<rparr>, os_root = ex, os_is_root = True\<rparr>]
      else []) @ collected p es"
| "collected p (e # es) = collected p es"

definition named :: "otlp_span list \<Rightarrow> rstring \<Rightarrow> otlp_span list" where
  "named spans name = filter (\<lambda>s. sp_name (os_span s) = name) spans"

definition string_attribute :: "otlp_span \<Rightarrow> rstring \<Rightarrow> rstring option" where
  "string_attribute s key = (case map_of (sp_attrs (os_span s)) key of Some (VStr text) \<Rightarrow> Some text | _ \<Rightarrow> None)"

definition child_of :: "otlp_span \<Rightarrow> otlp_span \<Rightarrow> bool" where
  "child_of s root \<longleftrightarrow> \<not> os_is_root s \<and> os_is_root root \<and> os_root s = os_root root"

text \<open>\<open>telemetry_exporting_to_collector\<close>: provider \<open>n\<close> exports to collector \<open>n\<close>.\<close>

definition telemetry_exporting_to_collector :: "rstring \<Rightarrow> config \<Rightarrow> nat \<Rightarrow> rstring \<Rightarrow> config" where
  "telemetry_exporting_to_collector dflt c n service = seq_call dflt c (AttachCall n service)"

section \<open>The tests\<close>

text \<open>\<open>t\<close> gives the readings of the clock in their order.\<close>

definition phases_are_exported_once_with_their_original_timestamps :: "rstring \<Rightarrow> (nat \<Rightarrow> instant) \<Rightarrow> config \<Rightarrow> bool" where
  "phases_are_exported_once_with_their_original_timestamps dflt t c \<longleftrightarrow>
     (let (c, slept) = time (config_record dflt) c (lit ''identity'') (t 0) (\<lambda>c. (c, Completed ())) (t 1) (t 2);
          c = guard_fail (config_record dflt) c (phase_guard (lit ''config'') (t 3)) (t 4) (t 5);
          before_init = phases (cf_tl c);
          c = telemetry_exporting_to_collector dflt c 0 (lit ''boot-timeline-test'');
          c = guard_finish (config_record dflt) c (phase_guard (lit ''broker-connect'') (t 6)) (t 7) (t 8);
          c = seq_call dflt c (ReadyCall (t 9));
          again = fst (flush (cf_tl c) 0 (lit ''someone-else''));
          c = telemetry_exporting_to_collector dflt c 1 (lit ''second-init'');
          c = seq_call dflt c (CloseCall (t 10));
          spans = collected 0 (cf_out c);
          roots = named spans (lit ''boot'');
          root = hd roots;
          everything = phases (cf_tl c)
      in again = 0 \<and> length roots = 1
         \<and> string_attribute root (lit ''boot.outcome'') = Some (lit ''ready'')
         \<and> string_attribute root (lit ''boot.origin'') = Some (origin_str (tl_source (cf_tl c)))
         \<and> length everything = 3
         \<and> list_all (\<lambda>ph. length (named spans (ph_name ph)) = 1
              \<and> (let s = hd (named spans (ph_name ph))
                 in child_of s root \<and> sp_start (os_span s) = ph_start ph \<and> sp_end (os_span s) = ph_end ph
                    \<and> string_attribute s (lit ''boot.outcome'') = Some (outcome_str (ph_outcome ph)))) everything
         \<and> take 2 everything = before_init
         \<and> sp_error (os_span (hd (named spans (lit ''config'')))) \<noteq> None
         \<and> sp_start (os_span root) \<le> ph_start (everything ! 0) \<and> ph_end (everything ! 2) \<le> sp_end (os_span root))"

definition shutdown_before_ready_exports_an_incomplete_root :: "rstring \<Rightarrow> (nat \<Rightarrow> instant) \<Rightarrow> config \<Rightarrow> bool" where
  "shutdown_before_ready_exports_an_incomplete_root dflt t c \<longleftrightarrow>
     (let c = telemetry_exporting_to_collector dflt c 0 (lit ''boot-incomplete-test'');
          c = guard_finish (config_record dflt) c (phase_guard (lit ''config'') (t 0)) (t 1) (t 2);
          c = seq_call dflt c (CloseCall (t 3));
          spans = collected 0 (cf_out c);
          roots = named spans (lit ''boot'')
      in length roots = 1 \<and> string_attribute (hd roots) (lit ''boot.outcome'') = Some (lit ''incomplete'')
         \<and> child_of (hd (named spans (lit ''config''))) (hd roots))"

text \<open>\<open>ready_by\<close> is the wall clock read after \<open>ready\<close>.\<close>

definition a_boot_ready_before_init_exports_its_root_at_ready :: "rstring \<Rightarrow> (nat \<Rightarrow> instant) \<Rightarrow> systime \<Rightarrow> config \<Rightarrow> bool" where
  "a_boot_ready_before_init_exports_its_root_at_ready dflt t ready_by c \<longleftrightarrow>
     (let (c, value) = try_time (config_record dflt) c (lit ''config'') (t 0) (\<lambda>c. (c, Completed (Inr 7))) (t 1) (t 2);
          c = seq_call dflt c (ReadyCall (t 3));
          c = telemetry_exporting_to_collector dflt c 0 (lit ''boot-ready-first-test'');
          c = seq_call dflt c (CloseCall (t 4));
          spans = collected 0 (cf_out c);
          roots = named spans (lit ''boot'');
          configs = named spans (lit ''config'')
      in value = Completed (Inr (7 :: nat) :: unit + nat) \<and> length roots = 1
         \<and> string_attribute (hd roots) (lit ''boot.outcome'') = Some (lit ''ready'')
         \<and> sp_end (os_span (hd roots)) \<le> ready_by
         \<and> length configs = 1 \<and> child_of (hd configs) (hd roots)
         \<and> sp_end (os_span (hd configs)) = ph_end (phases (cf_tl c) ! 0))"

section \<open>They pass\<close>

lemma collected_append: "collected p (xs @ ys) = collected p xs @ collected p ys"
proof (induction xs)
  case (Cons e xs)
  then show ?case by (cases e) simp_all
qed simp

lemma out_seq: "quiet c \<Longrightarrow> cf_out (seq_call dflt c k) = cf_out c @ call_effects dflt c k"
  unfolding quiet_def by (simp add: seq_call_def drain_def call_effects_def del: concat_eq_Nil_conv)

lemma nothing_out: "cf_out (capturing now now' w1 w2) = []"
  by (simp add: capturing_def init_config_def)

text \<open>What one call does to the state and to the collector, for a run that is followed call by call.\<close>

definition child_span :: "nat \<Rightarrow> exporter \<Rightarrow> phase \<Rightarrow> otlp_span list" where
  "child_span p ex ph = (if ex_provider ex = p then [\<lparr>os_span = phase_span ph, os_root = ex, os_is_root = False\<rparr>] else [])"

definition root_span :: "nat \<Rightarrow> exporter \<Rightarrow> rstring \<Rightarrow> systime \<Rightarrow> otlp_span list" where
  "root_span p ex how w =
     (if ex_provider ex = p
      then [\<lparr>os_span = \<lparr>sp_name = lit ''boot'', sp_start = ex_root_start ex, sp_end = w,
               sp_attrs = [(lit ''boot.origin'', VStr (origin_str (ex_root_origin ex))), (lit ''boot.outcome'', VStr how)],
               sp_error = None\<rparr>, os_root = ex, os_is_root = True\<rparr>]
      else [])"

lemma collected_export: "collected p (export ex ph) = child_span p ex ph"
  by (cases "ph_outcome ph") (simp_all add: export_def child_span_def phase_event_def Let_def)

lemma collected_exports: "collected p (concat (map (export ex \<circ> f) xs)) = concat (map (child_span p ex \<circ> f) xs)"
  by (induction xs) (simp_all add: collected_append collected_export)

lemma collected_end: "collected p (end_root_span ex w how n d) = root_span p ex how w"
  by (simp add: end_root_span_def root_span_def)

definition went :: "config \<Rightarrow> timeline \<Rightarrow> otlp_span list \<Rightarrow> bool" where
  "went c tm spans \<longleftrightarrow> quiet c \<and> cf_tl c = tm \<and> collected 0 (cf_out c) = spans"

lemma went_start: "went (capturing now now' w1 w2) (timeline_new now now' w1 w2) []"
  by (simp add: went_def capturing_sel nothing_out)

lemma went_call:
  assumes "went c tm spans"
  shows "went (seq_call dflt c k) (fst (exec_call dflt tm k))
    (spans @ collected 0 (fst (snd (exec_call dflt tm k))) @ collected 0 (snd (snd (exec_call dflt tm k))))"
  using assms by (simp add: went_def quiet_seq out_seq collected_append call_effects_def call_inside_def call_after_def)

text \<open>The calls of the tests, on a timeline that is neither full nor closed.\<close>

definition tl_at :: "timeline \<Rightarrow> rstring option \<Rightarrow> recorded list \<Rightarrow> (systime \<times> duration) option \<Rightarrow> exporter option \<Rightarrow> bool \<Rightarrow> timeline" where
  "tl_at tm service rs rdy ex ended = tm\<lparr>tl_state := \<lparr>bs_service = service, bs_phases = rs, bs_dropped = 0, bs_ready = rdy,
     bs_exporter = ex, bs_root_ended = ended\<rparr>\<rparr>"

lemma tl_at_sel [simp]:
  "tl_origin (tl_at tm sv rs rdy ex en) = tl_origin tm" "tl_wall (tl_at tm sv rs rdy ex en) = tl_wall tm"
  "tl_source (tl_at tm sv rs rdy ex en) = tl_source tm" "phases (tl_at tm sv rs rdy ex en) = map rec_phase rs"
  "tl_state (tl_at tm sv rs rdy ex en) = \<lparr>bs_service = sv, bs_phases = rs, bs_dropped = 0, bs_ready = rdy, bs_exporter = ex, bs_root_ended = en\<rparr>"
  "tl_at (tl_at tm sv rs rdy ex en) sv' rs' rdy' ex' en' = tl_at tm sv' rs' rdy' ex' en'"
  "wall (tl_at tm sv rs rdy ex en) = wall tm" "mk_phase (tl_at tm sv rs rdy ex en) = mk_phase tm"
  by (simp_all add: tl_at_def phases_def wall_def mk_phase_def fun_eq_iff)

lemma went_fresh: "went (capturing now now' w1 w2) (tl_at (timeline_new now now' w1 w2) None [] None None False) []"
  using went_start [of now now' w1 w2] by (simp add: tl_at_def timeline_new_def starting_at_def bstate_default_def)

lemma went_record:
  assumes "went c (tl_at tm sv rs rdy ex en) spans" and "length rs < MAX_PHASES"
  shows "went (seq_call dflt c (RecordCall n s e o'))
    (tl_at tm sv (rs @ [\<lparr>rec_phase = mk_phase tm n s e o', rec_exported = (ex \<noteq> None)\<rparr>]) rdy ex en)
    (spans @ (case ex of None \<Rightarrow> [] | Some x \<Rightarrow> child_span 0 x (mk_phase tm n s e o')))"
  using went_call [OF assms(1), of dflt "RecordCall n s e o'"] assms(2)
  by (simp add: record_phase_def Let_def collected_export split: option.splits) (simp_all add: tl_at_def)

lemma went_ready:
  assumes "went c (tl_at tm sv rs None ex False) spans"
  shows "went (seq_call dflt c (ReadyCall e))
    (tl_at tm sv rs (Some (wall tm e, saturating_duration_since e (tl_origin tm))) ex (ex \<noteq> None))
    (spans @ (case ex of None \<Rightarrow> [] | Some x \<Rightarrow> root_span 0 x (lit ''ready'') (wall tm e)))"
  using went_call [OF assms, of dflt "ReadyCall e"]
  by (simp add: ready_def Let_def take_root_to_end_def collected_append collected_end ready_event_def split: option.splits)
     (simp_all add: tl_at_def)

lemma went_attach:
  assumes "went c (tl_at tm sv rs rdy None False) spans"
  shows "went (seq_call dflt c (AttachCall p n))
    (tl_at tm (or_else sv (Some n)) (map (\<lambda>r. r\<lparr>rec_exported := True\<rparr>) rs) rdy (Some (root_of tm p)) (rdy \<noteq> None))
    (spans @ concat (map (child_span 0 (root_of tm p)) (map rec_phase (filter (\<lambda>r. \<not> rec_exported r) rs)))
       @ (case rdy of None \<Rightarrow> [] | Some (w, at) \<Rightarrow> root_span 0 (root_of tm p) (lit ''ready'') w))"
proof -
  have "root_of (tl_at tm sv rs rdy None False) p = root_of tm p" by (simp add: root_of_def)
  with went_call [OF assms, of dflt "AttachCall p n"] show ?thesis
    by (simp add: attach_first attached_def attached_state_def attach_tail_def unexported_def collected_exports collected_append
        collected_end ready_event_def split: option.splits) (auto simp add: tl_at_def collected_append collected_end)
qed

lemma went_attach_again:
  assumes "went c (tl_at tm sv rs rdy (Some x) en) spans"
  shows "went (seq_call dflt c (AttachCall p n)) (tl_at tm sv rs rdy (Some x) en) spans"
  using went_call [OF assms, of dflt "AttachCall p n"] by (simp add: attach_def)

lemma went_close:
  assumes "went c (tl_at tm sv rs rdy (Some x) en) spans"
  shows "went (seq_call dflt c (CloseCall e)) (tl_at tm sv rs rdy (Some x) True)
    (spans @ (if en then [] else root_span 0 x (lit ''incomplete'') (wall tm e)))"
  using went_call [OF assms, of dflt "CloseCall e"]
  by (simp add: close_def Let_def take_root_to_end_def collected_end split: if_splits) (simp_all add: tl_at_def)

text \<open>The spans the tests look for.\<close>

lemma span_sel:
  "sp_name (phase_span ph) = ph_name ph" "sp_start (phase_span ph) = ph_start ph" "sp_end (phase_span ph) = ph_end ph"
  "map_of (sp_attrs (phase_span ph)) (lit ''boot.outcome'') = Some (VStr (outcome_str (ph_outcome ph)))"
  "sp_error (phase_span ph) = (if ph_outcome ph = Failed then Some (lit ''boot phase did not complete'') else None)"
  by (simp_all add: phase_span_def lit_def)

lemma mk_phase_sel:
  "ph_name (mk_phase tm n s e o') = n" "ph_outcome (mk_phase tm n s e o') = o'" "ph_start (mk_phase tm n s e o') = wall tm s"
  "ph_end (mk_phase tm n s e o') = wall tm e"
  by (simp_all add: mk_phase_def)

lemma names_differ:
  "lit ''config'' \<noteq> lit ''boot''" "lit ''identity'' \<noteq> lit ''boot''" "lit ''broker-connect'' \<noteq> lit ''boot''"
  "lit ''boot'' \<noteq> lit ''config''" "lit ''boot'' \<noteq> lit ''identity''" "lit ''boot'' \<noteq> lit ''broker-connect''"
  "lit ''identity'' \<noteq> lit ''config''" "lit ''config'' \<noteq> lit ''identity''" "lit ''broker-connect'' \<noteq> lit ''config''"
  "lit ''config'' \<noteq> lit ''broker-connect''" "lit ''identity'' \<noteq> lit ''broker-connect''" "lit ''broker-connect'' \<noteq> lit ''identity''"
  "lit ''boot.origin'' \<noteq> lit ''boot.outcome''"
  by (simp_all add: lit_def)

lemmas spans_eval = span_sel mk_phase_sel names_differ names_differ(13) [symmetric] child_span_def root_span_def named_def string_attribute_def child_of_def
  root_of_def

lemma incomplete_passes: "shutdown_before_ready_exports_an_incomplete_root dflt t (capturing now now' w1 w2)"
proof -
  let ?tm = "timeline_new now now' w1 w2" and ?n = "lit ''boot-incomplete-test''"
  let ?ph = "mk_phase ?tm (lit ''config'') (t 0) (t 1) Ok"
  let ?a = "seq_call dflt (capturing now now' w1 w2) (AttachCall 0 ?n)"
  let ?b = "seq_call dflt ?a (RecordCall (lit ''config'') (t 0) (t 1) Ok)"
  have a: "went ?a (tl_at ?tm (Some ?n) [] None (Some (root_of ?tm 0)) False) []"
    using went_attach [OF went_fresh [of now now' w1 w2], where dflt = dflt and p = 0 and n = ?n] by (simp add: or_else_def)
  have b: "went ?b (tl_at ?tm (Some ?n) [\<lparr>rec_phase = ?ph, rec_exported = True\<rparr>] None (Some (root_of ?tm 0)) False)
      (child_span 0 (root_of ?tm 0) ?ph)"
    using went_record [OF a, where dflt = dflt and n = "lit ''config''" and s = "t 0" and e = "t 1" and o' = Ok]
    by (simp add: MAX_PHASES_def)
  have "collected 0 (cf_out (seq_call dflt ?b (CloseCall (t 3))))
    = child_span 0 (root_of ?tm 0) ?ph @ root_span 0 (root_of ?tm 0) (lit ''incomplete'') (wall ?tm (t 3))"
    using went_close [OF b, where dflt = dflt and e = "t 3"] by (simp add: went_def)
  then show ?thesis
    by (simp add: shutdown_before_ready_exports_an_incomplete_root_def telemetry_exporting_to_collector_def guards_record
        config_record_def spans_eval Let_def)
qed

text \<open>The wall clock reads no less after \<open>ready\<close> than the timeline takes it to be then.\<close>

lemma ready_first_passes:
  assumes "wall (timeline_new now now' w1 w2) (t 3) \<le> ready_by"
  shows "a_boot_ready_before_init_exports_its_root_at_ready dflt t ready_by (capturing now now' w1 w2)"
proof -
  let ?tm = "timeline_new now now' w1 w2" and ?n = "lit ''boot-ready-first-test''"
  let ?ph = "mk_phase ?tm (lit ''config'') (t 0) (t 1) Ok" and ?at = "(wall ?tm (t 3), saturating_duration_since (t 3) (tl_origin ?tm))"
  let ?b = "seq_call dflt (capturing now now' w1 w2) (RecordCall (lit ''config'') (t 0) (t 1) Ok)"
  let ?c = "seq_call dflt ?b (ReadyCall (t 3))"
  let ?d = "seq_call dflt ?c (AttachCall 0 ?n)"
  let ?spans = "child_span 0 (root_of ?tm 0) ?ph @ root_span 0 (root_of ?tm 0) (lit ''ready'') (wall ?tm (t 3))"
  have b: "went ?b (tl_at ?tm None [\<lparr>rec_phase = ?ph, rec_exported = False\<rparr>] None None False) []"
    using went_record [OF went_fresh [of now now' w1 w2], where dflt = dflt and n = "lit ''config''" and s = "t 0" and e = "t 1" and o' = Ok]
    by (simp add: MAX_PHASES_def)
  have c: "went ?c (tl_at ?tm None [\<lparr>rec_phase = ?ph, rec_exported = False\<rparr>] (Some ?at) None False) []"
    using went_ready [OF b, where dflt = dflt and e = "t 3"] by simp
  have d: "went ?d (tl_at ?tm (Some ?n) [\<lparr>rec_phase = ?ph, rec_exported = True\<rparr>] (Some ?at) (Some (root_of ?tm 0)) True) ?spans"
    using went_attach [OF c, where dflt = dflt and p = 0 and n = ?n] by (simp add: or_else_def)
  have "collected 0 (cf_out (seq_call dflt ?d (CloseCall (t 4)))) = ?spans" "phases (cf_tl (seq_call dflt ?d (CloseCall (t 4)))) = [?ph]"
    using went_close [OF d, where dflt = dflt and e = "t 4"] by (simp_all add: went_def del: drain_sel)
  with assms show ?thesis
    by (simp add: a_boot_ready_before_init_exports_its_root_at_ready_def telemetry_exporting_to_collector_def timed_record
        config_record_def spans_eval Let_def del: drain_sel)
qed

text \<open>The clock does not go back between the last phase and \<open>ready\<close>.\<close>

lemma exported_once_passes:
  assumes "t 7 \<le> t 9"
  shows "phases_are_exported_once_with_their_original_timestamps dflt t (capturing now now' w1 w2)"
proof -
  let ?tm = "timeline_new now now' w1 w2" and ?n = "lit ''boot-timeline-test''"
  let ?i = "mk_phase ?tm (lit ''identity'') (t 0) (t 1) Ok" and ?f = "mk_phase ?tm (lit ''config'') (t 3) (t 4) Failed"
  let ?k = "mk_phase ?tm (lit ''broker-connect'') (t 6) (t 7) Ok" and ?r = "root_of ?tm 0"
  let ?at = "(wall ?tm (t 9), saturating_duration_since (t 9) (tl_origin ?tm))"
  let ?a = "seq_call dflt (capturing now now' w1 w2) (RecordCall (lit ''identity'') (t 0) (t 1) Ok)"
  let ?b = "seq_call dflt ?a (RecordCall (lit ''config'') (t 3) (t 4) Failed)"
  let ?c = "seq_call dflt ?b (AttachCall 0 ?n)"
  let ?d = "seq_call dflt ?c (RecordCall (lit ''broker-connect'') (t 6) (t 7) Ok)"
  let ?e = "seq_call dflt ?d (ReadyCall (t 9))"
  let ?g = "seq_call dflt ?e (AttachCall 1 (lit ''second-init''))"
  let ?spans = "child_span 0 ?r ?i @ child_span 0 ?r ?f @ child_span 0 ?r ?k @ root_span 0 ?r (lit ''ready'') (wall ?tm (t 9))"
  let ?rs = "\<lambda>out phs. map (\<lambda>ph. \<lparr>rec_phase = ph, rec_exported = out\<rparr>) phs"
  have a: "went ?a (tl_at ?tm None (?rs False [?i]) None None False) []"
    using went_record [OF went_fresh [of now now' w1 w2], where dflt = dflt and n = "lit ''identity''" and s = "t 0" and e = "t 1" and o' = Ok]
    by (simp add: MAX_PHASES_def)
  have b: "went ?b (tl_at ?tm None (?rs False [?i, ?f]) None None False) []"
    using went_record [OF a, where dflt = dflt and n = "lit ''config''" and s = "t 3" and e = "t 4" and o' = Failed]
    by (simp add: MAX_PHASES_def)
  have c: "went ?c (tl_at ?tm (Some ?n) (?rs True [?i, ?f]) None (Some ?r) False) (child_span 0 ?r ?i @ child_span 0 ?r ?f)"
    using went_attach [OF b, where dflt = dflt and p = 0 and n = ?n] by (simp add: or_else_def)
  have d: "went ?d (tl_at ?tm (Some ?n) (?rs True [?i, ?f, ?k]) None (Some ?r) False)
      (child_span 0 ?r ?i @ child_span 0 ?r ?f @ child_span 0 ?r ?k)"
    using went_record [OF c, where dflt = dflt and n = "lit ''broker-connect''" and s = "t 6" and e = "t 7" and o' = Ok]
    by (simp add: MAX_PHASES_def)
  have e: "went ?e (tl_at ?tm (Some ?n) (?rs True [?i, ?f, ?k]) (Some ?at) (Some ?r) True) ?spans"
    using went_ready [OF d, where dflt = dflt and e = "t 9"] by simp
  have g: "went ?g (tl_at ?tm (Some ?n) (?rs True [?i, ?f, ?k]) (Some ?at) (Some ?r) True) ?spans"
    using went_attach_again [OF e, where dflt = dflt and p = 1 and n = "lit ''second-init''"] by simp
  have "collected 0 (cf_out (seq_call dflt ?g (CloseCall (t 10)))) = ?spans"
    "cf_tl (seq_call dflt ?g (CloseCall (t 10))) = tl_at ?tm (Some ?n) (?rs True [?i, ?f, ?k]) (Some ?at) (Some ?r) True"
    using went_close [OF g, where dflt = dflt and e = "t 10"] by (simp_all add: went_def del: drain_sel)
  moreover have "phases (cf_tl ?b) = [?i, ?f]" "cf_tl ?e = tl_at ?tm (Some ?n) (?rs True [?i, ?f, ?k]) (Some ?at) (Some ?r) True"
    using b e by (simp_all add: went_def del: drain_sel)
  moreover have "wall ?tm (t 7) \<le> wall ?tm (t 9)" "tl_wall ?tm \<le> wall ?tm (t 0)"
    using assms by (simp_all add: wall_def saturating_duration_since_def)
  ultimately show ?thesis
    by (simp add: phases_are_exported_once_with_their_original_timestamps_def telemetry_exporting_to_collector_def timed_record
        guards_record config_record_def flush_def attach_def unwrap_or_def spans_eval Let_def del: drain_sel)
qed

end
