(* ===== verification/FlowTests.thy ===== *)
theory FlowTests
  imports RequestFlow ExportRetry
begin

text \<open>
  The integration tests of requests and exports, each as what it asserts of the model under its own
  name: \<open>src/tests/axum_middleware.rs\<close>, the test of \<open>span_enrichment.rs\<close> without a context on
  the request, and the two of a collector that listens late (\<open>log_export_retries_refused_connect.rs\<close>,
  \<open>span_export_retries_refused_connect.rs\<close>). The propagator and the tracer are arguments.
\<close>

section \<open>The HTTP layer\<close>

definition hello :: "rstring option \<Rightarrow> request" where
  "hello traceparent = \<lparr>rq_method = lit ''GET'', rq_path = lit ''/hello'',
     rq_headers = (case traceparent of None \<Rightarrow> [] | Some tp \<Rightarrow> [(lit ''traceparent'', Text tp)])\<rparr>"

definition TRACEPARENT :: rstring where
  "TRACEPARENT = lit ''00-0af7651916cd43dd8448eb211c80319c-b7ad6b7169203331-01''"

definition TRACE_ID :: nat where
  "TRACE_ID = 0x0af7651916cd43dd8448eb211c80319c"

text \<open>The service of the router: a handler behind the layer.\<close>

definition oneshot ::
    "propagation \<Rightarrow> (span_start \<Rightarrow> span_context) \<Rightarrow> (nat \<Rightarrow> rstring option) \<Rightarrow> (otel_context \<Rightarrow> response) \<Rightarrow> request \<Rightarrow> response" where
  "oneshot pg start reason handler req =
     projr (sv_result (snd (http_call pg start reason no_context id (\<lambda>s ambient req cx. Inr (handler cx) :: unit + response) () req)))"

definition ok_response :: "nat \<Rightarrow> response" where
  "ok_response body = \<lparr>rs_status = 200, rs_headers = [], rs_body = body\<rparr>"

definition request_with_traceparent_creates_child_span ::
    "propagation \<Rightarrow> (span_start \<Rightarrow> span_context) \<Rightarrow> (nat \<Rightarrow> rstring option) \<Rightarrow> bool" where
  "request_with_traceparent_creates_child_span pg start reason \<longleftrightarrow>
     rs_status (oneshot pg start reason (\<lambda>cx. ok_response 0) (hello (Some TRACEPARENT))) = 200"

definition response_includes_traceparent_header ::
    "propagation \<Rightarrow> (span_start \<Rightarrow> span_context) \<Rightarrow> (nat \<Rightarrow> rstring option) \<Rightarrow> bool" where
  "response_includes_traceparent_header pg start reason \<longleftrightarrow>
     (let r = oneshot pg start reason (\<lambda>cx. ok_response 0) (hello None)
      in rs_status r = 200 \<and> lit ''traceparent'' \<in> set (header_keys (rs_headers r)))"

text \<open>The handler answers with the trace id of its current context.\<close>

definition handler_observes_extracted_context_as_current ::
    "propagation \<Rightarrow> (span_start \<Rightarrow> span_context) \<Rightarrow> (nat \<Rightarrow> rstring option) \<Rightarrow> bool" where
  "handler_observes_extracted_context_as_current pg start reason \<longleftrightarrow>
     (let r = oneshot pg start reason (\<lambda>cx. ok_response (case cx_span cx of Some sc \<Rightarrow> sc_trace_id sc | None \<Rightarrow> 0))
            (hello (Some TRACEPARENT))
      in rs_status r = 200 \<and> rs_body r = TRACE_ID)"

lemma oneshot_eval:
  "oneshot pg start reason handler req =
     (let parent = extract_headers pg (rq_headers req);
          cx = with_span (start \<lparr>ss_name = rq_method req @ 32 # rq_path req, ss_kind = Server,
                ss_attrs = [(lit ''http.request.method'', AttrStr (rq_method req))], ss_parent = parent\<rparr>) parent;
          r = handler cx
      in r\<lparr>rs_headers := inject_headers pg cx (rs_headers r)\<rparr>)"
  by (simp add: oneshot_def http_call_def take_ready_def with_context_def Let_def)

lemma injector_set_keys: "k \<in> fst ` set hs \<Longrightarrow> k \<in> fst ` set (injector_set wr hs kv)"
  by (auto simp: injector_set_def header_insert_def image_iff split: option.split)

lemma injected_keys: "k \<in> fst ` set hs \<Longrightarrow> k \<in> fst ` set (foldl (injector_set wr) hs kvs)"
  by (induction kvs arbitrary: hs) (simp_all add: injector_set_keys)

text \<open>
  A propagator writes a header the wire takes for every context with a span, and a tracer keeps the
  trace of a parent that has one.
\<close>

lemma injected_header:
  assumes "(k, v) \<in> set kvs" and "wr_name_of wr k = Some k" and "wr_value_ok wr v"
  shows "k \<in> fst ` set (foldl (injector_set wr) hs kvs)"
proof -
  obtain as bs where "kvs = as @ (k, v) # bs" using assms(1) by (meson split_list)
  moreover have "k \<in> fst ` set (injector_set wr hs' (k, v))" for hs'
    using assms(2,3) by (simp add: injector_set_def header_insert_def)
  ultimately show ?thesis by (simp add: injected_keys)
qed

lemma axum_tests_pass:
  shows "request_with_traceparent_creates_child_span pg start reason"
    and "\<lbrakk>\<And>cx. cx_span cx \<noteq> None \<Longrightarrow> \<exists>v. (lit ''traceparent'', v) \<in> set (pg_inject pg cx) \<and> wr_value_ok (pg_wire pg) v;
      wr_name_of (pg_wire pg) (lit ''traceparent'') = Some (lit ''traceparent'')\<rbrakk> \<Longrightarrow> response_includes_traceparent_header pg start reason"
    and "\<lbrakk>extract_headers pg [(lit ''traceparent'', Text TRACEPARENT)] = with_span \<lparr>sc_trace_id = TRACE_ID, sc_span_id = n\<rparr> cx;
      \<And>ss sc. cx_span (ss_parent ss) = Some sc \<Longrightarrow> sc_trace_id (start ss) = sc_trace_id sc\<rbrakk>
      \<Longrightarrow> handler_observes_extracted_context_as_current pg start reason"
proof -
  show "request_with_traceparent_creates_child_span pg start reason"
    by (simp add: request_with_traceparent_creates_child_span_def oneshot_eval ok_response_def Let_def)
next
  assume inject: "\<And>cx. cx_span cx \<noteq> None \<Longrightarrow> \<exists>v. (lit ''traceparent'', v) \<in> set (pg_inject pg cx) \<and> wr_value_ok (pg_wire pg) v"
    and name: "wr_name_of (pg_wire pg) (lit ''traceparent'') = Some (lit ''traceparent'')"
  have "lit ''traceparent'' \<in> fst ` set (inject_headers pg (with_span sc cx) hs)" for sc cx hs
    using inject [of "with_span sc cx"] injected_header [OF _ name] by (auto simp: inject_headers_def with_span_def)
  then show "response_includes_traceparent_header pg start reason"
    by (simp add: response_includes_traceparent_header_def oneshot_eval ok_response_def header_keys_def Let_def)
next
  assume "extract_headers pg [(lit ''traceparent'', Text TRACEPARENT)] = with_span \<lparr>sc_trace_id = TRACE_ID, sc_span_id = n\<rparr> cx"
    and "\<And>ss sc. cx_span (ss_parent ss) = Some sc \<Longrightarrow> sc_trace_id (start ss) = sc_trace_id sc"
  then show "handler_observes_extracted_context_as_current pg start reason"
    by (simp add: handler_observes_extracted_context_as_current_def oneshot_eval ok_response_def hello_def with_span_def Let_def)
qed

section \<open>The enricher\<close>

text \<open>The request span is open and current, and the request carries no context.\<close>

definition missing_extension_is_noop ::
    "(unit, unit) handler \<Rightarrow> bool \<Rightarrow> hash_order \<Rightarrow> otel_context \<Rightarrow> otel_context \<Rightarrow> bool" where
  "missing_extension_is_noop handler late order ambient cx \<longleftrightarrow>
     (let w = bridge_run [] order [NewSpan []];
          (r, fl) = enriched_handler handler late (Some 0) None \<lparr>fl_world = w, fl_otel = []\<rparr> () ambient (hello None) cx
      in (case r of Inr resp \<Rightarrow> rs_status resp = 200 | Inl e \<Rightarrow> False)
         \<and> list_all (\<lambda>(k, v). \<not> starts_with k (lit ''enduser.'')) (sd_trace_attrs (wd_spans (fl_world fl) ! 0)))"

lemma missing_extension_passes:
  "missing_extension_is_noop (\<lambda>s cx fl req. (Inr (ok_response 0), fl)) late order ambient cx"
  by (simp add: missing_extension_is_noop_def enriched_handler_enrich ok_response_def bridge_run_def on_new_span_def
      span_opened_def no_extensions_def Let_def)

section \<open>A collector that listens late\<close>

text \<open>
  Attempt \<open>i\<close> is made at \<open>at i\<close> after the first; nothing listens for 250 ms. The exporter's state is
  the number of attempts, and what the collector received.
\<close>

definition late_collector :: "(nat \<Rightarrow> duration) \<Rightarrow> (nat \<times> 'r list, 'r list) export_fn" where
  "late_collector at s batch =
     (let (i, received) = s
      in if at i < from_millis 250 then ((Suc i, received), Inl (lit ''export error: code: Unavailable''))
         else ((Suc i, received @ batch), Inr ()))"

definition a_refused_first_connect_is_retried_until_the_collector_answers :: "(nat \<Rightarrow> duration) \<Rightarrow> bool" where
  "a_refused_first_connect_is_retried_until_the_collector_answers at \<longleftrightarrow>
     (let body = lit ''logged-before-the-collector-listened'';
          ((i, received), eff, r) = export_logs (late_collector at) (retry_new True) (0, []) [body]
      in body \<in> set received)"

definition a_refused_first_connect_of_spans_is_retried_until_the_collector_answers :: "(nat \<Rightarrow> duration) \<Rightarrow> bool" where
  "a_refused_first_connect_of_spans_is_retried_until_the_collector_answers at \<longleftrightarrow>
     (let name = lit ''span-before-the-collector-listened'';
          ((i, received), eff, r) = export_spans (late_collector at) (retry_new True) (0, []) [name]
      in length (filter (\<lambda>n. n = name) received) = 1)"

lemma refused_unavailable: "is_unavailable (Inl (lit ''export error: code: Unavailable''))"
  by (simp add: is_unavailable_def lit_def)

text \<open>The attempts are at least the pauses apart.\<close>

lemma late_collector_tests_pass:
  assumes "\<And>i. i < 4 \<Longrightarrow> sum_list (take i BACKOFF) \<le> at i"
  shows "a_refused_first_connect_is_retried_until_the_collector_answers at"
    and "a_refused_first_connect_of_spans_is_retried_until_the_collector_answers at"
proof -
  have "\<not> at 2 < from_millis 250" using assms [of 2] by (simp add: BACKOFF_def from_millis_def)
  then have run: "\<exists>i eff. export_logs (late_collector at) (retry_new True) (0, []) [b] = ((i, [b]), eff, Inr ())" for b :: rstring
    by (simp add: export_logs_def attempt_def late_collector_def retry_new_def retry_with_backoff_def BACKOFF_def refused_unavailable
        is_unavailable_def [of "Inr ()"] pause_def numeral_2_eq_2 Let_def)
  from run [of "lit ''logged-before-the-collector-listened''"] show "a_refused_first_connect_is_retried_until_the_collector_answers at"
    by (auto simp: a_refused_first_connect_is_retried_until_the_collector_answers_def)
  from run [of "lit ''span-before-the-collector-listened''"]
  show "a_refused_first_connect_of_spans_is_retried_until_the_collector_answers at"
    by (auto simp: a_refused_first_connect_of_spans_is_retried_until_the_collector_answers_def export_spans_logs)
qed

end
