(* ===== verification/Spec2Isabelle.thy ===== *)
theory Spec2Isabelle
  imports BootGlobal BootRefine ProcessAge ExportRetry Pipeline Mtls
    InitOrder Examples RuntimeMetrics BuildScript Probes
    Layers BootTests ConfigTests LogTests MtlsTests PortTests ProcessTests ExportTests WorkTests
    InitTests BootProcessTests FlowTests
begin

text \<open>
  A verification development of otel-bootstrap, a Rust library that sets up OpenTelemetry
  traces, metrics, logs and profiles for a service in one call.

  The program. A service calls \<open>Telemetry::builder\<close>, a few setters and \<open>init\<close>
  (\<open>src/src/lib.rs\<close>), and keeps the handles until it ends. \<open>init\<close> resolves the
  settings from the builder and the environment, builds one exporter for each signal, wraps those
  of traces and logs for retrying (\<open>export_retry.rs\<close>), gives them TLS
  (\<open>rotating_mtls.rs\<close>), starts profiling (\<open>profiling.rs\<close>) and the process gauges
  (\<open>runtime_metrics.rs\<close>), installs the subscriber with its layers (\<open>export_backoff.rs\<close>,
  \<open>log_bridge.rs\<close>) and connects the boot timeline (\<open>boot.rs\<close>), which has recorded the
  phases of the start since before there was any telemetry. While the service runs, tower
  services (\<open>axum_middleware.rs\<close>, \<open>grpc_middleware.rs\<close>) and port wrappers
  (\<open>instrumented_port.rs\<close>) carry the trace through it, and futures run under spans
  (\<open>spanned.rs\<close>). The handles shut all of it down. A build script (\<open>src/build.rs\<close>) links
  an unwinder for heap profiling on musl, and two probes (\<open>src/src/bin\<close>) check in the field that
  heap profiles hold something and that the profiling bridge does not leak.

  The theories, with the files they model.

  \<^item> \<open>Prelude\<close>, \<open>RustStr\<close>, \<open>RustTime\<close>, \<open>F64\<close>, \<open>Tracing\<close>: the values of the language and
    its libraries the code computes with: strings as lists of scalar values, 64-bit words,
    durations and instants in nanoseconds, correctly rounded binary floats, levels, fields and
    events; the lemmas and collections (\<open>std_simps\<close>, \<open>init_simps\<close>) the rest shares; and the
    locale \<open>simulation\<close>, one machine doing what another does.
  \<^item> \<open>LogFmt\<close>, \<open>Boot\<close>, \<open>BootProps\<close>, \<open>BootContract\<close>, \<open>BootGuard\<close>, \<open>ProcessAge\<close>
    (\<open>boot.rs\<close>): the two lines of standard error; the timeline as one record under its mutex,
    an operation being the section under the lock and the effects performed after it; threads as
    an inductive step relation in which sections and effects of all threads interleave; its
    invariant; the guard and the timed work over any recorder (locale \<open>phase_recorder\<close>,
    interpreted on the timeline); the age of the process from \<open>/proc\<close>.
  \<^item> \<open>BootGlobal\<close> (\<open>boot.rs\<close>): the statics of the process and the free functions over them, the
    global timeline being made by the first use of any thread.
  \<^item> \<open>BootRefine\<close>: the abstract boot, which keeps every phase ever recorded and a root that is
    unstarted, open or ended; the timeline is an instance of \<open>simulation\<close> over it.
  \<^item> \<open>ExportBackoff\<close> (\<open>export_backoff.rs\<close>): the admission of failure events, an instance
    of the locale \<open>rate_limiter\<close>.
  \<^item> \<open>ExportRetry\<close> (\<open>export_retry.rs\<close>): the wrapped exporters, as the attempts and pauses
    of an export in their order; the two implementations of the exporter traits, each an instance of
    \<open>simulation\<close> over the bare exporter.
  \<^item> \<open>LogBridge\<close>, \<open>LogBridgeProps\<close> (\<open>log_bridge.rs\<close>, \<open>span_enrichment.rs\<close>): spans with
    their extensions, the visitors, the record of an event; the attribute list is an instance of
    the locale \<open>kv_store\<close>; histories of spans, writes and events. The registry is not in the
    repository: an event comes with the \<open>span_ref\<close> the registry gives, any span and any scope.
    \<open>RequestFlow\<close> puts the span enricher of the HTTP middleware before such a history, and then the
    whole stack of layers that the documentation shows, with any function as the context's
    \<open>enrich_span\<close>. \<open>LogSink\<close> is the bridge over any implementation of the SDK's
    traits \<open>LogRecord\<close> and \<open>Logger\<close>, as records of functions under the locales
    \<open>attribute_record\<close> and \<open>full_record\<close>, interpreted on the two captured records of the tests;
    \<open>captured_is_emitted\<close> in \<open>LogTests\<close> says that what they hold is the record of \<open>LogBridge\<close>.
  \<^item> \<open>Pipeline\<close>: the stack of layers that \<open>init\<close> installs, each with its filter, as the
    path of an event to the console, the bridge's logger and the back-off; the filter's and the extra
    layers' answers depend on the callsite and on the span, and those of the extra layers on the
    event too; the boot run under it.
  \<^item> \<open>Mtls\<close> (\<open>rotating_mtls.rs\<close>): the configuration of a connection, the check of the
    collector's identity, sequences of connections.
  \<^item> \<open>Profiling\<close> (\<open>profiling.rs\<close>): the endpoint check, the tags, the start of both agents.
  \<^item> \<open>Config\<close>, \<open>TelemetryInit\<close>, \<open>InitProps\<close>, \<open>HandleProps\<close> (\<open>lib.rs\<close>,
    \<open>testing.rs\<close>): the builder with all its setters, the readers of the environment, the
    exporters, \<open>init\<close> as the list of what it does to the process on every branch, the handles.
    The step from builder to exporters is read off \<open>init_cases\<close>, the case rule of \<open>init\<close>.
    \<open>InitOrder\<close> reads the effects of a successful \<open>init\<close> in their order, down to those of the
    abstract boot when it is connected.
  \<^item> \<open>Middleware\<close>, \<open>Instrumented\<close> (\<open>axum_middleware.rs\<close>, \<open>grpc_middleware.rs\<close>,
    \<open>instrumented_port.rs\<close>): each \<open>call\<close> with its future run to the end; the
    services that swap the polled handle are instances of the locale \<open>swapping_service\<close>, and so
    are, in \<open>Layers\<close>, the services their tower layers make, whose readiness is the inner one's.
  \<^item> \<open>Spanned\<close> (\<open>spanned.rs\<close>): both wrappers as the state machines of their async bodies, polled
    by a pool of threads in any order and dropped at any await; \<open>tidy\<close>, coinductive, says that a
    future holds no guard across an await.
  \<^item> \<open>RuntimeMetrics\<close> (\<open>runtime_metrics.rs\<close>): the instruments and what a collection reads.
  \<^item> \<open>Examples\<close> (\<open>src/examples\<close>): the seven example programs from start to exit, as clients of
    the modelled library, under \<open>#[tokio::main]\<close> or in a plain \<open>main\<close>. \<open>init_run\<close> is \<open>init\<close> with the
    panics of exporters and channels that are built outside a runtime and need one.
  \<^item> \<open>BuildScript\<close> (\<open>build.rs\<close>): the search, the shim, what cargo is told, how the script ends.
  \<^item> \<open>Probes\<close> (\<open>bin/heap-probe.rs\<close>, \<open>bin/rss-probe.rs\<close>): the readings, the sink, the load, the
    slope and the verdicts. A finite float there is its rational value, and every operation rounds
    its exact result by the parameter \<open>rnd\<close>.
  \<^item> \<open>BootTests\<close>, \<open>ConfigTests\<close>, \<open>LogTests\<close>, \<open>MtlsTests\<close>, \<open>PortTests\<close>, \<open>ProcessTests\<close>,
    \<open>ExportTests\<close>, \<open>WorkTests\<close>: the unit tests of the sources, each a predicate under the test's
    name that says of the model what the test asserts of the code, and the lemmas that the model
    passes them. They tie the model to the behaviour the authors checked; what a test finds in its
    surroundings is its argument. The doubles of the tests are modelled with them: the TLS server
    that \<open>MtlsTests\<close> lets the client's connections reach over a network, the exporter that collects
    the spans of \<open>PortTests\<close>, the layer that watches the spans of \<open>WorkTests\<close>.
  \<^item> \<open>InitTests\<close>, \<open>BootProcessTests\<close>, \<open>FlowTests\<close>: integration tests of
    \<open>src/tests\<close> in the same way: of \<open>init\<close> on a host whose libraries build what they are asked
    for, of a process's boot under a collector that keeps what it is sent, of the HTTP layer, and of
    exports to a collector that listens late.

  What the properties show. Every phase of a start is exported exactly once, under one root span,
  whatever the interleaving of its threads and whenever telemetry connects, and is on standard
  error on one line that reads back as what was recorded; the guard records once on every path.
  All of it is what the abstract boot does, in which the limit of the timeline's buffer is only a
  limit on what an attachment exports and two counts at the end of the root. The
  process has one timeline whichever thread asks first, and its free functions are that timeline's
  methods. The phases reach the console and the log exporter through the installed stack, which
  shows both the same events.
  Failure events are let through at a bounded rate that falls while failures last. A refused
  export is retried only when unavailable, in bounded time, with the same batch, and the wrapper
  shows in nothing else. A log record
  carries exactly what the spans around it hold, the nearest first, and a request's id with it; the
  attributes of a request's context get there only if it is served inside a tracing span, which
  the documented stack does not open, or if it writes through the current OpenTelemetry context. No
  connection is made without
  material, none to a collector of the wrong identity, and a rotation is taken up by the next
  one. Profiles stay on the machine. A failed initialisation leaves the process alone, the
  settings reach every exporter by one precedence, the TLS material or source set last reaches every
  gRPC exporter, one set of handles owns the boot, and shutdown absorbs errors and does not wait for
  a provider longer than it was told.
  Requests and calls stay in their caller's trace, and a future in its span, whatever thread polls
  it and wherever it is cancelled. Every example ends with its providers shut down once and no span
  open, but for those with a plain \<open>main\<close> where the libraries need a runtime. The build script links or says that it does not, and the probes tell a leak from a step and
  do not pass without having looked.

  Conventions. What is not in the repository is a parameter: the SDK's exporters, providers and
  processors, the propagator and the tracers, the TLS and PEM libraries, the URL parser, jemalloc
  and the profiler, clocks, the environment, files. A property that relies on one of them states
  what it relies on as a hypothesis, and its witness gives a concrete instance. An error of the
  code is the left of a sum with the error's message. Mutexes make an operation on the timeline
  or on the failure gate atomic; poisoning is absorbed by the code, and a panic of the code
  itself is not modelled except where it is caught and in the initialisation of the examples. All functions are total; the loops of the
  code are structural recursions or have a termination proof, and no theorem depends on fuel:
  the only fuel is in the reader of \<open>LogFmt\<close>, a specification, which is given the length of the
  line and consumes at least one character at each field.

  Not modelled: the inert \<open>ProfilingTagLayer\<close>, which has no method of its own; the registry, with
  the closing of spans; the panic of the build script when it cannot make its directory;
  the time the profiling agents take to stop; the float conversion of the gauges' seconds; the unit tests of the SDK's
  tracer, of \<open>Send\<close> and \<open>Sync\<close> and of the probe's task, which assert nothing of the code's
  values; and of the integration tests those that are about the SDK (its propagators, the ids of its
  spans, an array as an attribute, further layers on its registry), those that read the collector's
  and the package's files, and those that run a collector, or a process whose memory is watched.
\<close>

end
